theory Spec2Isabelle
  imports Complex_Main "HOL-Library.Stream"
begin

section \<open>Numbers, vectors and the random source\<close>

text \<open>
  JavaScript numbers are modelled as reals. The only non-finite number the program
  stores is the \<^verbatim>\<open>Infinity\<close> of the pistol's ammunition, so an ammunition count is
  either a finite real or \<open>Infinity\<close>. \<^verbatim>\<open>Math.random()\<close> reads the head of a stream of
  draws and leaves the tail.
\<close>

datatype ammo_count = Finite real | Infinity

fun ammo_positive :: "ammo_count \<Rightarrow> bool" where
  "ammo_positive (Finite n) = (n > 0)"
| "ammo_positive Infinity = True"

record Vector2D =
  x :: real
  y :: real

definition new_Vector2D :: "real \<Rightarrow> real \<Rightarrow> Vector2D" where
  "new_Vector2D a b = \<lparr>Vector2D.x = a, y = b\<rparr>"

definition multiply :: "Vector2D \<Rightarrow> real \<Rightarrow> Vector2D" where
  "multiply v scalar = new_Vector2D (Vector2D.x v * scalar) (Vector2D.y v * scalar)"

definition magnitude :: "Vector2D \<Rightarrow> real" where
  "magnitude v = sqrt (Vector2D.x v * Vector2D.x v + Vector2D.y v * Vector2D.y v)"

definition normalize :: "Vector2D \<Rightarrow> Vector2D" where
  "normalize v =
     (let mag = magnitude v
      in if mag = 0 then new_Vector2D 0 0
         else new_Vector2D (Vector2D.x v / mag) (Vector2D.y v / mag))"

text \<open>Rotation of a vector by an angle: the spread the shotgun applies to the aim.\<close>

definition rotate :: "real \<Rightarrow> Vector2D \<Rightarrow> Vector2D" where
  "rotate a v =
     new_Vector2D (Vector2D.x v * cos a - Vector2D.y v * sin a)
                  (Vector2D.x v * sin a + Vector2D.y v * cos a)"

type_synonym rng = "real stream"

definition Math_random :: "rng \<Rightarrow> real \<times> rng" where
  "Math_random g = (shd g, stl g)"

definition uniform01 :: "rng \<Rightarrow> bool" where
  "uniform01 g = (\<forall>i. 0 \<le> g !! i \<and> g !! i < 1)"

section \<open>Entities\<close>

text \<open>
  A class is a record, a subclass a record extension of \<open>GameEntity\<close>. Sprites only
  select between two ways of drawing and are left out. A reference to an object is an
  address of the store.
\<close>

type_synonym ref = nat

record GameEntity =
  x :: real
  y :: real
  width :: real
  height :: real
  markedForDeletion :: bool

definition isMarkedForDeletion :: "'a GameEntity_scheme \<Rightarrow> bool" where
  "isMarkedForDeletion e = markedForDeletion e"

definition markForDeletion :: "'a GameEntity_scheme \<Rightarrow> 'a GameEntity_scheme" where
  "markForDeletion e = e\<lparr>markedForDeletion := True\<rparr>"

subsection \<open>Bullet\<close>

record Bullet = GameEntity +
  velocity :: Vector2D
  damage :: real
  lifespan :: real
  source :: string

definition new_Bullet ::
  "real \<Rightarrow> real \<Rightarrow> Vector2D \<Rightarrow> real \<Rightarrow> real \<Rightarrow> string \<Rightarrow> Bullet" where
  "new_Bullet bx by dir spd dmg src =
     \<lparr>GameEntity.x = bx, y = by, width = 5, height = 5, markedForDeletion = False,
      velocity = multiply (normalize dir) spd, damage = dmg, lifespan = 2, source = src\<rparr>"

definition Bullet_update :: "real \<Rightarrow> Bullet \<Rightarrow> Bullet" where
  "Bullet_update deltaTime b =
     (let b1 = b\<lparr>GameEntity.x := GameEntity.x b + Vector2D.x (velocity b) * deltaTime\<rparr>;
          b2 = b1\<lparr>GameEntity.y := GameEntity.y b1 + Vector2D.y (velocity b1) * deltaTime\<rparr>;
          b3 = b2\<lparr>lifespan := lifespan b2 - deltaTime\<rparr>
      in if lifespan b3 \<le> 0 then markForDeletion b3 else b3)"

subsection \<open>Player\<close>

record WeaponDamage =
  pistol :: real
  shotgun :: real
  rifle :: real

record Player = GameEntity +
  speed :: real
  health :: real
  maxHealth :: real
  direction :: Vector2D
  shootCooldown :: real
  shootCooldownMax :: real
  weaponType :: string
  ammo :: "string \<rightharpoonup> ammo_count"
  weaponDamage :: WeaponDamage

definition new_Player :: "real \<Rightarrow> real \<Rightarrow> Player" where
  "new_Player px py =
     \<lparr>GameEntity.x = px, y = py, width = 40, height = 40, markedForDeletion = False,
      speed = 200, health = 100, maxHealth = 100, direction = new_Vector2D 1 0,
      shootCooldown = 0, shootCooldownMax = 0.2, weaponType = ''pistol'',
      ammo = [''pistol'' \<mapsto> Infinity, ''shotgun'' \<mapsto> Finite 20, ''rifle'' \<mapsto> Finite 30],
      weaponDamage = \<lparr>pistol = 25, shotgun = 15, rifle = 40\<rparr>\<rparr>"

definition Player_update :: "real \<Rightarrow> Player \<Rightarrow> Player" where
  "Player_update deltaTime p =
     (if shootCooldown p > 0 then p\<lparr>shootCooldown := shootCooldown p - deltaTime\<rparr> else p)"

definition move :: "Vector2D \<Rightarrow> real \<Rightarrow> Player \<Rightarrow> Player" where
  "move dir deltaTime p =
     (let normalizedDir = normalize dir;
          p1 = p\<lparr>GameEntity.x := GameEntity.x p + Vector2D.x normalizedDir * Player.speed p * deltaTime\<rparr>
      in p1\<lparr>GameEntity.y := GameEntity.y p1 + Vector2D.y normalizedDir * Player.speed p1 * deltaTime\<rparr>)"

definition setDirection :: "Vector2D \<Rightarrow> Player \<Rightarrow> Player" where
  "setDirection dir p = p\<lparr>direction := normalize dir\<rparr>"

text \<open>
  \<^verbatim>\<open>this.ammo[this.weaponType] > 0\<close>: a missing key reads \<^verbatim>\<open>undefined\<close>, and
  \<^verbatim>\<open>undefined > 0\<close> is false.
\<close>

definition canShoot :: "Player \<Rightarrow> bool" where
  "canShoot p =
     (shootCooldown p \<le> 0 \<and>
      (case ammo p (weaponType p) of None \<Rightarrow> False | Some n \<Rightarrow> ammo_positive n))"

text \<open>The shotgun's loop \<^verbatim>\<open>for (let i = 0; i < 5; i++)\<close>, counted down by its remaining rounds.\<close>

fun shotgun_pellets :: "nat \<Rightarrow> Player \<Rightarrow> rng \<Rightarrow> Bullet list \<times> rng" where
  "shotgun_pellets 0 p g = ([], g)"
| "shotgun_pellets (Suc n) p g =
     (let (r, g1) = Math_random g;
          spreadAngle = (r - 0.5) * 0.5;
          spreadDirection = new_Vector2D
            (Vector2D.x (direction p) * cos spreadAngle - Vector2D.y (direction p) * sin spreadAngle)
            (Vector2D.x (direction p) * sin spreadAngle + Vector2D.y (direction p) * cos spreadAngle);
          pellet = new_Bullet (GameEntity.x p + width p / 2) (GameEntity.y p + height p / 2)
                     spreadDirection 500 (shotgun (weaponDamage p)) ''player'';
          (rest, g2) = shotgun_pellets n p g1
      in (pellet # rest, g2))"

definition shoot :: "rng \<Rightarrow> Player \<Rightarrow> Bullet list \<times> Player \<times> rng" where
  "shoot g p =
     (if \<not> canShoot p then ([], p, g)
      else
        let p1 = p\<lparr>shootCooldown := shootCooldownMax p\<rparr>;
            p2 = (case ammo p1 (weaponType p1) of
                    Some (Finite n) \<Rightarrow> p1\<lparr>ammo := (ammo p1)(weaponType p1 \<mapsto> Finite (n - 1))\<rparr>
                  | _ \<Rightarrow> p1);
            bulletSpeed = 500
        in if weaponType p2 = ''pistol'' then
             ([new_Bullet (GameEntity.x p2 + width p2 / 2) (GameEntity.y p2 + height p2 / 2)
                 (direction p2) bulletSpeed (pistol (weaponDamage p2)) ''player''], p2, g)
           else if weaponType p2 = ''shotgun'' then
             (let (bullets, g') = shotgun_pellets 5 p2 g in (bullets, p2, g'))
           else if weaponType p2 = ''rifle'' then
             ([new_Bullet (GameEntity.x p2 + width p2 / 2) (GameEntity.y p2 + height p2 / 2)
                 (direction p2) (bulletSpeed * 1.5) (rifle (weaponDamage p2)) ''player''], p2, g)
           else ([], p2, g))"

text \<open>The player a successful \<^verbatim>\<open>shoot\<close> leaves: cooldown reset, finite ammunition spent.\<close>

definition spent :: "Player \<Rightarrow> Player" where
  "spent p =
     (let p1 = p\<lparr>shootCooldown := shootCooldownMax p\<rparr>
      in case ammo p1 (weaponType p1) of
           Some (Finite n) \<Rightarrow> p1\<lparr>ammo := (ammo p1)(weaponType p1 \<mapsto> Finite (n - 1))\<rparr>
         | _ \<Rightarrow> p1)"

text \<open>
  \<^verbatim>\<open>this.ammo[weapon] !== undefined\<close> is the membership of the key; the inner switch
  has no default, so another key of the table would change the weapon and keep the
  cooldown maximum.
\<close>

definition switchWeapon :: "string \<Rightarrow> Player \<Rightarrow> Player" where
  "switchWeapon weapon p =
     (if ammo p weapon \<noteq> None then
        (let p1 = p\<lparr>weaponType := weapon\<rparr>
         in if weapon = ''pistol'' then p1\<lparr>shootCooldownMax := 0.4\<rparr>
            else if weapon = ''shotgun'' then p1\<lparr>shootCooldownMax := 0.8\<rparr>
            else if weapon = ''rifle'' then p1\<lparr>shootCooldownMax := 0.15\<rparr>
            else p1)
      else p)"

definition Player_takeDamage :: "real \<Rightarrow> Player \<Rightarrow> Player" where
  "Player_takeDamage amount p =
     (let p1 = p\<lparr>Player.health := max 0 (Player.health p - amount)\<rparr>
      in if Player.health p1 \<le> 0 then markForDeletion p1 else p1)"

definition heal :: "real \<Rightarrow> Player \<Rightarrow> Player" where
  "heal amount p = p\<lparr>Player.health := min (maxHealth p) (Player.health p + amount)\<rparr>"

definition addAmmo :: "string \<Rightarrow> real \<Rightarrow> Player \<Rightarrow> Player" where
  "addAmmo ty amount p =
     (case ammo p ty of
        Some (Finite n) \<Rightarrow> p\<lparr>ammo := (ammo p)(ty \<mapsto> Finite (n + amount))\<rparr>
      | _ \<Rightarrow> p)"

text \<open>The cooldown of each weapon, as a switch to it sets it.\<close>

definition weaponCooldown :: "string \<Rightarrow> real" where
  "weaponCooldown w =
     (if w = ''pistol'' then 0.4 else if w = ''shotgun'' then 0.8 else 0.15)"

subsection \<open>Zombie\<close>

record Zombie = GameEntity +
  speed :: real
  health :: real
  damage :: real
  target :: "ref option"
  attackCooldown :: real
  attackCooldownMax :: real
  type :: string

definition new_Zombie :: "real \<Rightarrow> real \<Rightarrow> string \<Rightarrow> Zombie" where
  "new_Zombie zx zy ty =
     (let z = \<lparr>GameEntity.x = zx, y = zy, width = 35, height = 35, markedForDeletion = False,
                speed = 0, health = 0, damage = 0, target = None,
                attackCooldown = 0, attackCooldownMax = 1, type = ty\<rparr>
      in if ty = ''fast'' then z\<lparr>Zombie.speed := 150, Zombie.health := 50, Zombie.damage := 5\<rparr>
         else if ty = ''tank'' then z\<lparr>Zombie.speed := 60, Zombie.health := 200, Zombie.damage := 20\<rparr>
         else z\<lparr>Zombie.speed := 80, Zombie.health := 100, Zombie.damage := 10\<rparr>)"

text \<open>\<open>tgt\<close> is the object behind \<^verbatim>\<open>this.target\<close>, when the reference is set.\<close>

definition Zombie_update :: "real \<Rightarrow> Player option \<Rightarrow> Zombie \<Rightarrow> Zombie" where
  "Zombie_update deltaTime tgt z =
     (case tgt of
        None \<Rightarrow> z
      | Some t \<Rightarrow>
          (let dir = normalize (new_Vector2D (GameEntity.x t - GameEntity.x z)
                                             (GameEntity.y t - GameEntity.y z));
               z1 = z\<lparr>GameEntity.x := GameEntity.x z + Vector2D.x dir * Zombie.speed z * deltaTime\<rparr>;
               z2 = z1\<lparr>GameEntity.y := GameEntity.y z1 + Vector2D.y dir * Zombie.speed z1 * deltaTime\<rparr>
           in if attackCooldown z2 > 0
              then z2\<lparr>attackCooldown := attackCooldown z2 - deltaTime\<rparr> else z2))"

definition setTarget :: "ref \<Rightarrow> Zombie \<Rightarrow> Zombie" where
  "setTarget player z = z\<lparr>target := Some player\<rparr>"

definition Zombie_takeDamage :: "real \<Rightarrow> Zombie \<Rightarrow> Zombie" where
  "Zombie_takeDamage amount z =
     (let z1 = z\<lparr>Zombie.health := Zombie.health z - amount\<rparr>
      in if Zombie.health z1 \<le> 0 then markForDeletion z1 else z1)"

subsection \<open>Pickup and Obstacle\<close>

record Pickup = GameEntity +
  type :: string
  "value" :: real

definition new_Pickup :: "real \<Rightarrow> real \<Rightarrow> string \<Rightarrow> real \<Rightarrow> Pickup" where
  "new_Pickup kx ky ty v =
     \<lparr>GameEntity.x = kx, y = ky, width = 20, height = 20, markedForDeletion = False,
      type = ty, value = v\<rparr>"

type_synonym Obstacle = GameEntity

definition new_Obstacle :: "real \<Rightarrow> real \<Rightarrow> real \<Rightarrow> real \<Rightarrow> Obstacle" where
  "new_Obstacle ox oy w h =
     \<lparr>GameEntity.x = ox, y = oy, width = w, height = h, markedForDeletion = False\<rparr>"

text \<open>\<^verbatim>\<open>String.prototype.split\<close> on a one-character separator.\<close>

fun split :: "char \<Rightarrow> string \<Rightarrow> string list" where
  "split sep [] = [[]]"
| "split sep (c # cs) =
     (if c = sep then [] # split sep cs
      else (case split sep cs of [] \<Rightarrow> [[c]] | w # ws \<Rightarrow> (c # w) # ws))"

definition startsWith :: "string \<Rightarrow> string \<Rightarrow> bool" where
  "startsWith t pre = (take (length pre) t = pre)"

subsection \<open>The objects of the store\<close>

text \<open>The constructor is the dynamic class of the object, which \<^verbatim>\<open>instanceof\<close> tests.\<close>

datatype entity =
  EPlayer Player | EZombie Zombie | EBullet Bullet | EPickup Pickup | EObstacle Obstacle

fun as_GameEntity :: "entity \<Rightarrow> GameEntity" where
  "as_GameEntity (EPlayer p) = GameEntity.truncate p"
| "as_GameEntity (EZombie z) = GameEntity.truncate z"
| "as_GameEntity (EBullet b) = GameEntity.truncate b"
| "as_GameEntity (EPickup k) = GameEntity.truncate k"
| "as_GameEntity (EObstacle ob) = ob"

fun set_x :: "real \<Rightarrow> entity \<Rightarrow> entity" where
  "set_x v (EPlayer p) = EPlayer (p\<lparr>GameEntity.x := v\<rparr>)"
| "set_x v (EZombie z) = EZombie (z\<lparr>GameEntity.x := v\<rparr>)"
| "set_x v (EBullet b) = EBullet (b\<lparr>GameEntity.x := v\<rparr>)"
| "set_x v (EPickup k) = EPickup (k\<lparr>GameEntity.x := v\<rparr>)"
| "set_x v (EObstacle ob) = EObstacle (ob\<lparr>GameEntity.x := v\<rparr>)"

fun set_y :: "real \<Rightarrow> entity \<Rightarrow> entity" where
  "set_y v (EPlayer p) = EPlayer (p\<lparr>GameEntity.y := v\<rparr>)"
| "set_y v (EZombie z) = EZombie (z\<lparr>GameEntity.y := v\<rparr>)"
| "set_y v (EBullet b) = EBullet (b\<lparr>GameEntity.y := v\<rparr>)"
| "set_y v (EPickup k) = EPickup (k\<lparr>GameEntity.y := v\<rparr>)"
| "set_y v (EObstacle ob) = EObstacle (ob\<lparr>GameEntity.y := v\<rparr>)"

fun mark_entity :: "entity \<Rightarrow> entity" where
  "mark_entity (EPlayer p) = EPlayer (markForDeletion p)"
| "mark_entity (EZombie z) = EZombie (markForDeletion z)"
| "mark_entity (EBullet b) = EBullet (markForDeletion b)"
| "mark_entity (EPickup k) = EPickup (markForDeletion k)"
| "mark_entity (EObstacle ob) = EObstacle (markForDeletion ob)"

definition marked :: "entity \<Rightarrow> bool" where
  "marked e = isMarkedForDeletion (as_GameEntity e)"

text \<open>
  \<^verbatim>\<open>Obstacle.onCollision(other)\<close> writes to \<open>other\<close> only: the result is the new
  \<open>other\<close>.
\<close>

definition pushBack :: "Obstacle \<Rightarrow> entity \<Rightarrow> entity" where
  "pushBack this other =
     (let ot = as_GameEntity other;
          overlapX = min (GameEntity.x this + width this - GameEntity.x ot)
                         (GameEntity.x ot + width ot - GameEntity.x this);
          overlapY = min (GameEntity.y this + height this - GameEntity.y ot)
                         (GameEntity.y ot + height ot - GameEntity.y this)
      in if overlapX < overlapY then
           (if GameEntity.x ot < GameEntity.x this
            then set_x (GameEntity.x ot - overlapX) other
            else set_x (GameEntity.x ot + overlapX) other)
         else
           (if GameEntity.y ot < GameEntity.y this
            then set_y (GameEntity.y ot - overlapY) other
            else set_y (GameEntity.y ot + overlapY) other))"

definition Obstacle_onCollision :: "Obstacle \<Rightarrow> entity \<Rightarrow> entity" where
  "Obstacle_onCollision this other =
     (case other of
        EPlayer p \<Rightarrow> pushBack this other
      | EZombie z \<Rightarrow> pushBack this other
      | EBullet b \<Rightarrow> mark_entity other
      | _ \<Rightarrow> other)"

section \<open>The store and the calls the engine makes\<close>

text \<open>
  Objects live in a store and are named by references, so that a zombie's target, the
  director's player and the engine's list can share one object. The trace records, in
  order, every overlap test of the engine with its result, every \<^verbatim>\<open>onCollision\<close>,
  \<^verbatim>\<open>update\<close> and \<^verbatim>\<open>render\<close> call on an entity (receiver first), what the
  director draws or plays, and every zombie that \<^verbatim>\<open>spawnZombie\<close> hands to the engine,
  with its type; what a \<^verbatim>\<open>render\<close> draws is not modelled.
\<close>

datatype event =
  OverlapTest ref ref bool
| OnCollision ref ref
| Update ref real
| Render ref
| ClearCanvas
| Screen string
| PlaySound string
| Spawn ref string

text \<open>
  Besides the objects, the store holds what the browser provides: the draws of
  \<^verbatim>\<open>Math.random\<close>, the time that \<^verbatim>\<open>performance.now()\<close> returns, and the number of
  animation frames requested so far, which numbers the next request.
\<close>

record Store =
  heap :: "ref \<Rightarrow> entity"
  nextRef :: ref
  rng :: rng
  clock :: real
  rafCount :: nat
  trace :: "event list"

definition emit :: "event \<Rightarrow> 'a Store_scheme \<Rightarrow> 'a Store_scheme" where
  "emit e s = s\<lparr>trace := trace s @ [e]\<rparr>"

definition put :: "ref \<Rightarrow> entity \<Rightarrow> 'a Store_scheme \<Rightarrow> 'a Store_scheme" where
  "put r e s = s\<lparr>heap := (heap s)(r := e)\<rparr>"

text \<open>\<^verbatim>\<open>new\<close>: the object is stored at the next free reference.\<close>

definition new :: "entity \<Rightarrow> 'a Store_scheme \<Rightarrow> ref \<times> 'a Store_scheme" where
  "new e s = (nextRef s, s\<lparr>heap := (heap s)(nextRef s := e), nextRef := Suc (nextRef s)\<rparr>)"

definition random :: "'a Store_scheme \<Rightarrow> real \<times> 'a Store_scheme" where
  "random s = (let (r, g) = Math_random (rng s) in (r, s\<lparr>rng := g\<rparr>))"

definition performance_now :: "'a Store_scheme \<Rightarrow> real" where
  "performance_now s = clock s"

subsection \<open>\<^verbatim>\<open>onCollision\<close>, dispatched on the class of the receiver\<close>

definition Player_onCollision :: "ref \<Rightarrow> ref \<Rightarrow> Player \<Rightarrow> 'a Store_scheme \<Rightarrow> 'a Store_scheme" where
  "Player_onCollision this other p s =
     (case heap s other of
        EZombie z \<Rightarrow> put this (EPlayer (Player_takeDamage 10 p)) s
      | _ \<Rightarrow> s)"

text \<open>
  \<^verbatim>\<open>this.target?.takeDamage(this.damage)\<close> damages the stored target, whatever
  \<open>other\<close> is, and does nothing when the target is unset.
\<close>

definition Zombie_attack :: "Zombie \<Rightarrow> 'a Store_scheme \<Rightarrow> 'a Store_scheme" where
  "Zombie_attack z s =
     (case target z of
        None \<Rightarrow> s
      | Some t \<Rightarrow>
          (case heap s t of
             EPlayer tp \<Rightarrow> put t (EPlayer (Player_takeDamage (Zombie.damage z) tp)) s
           | _ \<Rightarrow> s))"

definition Zombie_onCollision :: "ref \<Rightarrow> ref \<Rightarrow> Zombie \<Rightarrow> 'a Store_scheme \<Rightarrow> 'a Store_scheme" where
  "Zombie_onCollision this other z s =
     (case heap s other of
        EPlayer p \<Rightarrow>
          (if attackCooldown z \<le> 0 then
             (let s1 = Zombie_attack z s
              in put this (EZombie (z\<lparr>attackCooldown := attackCooldownMax z\<rparr>)) s1)
           else s)
      | EBullet b \<Rightarrow>
          (if source b = ''player''
           then put this (EZombie (Zombie_takeDamage (Bullet.damage b) z)) s
           else s)
      | _ \<Rightarrow> s)"

definition Bullet_onCollision :: "ref \<Rightarrow> ref \<Rightarrow> Bullet \<Rightarrow> 'a Store_scheme \<Rightarrow> 'a Store_scheme" where
  "Bullet_onCollision this other b s =
     (case heap s other of
        EZombie z \<Rightarrow> (if source b = ''player'' then put this (EBullet (markForDeletion b)) s else s)
      | EPlayer p \<Rightarrow> (if source b = ''enemy'' then put this (EBullet (markForDeletion b)) s else s)
      | _ \<Rightarrow> s)"

definition Pickup_onCollision :: "ref \<Rightarrow> ref \<Rightarrow> Pickup \<Rightarrow> 'a Store_scheme \<Rightarrow> 'a Store_scheme" where
  "Pickup_onCollision this other k s =
     (case heap s other of
        EPlayer p \<Rightarrow>
          (let s1 =
             (if Pickup.type k = ''health'' then put other (EPlayer (heal (Pickup.value k) p)) s
              else if startsWith (Pickup.type k) ''ammo_'' then
                (case split (CHR ''_'') (Pickup.type k) of
                   w0 # weapon # ws \<Rightarrow> put other (EPlayer (addAmmo weapon (Pickup.value k) p)) s
                 | _ \<Rightarrow> s)
              else s)
           in put this (EPickup (markForDeletion k)) s1)
      | _ \<Rightarrow> s)"

definition onCollision :: "ref \<Rightarrow> ref \<Rightarrow> 'a Store_scheme \<Rightarrow> 'a Store_scheme" where
  "onCollision this other s =
     (let s1 = emit (OnCollision this other) s
      in case heap s1 this of
           EPlayer p \<Rightarrow> Player_onCollision this other p s1
         | EZombie z \<Rightarrow> Zombie_onCollision this other z s1
         | EBullet b \<Rightarrow> Bullet_onCollision this other b s1
         | EPickup k \<Rightarrow> Pickup_onCollision this other k s1
         | EObstacle ob \<Rightarrow> put other (Obstacle_onCollision ob (heap s1 other)) s1)"

subsection \<open>\<^verbatim>\<open>update\<close> and \<^verbatim>\<open>render\<close>, dispatched on the class of the receiver\<close>

definition deref_target :: "'a Store_scheme \<Rightarrow> Zombie \<Rightarrow> Player option" where
  "deref_target s z =
     (case target z of
        None \<Rightarrow> None
      | Some t \<Rightarrow> (case heap s t of EPlayer tp \<Rightarrow> Some tp | _ \<Rightarrow> None))"

definition entity_update :: "real \<Rightarrow> ref \<Rightarrow> 'a Store_scheme \<Rightarrow> 'a Store_scheme" where
  "entity_update deltaTime this s =
     (let s1 = emit (Update this deltaTime) s
      in case heap s1 this of
           EPlayer p \<Rightarrow> put this (EPlayer (Player_update deltaTime p)) s1
         | EZombie z \<Rightarrow> put this (EZombie (Zombie_update deltaTime (deref_target s1 z) z)) s1
         | EBullet b \<Rightarrow> put this (EBullet (Bullet_update deltaTime b)) s1
         | EPickup k \<Rightarrow> s1
         | EObstacle ob \<Rightarrow> s1)"

definition entity_render :: "ref \<Rightarrow> 'a Store_scheme \<Rightarrow> 'a Store_scheme" where
  "entity_render this s = emit (Render this) s"

section \<open>GameEngine\<close>

record GameEngine = Store +
  entities :: "ref list"
  lastTimestamp :: real
  gameLoopId :: "nat option"
  isPaused :: bool

definition addEntity :: "ref \<Rightarrow> 'a GameEngine_scheme \<Rightarrow> 'a GameEngine_scheme" where
  "addEntity e s = s\<lparr>entities := entities s @ [e]\<rparr>"

text \<open>\<^verbatim>\<open>indexOf\<close> and \<^verbatim>\<open>splice(index, 1)\<close>: the first occurrence goes, if there is one.\<close>

definition removeEntity :: "ref \<Rightarrow> 'a GameEngine_scheme \<Rightarrow> 'a GameEngine_scheme" where
  "removeEntity e s = s\<lparr>entities := remove1 e (entities s)\<rparr>"

definition pause :: "'a GameEngine_scheme \<Rightarrow> 'a GameEngine_scheme" where
  "pause s = s\<lparr>isPaused := True\<rparr>"

definition resume :: "'a GameEngine_scheme \<Rightarrow> 'a GameEngine_scheme" where
  "resume s =
     (if isPaused s then s\<lparr>isPaused := False, lastTimestamp := performance_now s\<rparr> else s)"

definition stop :: "'a GameEngine_scheme \<Rightarrow> 'a GameEngine_scheme" where
  "stop s = (if gameLoopId s \<noteq> None then s\<lparr>gameLoopId := None\<rparr> else s)"

definition isColliding :: "'a GameEntity_scheme \<Rightarrow> 'b GameEntity_scheme \<Rightarrow> bool" where
  "isColliding entityA entityB =
     (GameEntity.x entityA < GameEntity.x entityB + width entityB \<and>
      GameEntity.x entityA + width entityA > GameEntity.x entityB \<and>
      GameEntity.y entityA < GameEntity.y entityB + height entityB \<and>
      GameEntity.y entityA + height entityA > GameEntity.y entityB)"

text \<open>The body of the inner loop of \<^verbatim>\<open>checkCollisions\<close>, for one pair.\<close>

definition collidePair :: "ref \<Rightarrow> ref \<Rightarrow> 'a Store_scheme \<Rightarrow> 'a Store_scheme" where
  "collidePair a b s =
     (let hit = isColliding (as_GameEntity (heap s a)) (as_GameEntity (heap s b));
          s1 = emit (OverlapTest a b hit) s
      in if hit then onCollision b a (onCollision a b s1) else s1)"

text \<open>
  No handler adds to or removes from the list, so the two loops walk the list as it is
  at the call: the inner loop pairs \<open>entityA\<close> with every later element, the outer loop
  takes each element in turn.
\<close>

fun collideWith :: "ref \<Rightarrow> ref list \<Rightarrow> 'a Store_scheme \<Rightarrow> 'a Store_scheme" where
  "collideWith a [] s = s"
| "collideWith a (b # later) s = collideWith a later (collidePair a b s)"

fun collideFrom :: "ref list \<Rightarrow> 'a Store_scheme \<Rightarrow> 'a Store_scheme" where
  "collideFrom [] s = s"
| "collideFrom (a # later) s = collideFrom later (collideWith a later s)"

definition checkCollisions :: "'a GameEngine_scheme \<Rightarrow> 'a GameEngine_scheme" where
  "checkCollisions s = collideFrom (entities s) s"

fun updateAll :: "real \<Rightarrow> ref list \<Rightarrow> 'a Store_scheme \<Rightarrow> 'a Store_scheme" where
  "updateAll deltaTime [] s = s"
| "updateAll deltaTime (e # es) s = updateAll deltaTime es (entity_update deltaTime e s)"

fun renderAll :: "ref list \<Rightarrow> 'a Store_scheme \<Rightarrow> 'a Store_scheme" where
  "renderAll [] s = s"
| "renderAll (e # es) s = renderAll es (entity_render e s)"

definition prune :: "'a GameEngine_scheme \<Rightarrow> 'a GameEngine_scheme" where
  "prune s = s\<lparr>entities := filter (\<lambda>e. \<not> marked (heap s e)) (entities s)\<rparr>"

definition GameEngine_update :: "real \<Rightarrow> 'a GameEngine_scheme \<Rightarrow> 'a GameEngine_scheme" where
  "GameEngine_update deltaTime s =
     (let s1 = checkCollisions s;
          s2 = updateAll deltaTime (entities s1) s1
      in prune s2)"

definition render :: "'a GameEngine_scheme \<Rightarrow> 'a GameEngine_scheme" where
  "render s = (let s1 = emit ClearCanvas s in renderAll (entities s1) s1)"

text \<open>
  \<^verbatim>\<open>gameLoop\<close> calls \<^verbatim>\<open>this.update\<close>, which the director replaces: the update in
  force is a parameter.
\<close>

definition requestAnimationFrame :: "'a GameEngine_scheme \<Rightarrow> 'a GameEngine_scheme" where
  "requestAnimationFrame s = s\<lparr>gameLoopId := Some (rafCount s), rafCount := Suc (rafCount s)\<rparr>"

definition gameLoop ::
  "(real \<Rightarrow> 'a GameEngine_scheme \<Rightarrow> 'a GameEngine_scheme) \<Rightarrow> real
     \<Rightarrow> 'a GameEngine_scheme \<Rightarrow> 'a GameEngine_scheme" where
  "gameLoop update timestamp s =
     (let s1 = requestAnimationFrame s
      in if isPaused s1 then s1
         else
           (let deltaTime = (timestamp - lastTimestamp s1) / 1000;
                s2 = s1\<lparr>lastTimestamp := timestamp\<rparr>
            in render (update deltaTime s2)))"

definition start ::
  "(real \<Rightarrow> 'a GameEngine_scheme \<Rightarrow> 'a GameEngine_scheme)
     \<Rightarrow> 'a GameEngine_scheme \<Rightarrow> 'a GameEngine_scheme" where
  "start update s =
     (if gameLoopId s = None then
        (let s1 = s\<lparr>lastTimestamp := performance_now s\<rparr>
         in gameLoop update (lastTimestamp s1) s1)
      else s)"

section \<open>ZombieShooterGame\<close>

text \<open>
  The director extends the engine's state with the input handler's tables and its own
  fields. Assets are not modelled: a sound to play is an event of the trace.
\<close>

datatype GameState = Loading | Title | Playing | Paused | GameOver

record Game = GameEngine +
  keys :: "string \<Rightarrow> bool"
  mousePosition :: Vector2D
  mouseButtons :: "nat \<Rightarrow> bool"
  player :: "ref option"
  score :: int
  wave :: int
  zombiesRemaining :: int
  spawnCooldown :: real
  gameState :: GameState
  waveDelay :: real
  waveTimer :: real
  pickupSpawnTimer :: real
  pickupSpawnInterval :: real
  mapWidth :: real
  mapHeight :: real
  obstacles :: "ref list"

subsection \<open>InputHandler\<close>

datatype dom_event =
  KeyDown string | KeyUp string | MouseMove real real | MouseDown nat | MouseUp nat

fun handle_event :: "dom_event \<Rightarrow> Game \<Rightarrow> Game" where
  "handle_event (KeyDown k) s = s\<lparr>keys := (keys s)(k := True)\<rparr>"
| "handle_event (KeyUp k) s = s\<lparr>keys := (keys s)(k := False)\<rparr>"
| "handle_event (MouseMove mx my) s = s\<lparr>mousePosition := new_Vector2D mx my\<rparr>"
| "handle_event (MouseDown b) s = s\<lparr>mouseButtons := (mouseButtons s)(b := True)\<rparr>"
| "handle_event (MouseUp b) s = s\<lparr>mouseButtons := (mouseButtons s)(b := False)\<rparr>"

definition isKeyDown :: "string \<Rightarrow> Game \<Rightarrow> bool" where
  "isKeyDown k s = keys s k"

definition isMouseButtonDown :: "nat \<Rightarrow> Game \<Rightarrow> bool" where
  "isMouseButtonDown b s = mouseButtons s b"

definition getMousePosition :: "Game \<Rightarrow> Vector2D" where
  "getMousePosition s = mousePosition s"

definition resetMouseButton :: "nat \<Rightarrow> Game \<Rightarrow> Game" where
  "resetMouseButton b s = s\<lparr>mouseButtons := (mouseButtons s)(b := False)\<rparr>"

definition playSound :: "string \<Rightarrow> Game \<Rightarrow> Game" where
  "playSound k s = emit (PlaySound k) s"

subsection \<open>Starting a game and a wave\<close>

text \<open>
  One obstacle of \<^verbatim>\<open>createObstacles\<close>: constructed, added to the engine, pushed on the
  director's list.
\<close>

definition addObstacle :: "Obstacle \<Rightarrow> Game \<Rightarrow> Game" where
  "addObstacle ob s =
     (let (r, s1) = new (EObstacle ob) s;
          s2 = addEntity r s1
      in s2\<lparr>obstacles := obstacles s2 @ [r]\<rparr>)"

text \<open>The loop \<^verbatim>\<open>for (let i = 0; i < 5; i++)\<close> of \<^verbatim>\<open>createObstacles\<close>, with its \<^verbatim>\<open>continue\<close>.\<close>

fun randomObstacles :: "nat \<Rightarrow> Game \<Rightarrow> Game" where
  "randomObstacles 0 s = s"
| "randomObstacles (Suc n) s =
     (let wallThickness = 20;
          (r1, s1) = random s;
          w = r1 * 80 + 40;
          (r2, s2) = random s1;
          h = r2 * 80 + 40;
          (r3, s3) = random s2;
          ox = r3 * (mapWidth s3 - w - 2 * wallThickness) + wallThickness;
          (r4, s4) = random s3;
          oy = r4 * (mapHeight s4 - h - 2 * wallThickness) + wallThickness;
          playerBuffer = 100;
          playerCenterX = mapWidth s4 / 2;
          playerCenterY = mapHeight s4 / 2
      in if ox > playerCenterX - playerBuffer \<and> ox < playerCenterX + playerBuffer \<and>
            oy > playerCenterY - playerBuffer \<and> oy < playerCenterY + playerBuffer
         then randomObstacles n s4
         else randomObstacles n (addObstacle (new_Obstacle ox oy w h) s4))"

definition createObstacles :: "Game \<Rightarrow> Game" where
  "createObstacles s =
     (let s0 = s\<lparr>obstacles := []\<rparr>;
          wallThickness = 20;
          s1 = addObstacle (new_Obstacle 0 0 (mapWidth s0) wallThickness) s0;
          s2 = addObstacle (new_Obstacle 0 (mapHeight s1 - wallThickness) (mapWidth s1) wallThickness) s1;
          s3 = addObstacle (new_Obstacle 0 0 wallThickness (mapHeight s2)) s2;
          s4 = addObstacle (new_Obstacle (mapWidth s3 - wallThickness) 0 wallThickness (mapHeight s3)) s3
      in randomObstacles 5 s4)"

definition startWave :: "Game \<Rightarrow> Game" where
  "startWave s =
     (let baseZombies = 5;
          zombiesPerWave = \<lfloor>baseZombies + real_of_int (wave s) * 2\<rfloor>
      in s\<lparr>zombiesRemaining := zombiesPerWave, spawnCooldown := 0\<rparr>)"

definition startGame :: "Game \<Rightarrow> Game" where
  "startGame s =
     (let s1 = s\<lparr>score := 0, wave := 1, waveTimer := 0, pickupSpawnTimer := 0\<rparr>;
          s2 = s1\<lparr>entities := []\<rparr>;
          (r, s3) = new (EPlayer (new_Player (mapWidth s2 / 2 - 20) (mapHeight s2 / 2 - 20))) s2;
          s4 = addEntity r (s3\<lparr>player := Some r\<rparr>);
          s5 = createObstacles s4;
          s6 = startWave s5
      in s6\<lparr>gameState := Playing\<rparr>)"

subsection \<open>Input of the player\<close>

text \<open>\<^verbatim>\<open>this.player\<close> has the static type \<^verbatim>\<open>Player\<close>: the other classes cannot be behind it.\<close>

definition withPlayer :: "ref \<Rightarrow> (Player \<Rightarrow> Player) \<Rightarrow> 'a Store_scheme \<Rightarrow> 'a Store_scheme" where
  "withPlayer r f s = (case heap s r of EPlayer p \<Rightarrow> put r (EPlayer (f p)) s | _ \<Rightarrow> s)"

text \<open>
  \<^verbatim>\<open>for (const bullet of bullets) this.engine.addEntity(bullet)\<close>: nothing else holds
  a bullet that \<^verbatim>\<open>shoot\<close> returns, so it gets its reference here. \<open>fire\<close> is the
  shooting block of \<^verbatim>\<open>handlePlayerInput\<close>.
\<close>

fun addBullets :: "Bullet list \<Rightarrow> Game \<Rightarrow> Game" where
  "addBullets [] s = s"
| "addBullets (b # bs) s = (let (r, s1) = new (EBullet b) s in addBullets bs (addEntity r s1))"

definition fire :: "ref \<Rightarrow> Game \<Rightarrow> Game" where
  "fire r s =
     (case heap s r of
        EPlayer p \<Rightarrow>
          (if isMouseButtonDown 0 s \<and> canShoot p then
             (let (bullets, p', g) = shoot (rng s) p;
                  s1 = put r (EPlayer p') (s\<lparr>rng := g\<rparr>);
                  s2 = addBullets bullets s1;
                  weapon = weaponType p';
                  s3 = (if weapon = ''pistol'' then playSound ''shoot_pistol'' s2
                        else if weapon = ''shotgun'' then playSound ''shoot_shotgun'' s2
                        else if weapon = ''rifle'' then playSound ''shoot_rifle'' s2
                        else s2)
              in resetMouseButton 0 s3)
           else s)
      | _ \<Rightarrow> s)"

definition handlePlayerInput :: "real \<Rightarrow> Game \<Rightarrow> Game" where
  "handlePlayerInput deltaTime s =
     (case player s of
        None \<Rightarrow> s
      | Some r \<Rightarrow>
          (let m0 = new_Vector2D 0 0;
               m1 = (if isKeyDown ''w'' s \<or> isKeyDown ''ArrowUp'' s then m0\<lparr>Vector2D.y := -1\<rparr> else m0);
               m2 = (if isKeyDown ''s'' s \<or> isKeyDown ''ArrowDown'' s then m1\<lparr>Vector2D.y := 1\<rparr> else m1);
               m3 = (if isKeyDown ''a'' s \<or> isKeyDown ''ArrowLeft'' s then m2\<lparr>Vector2D.x := -1\<rparr> else m2);
               moveDirection =
                 (if isKeyDown ''d'' s \<or> isKeyDown ''ArrowRight'' s then m3\<lparr>Vector2D.x := 1\<rparr> else m3);
               s1 = (if Vector2D.x moveDirection \<noteq> 0 \<or> Vector2D.y moveDirection \<noteq> 0
                     then withPlayer r (move moveDirection deltaTime) s else s);
               mousePos = getMousePosition s1;
               pe = as_GameEntity (heap s1 r);
               playerCenterX = GameEntity.x pe + width pe / 2;
               playerCenterY = GameEntity.y pe + height pe / 2;
               aimDirection = new_Vector2D (Vector2D.x mousePos - playerCenterX)
                                           (Vector2D.y mousePos - playerCenterY);
               s2 = withPlayer r (setDirection aimDirection) s1;
               s3 = fire r s2
           in if isKeyDown ''1'' s3 then withPlayer r (switchWeapon ''pistol'') s3
              else if isKeyDown ''2'' s3 then withPlayer r (switchWeapon ''shotgun'') s3
              else if isKeyDown ''3'' s3 then withPlayer r (switchWeapon ''rifle'') s3
              else s3))"

subsection \<open>Spawning\<close>

text \<open>The choice of the zombie's type in \<^verbatim>\<open>spawnZombie\<close>, from the wave and the draw.\<close>

definition zombieTypeFor :: "int \<Rightarrow> real \<Rightarrow> string" where
  "zombieTypeFor w rand =
     (if w \<ge> 3 \<and> rand < 0.2 then ''fast''
      else if w \<ge> 5 \<and> rand < 0.1 then ''tank''
      else ''normal'')"

text \<open>The switch on \<^verbatim>\<open>spawnSide\<close>: the position, and the state after its one draw.\<close>

definition spawnPosition :: "int \<Rightarrow> Game \<Rightarrow> (real \<times> real) \<times> Game" where
  "spawnPosition spawnSide s =
     (let buffer = 50
      in if spawnSide = 0 then (let (r, s1) = random s in ((r * mapWidth s1, - buffer), s1))
         else if spawnSide = 1 then (let (r, s1) = random s in ((mapWidth s1 + buffer, r * mapHeight s1), s1))
         else if spawnSide = 2 then (let (r, s1) = random s in ((r * mapWidth s1, mapHeight s1 + buffer), s1))
         else if spawnSide = 3 then (let (r, s1) = random s in ((- buffer, r * mapHeight s1), s1))
         else ((0, 0), s))"

definition spawnZombie :: "Game \<Rightarrow> Game" where
  "spawnZombie s =
     (case player s of
        None \<Rightarrow> s
      | Some pl \<Rightarrow>
          (let (rand, s1) = random s;
               zombieType = zombieTypeFor (wave s1) rand;
               (r2, s2) = random s1;
               spawnSide = \<lfloor>r2 * 4\<rfloor>;
               ((zx, zy), s3) = spawnPosition spawnSide s2;
               zombie = setTarget pl (new_Zombie zx zy zombieType);
               (zr, s4) = new (EZombie zombie) s3
           in emit (Spawn zr zombieType) (addEntity zr s4)))"

definition updateZombieSpawning :: "real \<Rightarrow> Game \<Rightarrow> Game" where
  "updateZombieSpawning deltaTime s =
     (if spawnCooldown s > 0 then s\<lparr>spawnCooldown := spawnCooldown s - deltaTime\<rparr>
      else if zombiesRemaining s > 0 then
        (let s1 = spawnZombie s;
             s2 = s1\<lparr>zombiesRemaining := zombiesRemaining s1 - 1\<rparr>
         in s2\<lparr>spawnCooldown := 1.5 - min 1.3 (real_of_int (wave s2) * 0.1)\<rparr>)
      else s)"

text \<open>
  The loop over the obstacles in \<^verbatim>\<open>spawnPickup\<close>, which stops at the first one that a
  pickup of 20 by 20 at the position would overlap.
\<close>

definition overlapsObstacle :: "real \<Rightarrow> real \<Rightarrow> Game \<Rightarrow> bool" where
  "overlapsObstacle px py s =
     list_ex (\<lambda>r. let obstacle = as_GameEntity (heap s r)
                  in px < GameEntity.x obstacle + width obstacle \<and>
                     px + 20 > GameEntity.x obstacle \<and>
                     py < GameEntity.y obstacle + height obstacle \<and>
                     py + 20 > GameEntity.y obstacle)
             (obstacles s)"

text \<open>
  The placement loop of \<^verbatim>\<open>spawnPickup\<close>, counted down by the attempts left: a position
  that overlaps an obstacle is drawn again and costs an attempt; the result says
  whether the last position tested was free.
\<close>

fun placePickup :: "nat \<Rightarrow> real \<Rightarrow> real \<Rightarrow> Game \<Rightarrow> (bool \<times> real \<times> real) \<times> Game" where
  "placePickup 0 px py s = ((False, px, py), s)"
| "placePickup (Suc n) px py s =
     (if overlapsObstacle px py s then
        (let wallBuffer = 40;
             (r1, s1) = random s;
             px' = r1 * (mapWidth s1 - 2 * wallBuffer) + wallBuffer;
             (r2, s2) = random s1;
             py' = r2 * (mapHeight s2 - 2 * wallBuffer) + wallBuffer
         in placePickup n px' py' s2)
      else ((True, px, py), s))"

text \<open>
  \<^verbatim>\<open>pickupTypes[Math.floor(Math.random() * 4)]\<close>: a draw of \<^verbatim>\<open>Math.random\<close> lies in
  \<open>[0, 1)\<close>, so the index is one of the four; for any other index the model has a type
  that no case of the switch matches.
\<close>

definition pickupTypeAt :: "int \<Rightarrow> string" where
  "pickupTypeAt i =
     (let pickupTypes = [''health'', ''ammo_pistol'', ''ammo_shotgun'', ''ammo_rifle'']
      in if 0 \<le> i \<and> i < 4 then pickupTypes ! nat i else ''undefined'')"

definition spawnPickup :: "Game \<Rightarrow> Game" where
  "spawnPickup s =
     (let (r0, s0) = random s;
          ty = pickupTypeAt \<lfloor>r0 * 4\<rfloor>;
          v = (if ty = ''health'' then 25 else if ty = ''ammo_pistol'' then 15
               else if ty = ''ammo_shotgun'' then 5 else if ty = ''ammo_rifle'' then 10 else 0);
          wallBuffer = 40;
          (r1, s1) = random s0;
          px = r1 * (mapWidth s1 - 2 * wallBuffer) + wallBuffer;
          (r2, s2) = random s1;
          py = r2 * (mapHeight s2 - 2 * wallBuffer) + wallBuffer;
          maxAttempts = 10;
          ((validPosition, px', py'), s3) = placePickup maxAttempts px py s2
      in if \<not> validPosition then s3
         else (let (kr, s4) = new (EPickup (new_Pickup px' py' ty v)) s3 in addEntity kr s4))"

definition updatePickupSpawning :: "real \<Rightarrow> Game \<Rightarrow> Game" where
  "updatePickupSpawning deltaTime s =
     (let s1 = s\<lparr>pickupSpawnTimer := pickupSpawnTimer s + deltaTime\<rparr>
      in if pickupSpawnTimer s1 \<ge> pickupSpawnInterval s1
         then (spawnPickup s1)\<lparr>pickupSpawnTimer := 0\<rparr>
         else s1)"

subsection \<open>The director's frame\<close>

definition renderUI :: "Game \<Rightarrow> Game" where
  "renderUI s = emit (Screen ''ui'') s"

definition renderLoadingScreen :: "Game \<Rightarrow> Game" where
  "renderLoadingScreen s = emit (Screen ''loading'') s"

definition renderTitleScreen :: "Game \<Rightarrow> Game" where
  "renderTitleScreen s = emit (Screen ''title'') s"

definition renderPauseScreen :: "Game \<Rightarrow> Game" where
  "renderPauseScreen s = emit (Screen ''paused'') s"

definition renderGameOverScreen :: "Game \<Rightarrow> Game" where
  "renderGameOverScreen s = emit (Screen ''gameOver'') s"

text \<open>The branch of \<^verbatim>\<open>update\<close> when no enemy remains: the timer, then the next wave.\<close>

definition advanceWave :: "real \<Rightarrow> Game \<Rightarrow> Game" where
  "advanceWave deltaTime s =
     (let s1 = s\<lparr>waveTimer := waveTimer s + deltaTime\<rparr>
      in if waveTimer s1 \<ge> waveDelay s1
         then (startWave (s1\<lparr>wave := wave s1 + 1\<rparr>))\<lparr>waveTimer := 0\<rparr>
         else s1)"

definition ZombieShooterGame_update :: "real \<Rightarrow> Game \<Rightarrow> Game" where
  "ZombieShooterGame_update deltaTime s =
     (case player s of
        None \<Rightarrow> s
      | Some pl \<Rightarrow>
          (let s1 = handlePlayerInput deltaTime s;
               s2 = (if zombiesRemaining s1 \<le> 0 then advanceWave deltaTime s1
                     else updateZombieSpawning deltaTime s1);
               s3 = updatePickupSpawning deltaTime s2;
               s4 = (if marked (heap s3 pl) then s3\<lparr>gameState := GameOver\<rparr> else s3);
               s5 = (if isKeyDown ''Escape'' s4 then pause (s4\<lparr>gameState := Paused\<rparr>) else s4)
           in renderUI s5))"

definition handleTitleScreenInput :: "Game \<Rightarrow> Game" where
  "handleTitleScreenInput s =
     (if isMouseButtonDown 0 s then resetMouseButton 0 (startGame s) else s)"

definition handlePauseScreenInput :: "Game \<Rightarrow> Game" where
  "handlePauseScreenInput s =
     (if isKeyDown ''Escape'' s then resume (s\<lparr>gameState := Playing\<rparr>)
      else if isMouseButtonDown 0 s then resetMouseButton 0 (resume (startGame s))
      else s)"

definition handleGameOverScreenInput :: "Game \<Rightarrow> Game" where
  "handleGameOverScreenInput s =
     (if isMouseButtonDown 0 s then resetMouseButton 0 (startGame s) else s)"

text \<open>The closure \<^verbatim>\<open>gameLoop\<close> of \<^verbatim>\<open>setupEventListeners\<close>.\<close>

definition ZombieShooterGame_gameLoop :: "real \<Rightarrow> Game \<Rightarrow> Game" where
  "ZombieShooterGame_gameLoop deltaTime s =
     (case gameState s of
        Loading \<Rightarrow> renderLoadingScreen s
      | Title \<Rightarrow> handleTitleScreenInput (renderTitleScreen s)
      | Playing \<Rightarrow> ZombieShooterGame_update deltaTime s
      | Paused \<Rightarrow> handlePauseScreenInput (renderPauseScreen s)
      | GameOver \<Rightarrow> handleGameOverScreenInput (renderGameOverScreen s))"

text \<open>
  The function that \<^verbatim>\<open>setupEventListeners\<close> stores in the engine's \<^verbatim>\<open>update\<close>: the
  engine's own update, then the director's closure.
\<close>

definition overriddenUpdate :: "real \<Rightarrow> Game \<Rightarrow> Game" where
  "overriddenUpdate deltaTime s = ZombieShooterGame_gameLoop deltaTime (GameEngine_update deltaTime s)"

text \<open>
  One display refresh: the browser calls the engine's \<^verbatim>\<open>gameLoop\<close> with the
  timestamp. Between two refreshes it delivers the input events that occurred.
\<close>

definition frame :: "real \<Rightarrow> Game \<Rightarrow> Game" where
  "frame timestamp s = gameLoop overriddenUpdate timestamp (s\<lparr>clock := timestamp\<rparr>)"

fun deliver :: "dom_event list \<Rightarrow> Game \<Rightarrow> Game" where
  "deliver [] s = s"
| "deliver (e # es) s = deliver es (handle_event e s)"

fun run :: "(dom_event list \<times> real) list \<Rightarrow> Game \<Rightarrow> Game" where
  "run [] s = s"
| "run ((evs, timestamp) # rest) s = run rest (frame timestamp (deliver evs s))"

text \<open>
  The constructor's field initialisers, and \<^verbatim>\<open>init\<close> when the assets load: the
  title screen is set, the engine is started (its first frame still runs the engine's
  own update) and the override is installed for the frames that follow.
\<close>

definition new_ZombieShooterGame :: "real \<Rightarrow> real \<Rightarrow> rng \<Rightarrow> Game" where
  "new_ZombieShooterGame w h g =
     \<lparr>heap = (\<lambda>r. EObstacle (new_Obstacle 0 0 0 0)), nextRef = 0, rng = g, clock = 0,
      rafCount = 0, trace = [],
      entities = [], lastTimestamp = 0, gameLoopId = None, isPaused = False,
      keys = (\<lambda>k. False), mousePosition = new_Vector2D 0 0, mouseButtons = (\<lambda>b. False),
      player = None, score = 0, wave = 1, zombiesRemaining = 0, spawnCooldown = 0,
      gameState = Loading, waveDelay = 5, waveTimer = 0, pickupSpawnTimer = 0,
      pickupSpawnInterval = 15, mapWidth = w, mapHeight = h, obstacles = []\<rparr>"

definition init :: "Game \<Rightarrow> Game" where
  "init s = start GameEngine_update (s\<lparr>gameState := Title\<rparr>)"

section \<open>Vocabulary of the statements\<close>

text \<open>
  The events that follow the trace of an earlier state; the events of one pair of
  entities in the collision pass; the events in which an entity takes part; an entity
  that is allocated and not in the engine's list; a later state reached without it.
\<close>

definition eventsSince :: "'a Store_scheme \<Rightarrow> 'b Store_scheme \<Rightarrow> event list" where
  "eventsSince s s' = drop (length (trace s)) (trace s')"


definition pairEvents :: "ref \<Rightarrow> ref \<Rightarrow> bool \<Rightarrow> event list" where
  "pairEvents a b hit =
     OverlapTest a b hit # (if hit then [OnCollision a b, OnCollision b a] else [])"

fun mentions :: "ref \<Rightarrow> event \<Rightarrow> bool" where
  "mentions r (OverlapTest a b hit) = (a = r \<or> b = r)"
| "mentions r (OnCollision a b) = (a = r \<or> b = r)"
| "mentions r (Update a d) = (a = r)"
| "mentions r (Render a) = (a = r)"
| "mentions r e = False"

definition absent :: "ref \<Rightarrow> 'a GameEngine_scheme \<Rightarrow> bool" where
  "absent r s = (r < nextRef s \<and> r \<notin> set (entities s))"

definition quiet :: "ref \<Rightarrow> 'a GameEngine_scheme \<Rightarrow> 'a GameEngine_scheme \<Rightarrow> bool" where
  "quiet r s s' =
     (absent r s' \<and> (\<exists>evs. trace s' = trace s @ evs \<and> filter (mentions r) evs = []))"

subsection \<open>What a step leaves alone\<close>

text \<open>
  \<open>zombiesSince s s'\<close>: the \<^verbatim>\<open>Zombie\<close> objects of the store of \<open>s'\<close> that were
  constructed after \<open>s\<close>. \<open>keeps s s'\<close>, which every step of a frame without a restart
  satisfies: no object was freed, a zombie is still a zombie and nothing else has become
  one, a mark for deletion is still set, an obstacle is as it was, and an entity of the
  list is still in the list unless it is marked.
\<close>

definition isZombie :: "entity \<Rightarrow> bool" where
  "isZombie e = (case e of EZombie z \<Rightarrow> True | _ \<Rightarrow> False)"

definition zombiesSince :: "'a Store_scheme \<Rightarrow> 'b Store_scheme \<Rightarrow> ref list" where
  "zombiesSince s s' = filter (\<lambda>r. isZombie (heap s' r)) [nextRef s..<nextRef s']"

definition keeps :: "'a GameEngine_scheme \<Rightarrow> 'a GameEngine_scheme \<Rightarrow> bool" where
  "keeps s s' =
     (nextRef s \<le> nextRef s' \<and>
      (\<forall>r<nextRef s. isZombie (heap s' r) = isZombie (heap s r)) \<and>
      (\<forall>r<nextRef s. marked (heap s r) \<longrightarrow> marked (heap s' r)) \<and>
      (\<forall>r<nextRef s. \<forall>ob. heap s r = EObstacle ob \<longrightarrow> heap s' r = EObstacle ob) \<and>
      (\<forall>r<nextRef s. r \<in> set (entities s) \<longrightarrow> r \<in> set (entities s') \<or> marked (heap s' r)))"

text \<open>
  \<open>produces s s'\<close>: \<open>s'\<close> differs from \<open>s\<close> at most in the store, the engine's list,
  the mouse buttons, the pickup timer and the list of obstacles, so that the keys, the
  player, the game state, the pause flag and the fields of the wave are those of \<open>s\<close>.
  \<open>appends Q s s'\<close>: the trace of \<open>s'\<close> is that of \<open>s\<close> followed by events that
  satisfy \<open>Q\<close>; the routine events are all but a spawn and the screens other than the
  playing interface. \<open>keepsPlayer pl s s'\<close>: besides \<open>keeps\<close>, nothing was taken off
  the engine's list, the object \<open>pl\<close> of \<open>s\<close> has kept its mark, and the primary button
  is down in \<open>s'\<close> only if it was in \<open>s\<close>. A step \<open>dstep\<close> of the director has all
  of these and constructs no zombie.
\<close>

definition produces :: "Game \<Rightarrow> Game \<Rightarrow> bool" where
  "produces s s' =
     (s' = s\<lparr>heap := heap s', nextRef := nextRef s', rng := rng s', trace := trace s',
            entities := entities s', mouseButtons := mouseButtons s',
            pickupSpawnTimer := pickupSpawnTimer s', obstacles := obstacles s'\<rparr>)"

fun routine :: "event \<Rightarrow> bool" where
  "routine (Spawn r ty) = False"
| "routine (Screen n) = (n = ''ui'')"
| "routine e = True"

definition appends :: "(event \<Rightarrow> bool) \<Rightarrow> 'a Store_scheme \<Rightarrow> 'a Store_scheme \<Rightarrow> bool" where
  "appends Q s s' = (\<exists>evs. trace s' = trace s @ evs \<and> list_all Q evs)"

definition keepsPlayer :: "ref \<Rightarrow> Game \<Rightarrow> Game \<Rightarrow> bool" where
  "keepsPlayer pl s s' =
     (keeps s s' \<and> set (entities s) \<subseteq> set (entities s') \<and>
      (pl < nextRef s \<longrightarrow> marked (heap s' pl) = marked (heap s pl)) \<and>
      (mouseButtons s' 0 \<longrightarrow> mouseButtons s 0))"

definition dstep :: "ref \<Rightarrow> Game \<Rightarrow> Game \<Rightarrow> bool" where
  "dstep pl s s' =
     (produces s s' \<and> keepsPlayer pl s s' \<and> appends routine s s' \<and> zombiesSince s s' = [])"

subsection \<open>The parts of the director's update\<close>

text \<open>
  The wave branch of \<^verbatim>\<open>update\<close> (the timer between waves when no enemy remains,
  the spawning otherwise), the state in which \<^verbatim>\<open>update\<close> comes to its two final
  tests, and these tests: game over when the player is marked, then pause on Escape.
\<close>

definition waveStep :: "real \<Rightarrow> Game \<Rightarrow> Game" where
  "waveStep d s = (if zombiesRemaining s \<le> 0 then advanceWave d s else updateZombieSpawning d s)"

definition beforeDecide :: "real \<Rightarrow> Game \<Rightarrow> Game" where
  "beforeDecide d s = updatePickupSpawning d (waveStep d (handlePlayerInput d s))"

definition decide :: "ref \<Rightarrow> Game \<Rightarrow> Game" where
  "decide pl s =
     (let s4 = (if marked (heap s pl) then s\<lparr>gameState := GameOver\<rparr> else s)
      in if isKeyDown ''Escape'' s4 then pause (s4\<lparr>gameState := Paused\<rparr>) else s4)"

text \<open>The director is in the paused state exactly when the engine is paused.\<close>

definition pausedInv :: "Game \<Rightarrow> bool" where
  "pausedInv s = ((gameState s = Paused) = isPaused s)"

subsection \<open>Calls on the player's health\<close>

datatype health_call = TakeDamage real | Heal real

fun amount :: "health_call \<Rightarrow> real" where
  "amount (TakeDamage a) = a"
| "amount (Heal a) = a"

fun call :: "health_call \<Rightarrow> Player \<Rightarrow> Player" where
  "call (TakeDamage a) p = Player_takeDamage a p"
| "call (Heal a) p = heal a p"

fun calls :: "health_call list \<Rightarrow> Player \<Rightarrow> Player" where
  "calls [] p = p"
| "calls (c # cs) p = calls cs (call c p)"

definition healthy :: "Player \<Rightarrow> bool" where
  "healthy p =
     (maxHealth p = 100 \<and> 0 \<le> Player.health p \<and> Player.health p \<le> 100 \<and>
      (Player.health p = 0 \<longrightarrow> markedForDeletion p))"

text \<open>Frames in which the primary button is never pressed.\<close>

definition noClick :: "(dom_event list \<times> real) list \<Rightarrow> bool" where
  "noClick fs = (\<forall>f \<in> set fs. MouseDown 0 \<notin> set (fst f))"

subsection \<open>The zombies of a wave\<close>

text \<open>
  \<open>ledger s s'\<close>, the account of a wave between two states: besides \<open>keeps\<close>, the
  zombies constructed since \<open>s\<close> and the remaining count of \<open>s'\<close> add up to the
  remaining count of \<open>s\<close>, each of these zombies is in the engine's list unless it is
  marked for deletion, and the wave and the timer between waves are those of \<open>s\<close>.
\<close>

definition ledger :: "Game \<Rightarrow> Game \<Rightarrow> bool" where
  "ledger s s' =
     (keeps s s' \<and>
      int (length (zombiesSince s s')) + zombiesRemaining s' = zombiesRemaining s \<and>
      (\<forall>r \<in> set (zombiesSince s s'). r \<in> set (entities s') \<or> marked (heap s' r)) \<and>
      wave s' = wave s \<and> waveTimer s' = waveTimer s)"

subsection \<open>Directions and speeds\<close>

text \<open>
  The unit vector along the aim of a player (the zero vector when the aim is zero), a
  pair of components turned by an angle, the components of a vector, and the speed of a
  projectile: the length of its velocity.
\<close>

definition aim :: "Player \<Rightarrow> real \<times> real" where
  "aim p =
     (let dx = Vector2D.x (direction p); dy = Vector2D.y (direction p);
          m = sqrt (dx * dx + dy * dy)
      in if m = 0 then (0, 0) else (dx / m, dy / m))"

definition turned :: "real \<Rightarrow> real \<times> real \<Rightarrow> real \<times> real" where
  "turned a u = (fst u * cos a - snd u * sin a, fst u * sin a + snd u * cos a)"

definition components :: "Vector2D \<Rightarrow> real \<times> real" where
  "components v = (Vector2D.x v, Vector2D.y v)"

definition speedOf :: "Bullet \<Rightarrow> real" where
  "speedOf b = sqrt (Vector2D.x (velocity b) * Vector2D.x (velocity b) +
                     Vector2D.y (velocity b) * Vector2D.y (velocity b))"

subsection \<open>Restarting\<close>

text \<open>
  \<open>restarts s\<close>: the director's closure, run in \<open>s\<close>, calls \<^verbatim>\<open>startGame\<close> (a click
  on the title, pause or game-over screen). \<open>allFrom n s\<close>: every entity of the list
  was constructed at the reference \<open>n\<close> or later.
\<close>

definition restarts :: "Game \<Rightarrow> bool" where
  "restarts s =
     (case gameState s of
        Title \<Rightarrow> isMouseButtonDown 0 s
      | Paused \<Rightarrow> \<not> isKeyDown ''Escape'' s \<and> isMouseButtonDown 0 s
      | GameOver \<Rightarrow> isMouseButtonDown 0 s
      | _ \<Rightarrow> False)"

definition allFrom :: "ref \<Rightarrow> Game \<Rightarrow> bool" where
  "allFrom n s = (n \<le> nextRef s \<and> (\<forall>e \<in> set (entities s). n \<le> e))"

subsection \<open>Games in progress\<close>

text \<open>A game in progress: the first game started on a canvas of 800 by 600.\<close>

definition demoGame :: Game where
  "demoGame = startGame (init (new_ZombieShooterGame 800 600 (sconst (1/2))))"

text \<open>The same game with a health pickup lying on the player.\<close>

definition demoPickup :: Game where
  "demoPickup =
     (let (r, s) = new (EPickup (new_Pickup 390 290 ''health'' 25)) demoGame in addEntity r s)"

text \<open>The same game with the player down to 5 health and a zombie upon it.\<close>

definition demoDeath :: Game where
  "demoDeath =
     (let s0 = put 0 (EPlayer ((new_Player 380 280)\<lparr>Player.health := 5\<rparr>)) demoGame;
          (r, s1) = new (EZombie (setTarget 0 (new_Zombie 390 290 ''normal''))) s0
      in addEntity r s1)"

section \<open>Shooting\<close>

lemma shotgun_pellets_length: "length (fst (shotgun_pellets n p g)) = n"
  by (induction n arbitrary: g) (simp_all add: Math_random_def Let_def case_prod_beta)

lemma magnitude_rotate: "magnitude (rotate a v) = magnitude v"
proof -
  have one: "sin a * sin a + cos a * cos a = 1"
    using sin_cos_squared_add[of a] by (simp add: power2_eq_square)
  have "(Vector2D.x v * cos a - Vector2D.y v * sin a) * (Vector2D.x v * cos a - Vector2D.y v * sin a)
      + (Vector2D.x v * sin a + Vector2D.y v * cos a) * (Vector2D.x v * sin a + Vector2D.y v * cos a)
      = (Vector2D.x v * Vector2D.x v + Vector2D.y v * Vector2D.y v) * (sin a * sin a + cos a * cos a)"
    by (simp only: algebra_simps)
  then show ?thesis
    by (simp add: magnitude_def rotate_def new_Vector2D_def one)
qed

lemma normalize_eq:
  "normalize v = (if magnitude v = 0 then new_Vector2D 0 0
                  else new_Vector2D (Vector2D.x v / magnitude v) (Vector2D.y v / magnitude v))"
  by (simp add: normalize_def Let_def)

lemma rotate_components:
  "Vector2D.x (rotate a v) = Vector2D.x v * cos a - Vector2D.y v * sin a"
  "Vector2D.y (rotate a v) = Vector2D.x v * sin a + Vector2D.y v * cos a"
  by (simp_all add: rotate_def new_Vector2D_def)

lemma normalize_rotate: "normalize (rotate a v) = rotate a (normalize v)"
proof (cases "magnitude v = 0")
  case True
  then show ?thesis
    by (simp add: normalize_eq magnitude_rotate) (simp add: rotate_def new_Vector2D_def)
next
  case False
  then show ?thesis
    by (simp add: normalize_eq magnitude_rotate rotate_components)
       (simp add: rotate_def new_Vector2D_def diff_divide_distrib add_divide_distrib)
qed

lemma multiply_rotate: "multiply (rotate a v) k = rotate a (multiply v k)"
  by (simp add: rotate_def multiply_def new_Vector2D_def algebra_simps)


lemma shotgun_pellets_rng: "snd (shotgun_pellets n p g) = sdrop n g"
  by (induction n arbitrary: g) (simp_all add: Math_random_def Let_def case_prod_beta)

lemma shotgun_pellets_nth:
  "i < n \<Longrightarrow> fst (shotgun_pellets n p g) ! i =
     new_Bullet (GameEntity.x p + width p / 2) (GameEntity.y p + height p / 2)
       (rotate ((g !! i - 0.5) * 0.5) (direction p)) 500 (shotgun (weaponDamage p)) ''player''"
proof (induction n arbitrary: g i)
  case 0
  then show ?case by simp
next
  case (Suc n)
  show ?case
  proof (cases i)
    case 0
    then show ?thesis by (simp add: Math_random_def Let_def case_prod_beta rotate_def)
  next
    case (Suc k)
    with Suc.prems have "k < n" by simp
    from Suc.IH[OF this, of "stl g"] Suc show ?thesis
      by (simp add: Math_random_def Let_def case_prod_beta)
  qed
qed

lemma velocity_new_Bullet: "velocity (new_Bullet bx by d spd dmg src) = multiply (normalize d) spd"
  by (simp add: new_Bullet_def)

lemma spread_bounds: "0 \<le> r \<Longrightarrow> r < 1 \<Longrightarrow> - 0.25 \<le> (r - 0.5) * 0.5 \<and> (r - 0.5) * 0.5 \<le> (0.25::real)"
  by simp

lemma spent_fields:
  "weaponType (spent p) = weaponType p" "direction (spent p) = direction p"
  "shootCooldown (spent p) = shootCooldownMax p"
  by (simp_all add: spent_def Let_def split: option.splits ammo_count.splits)

lemma shoot_eq:
  "canShoot p \<Longrightarrow> shoot g p =
     (if weaponType p = ''pistol'' then
        ([new_Bullet (GameEntity.x (spent p) + width (spent p) / 2) (GameEntity.y (spent p) + height (spent p) / 2)
            (direction p) 500 (pistol (weaponDamage (spent p))) ''player''], spent p, g)
      else if weaponType p = ''shotgun'' then
        (fst (shotgun_pellets 5 (spent p) g), spent p, sdrop 5 g)
      else if weaponType p = ''rifle'' then
        ([new_Bullet (GameEntity.x (spent p) + width (spent p) / 2) (GameEntity.y (spent p) + height (spent p) / 2)
            (direction p) (500 * 1.5) (rifle (weaponDamage (spent p))) ''player''], spent p, g)
      else ([], spent p, g))"
  unfolding shoot_def Let_def spent_def[unfolded Let_def, symmetric]
  by (simp add: spent_fields case_prod_beta shotgun_pellets_rng)


lemma components_normalize: "components (normalize (direction p)) = aim p"
  by (simp add: components_def aim_def normalize_eq magnitude_def Let_def new_Vector2D_def)

lemma components_multiply: "components (multiply v k) = (fst (components v) * k, snd (components v) * k)"
  by (simp add: components_def multiply_def new_Vector2D_def)

lemma components_rotate: "components (rotate a v) = turned a (components v)"
  by (simp add: components_def rotate_def turned_def new_Vector2D_def)

lemma aim_unit:
  "Vector2D.x (direction p) \<noteq> 0 \<or> Vector2D.y (direction p) \<noteq> 0 \<Longrightarrow>
   fst (aim p) * fst (aim p) + snd (aim p) * snd (aim p) = 1"
proof -
  let ?dx = "Vector2D.x (direction p)" and ?dy = "Vector2D.y (direction p)"
  let ?q = "?dx * ?dx + ?dy * ?dy"
  assume "?dx \<noteq> 0 \<or> ?dy \<noteq> 0"
  then have pos: "0 < ?q"
    by (metis add_pos_nonneg add_nonneg_pos zero_le_square not_real_square_gt_zero)
  have m: "sqrt ?q \<noteq> 0" "sqrt ?q * sqrt ?q = ?q"
    using real_sqrt_gt_zero[OF pos] pos by (metis less_irrefl, simp)
  have "(?dx / sqrt ?q) * (?dx / sqrt ?q) + (?dy / sqrt ?q) * (?dy / sqrt ?q)
          = ?q / (sqrt ?q * sqrt ?q)"
    by (simp only: times_divide_times_eq add_divide_distrib)
  also have "\<dots> = ?q / ?q" by (simp only: m(2))
  also have "\<dots> = 1" using pos by (metis divide_self less_irrefl)
  finally have u: "(?dx / sqrt ?q) * (?dx / sqrt ?q) + (?dy / sqrt ?q) * (?dy / sqrt ?q) = 1" .
  have "aim p = (?dx / sqrt ?q, ?dy / sqrt ?q)"
    using m(1) by (simp only: aim_def Let_def if_False)
  then show ?thesis using u by (simp only: fst_conv snd_conv)
qed

lemma turned_unit:
  "fst (turned a u) * fst (turned a u) + snd (turned a u) * snd (turned a u)
     = fst u * fst u + snd u * snd u"
proof -
  have one: "sin a * sin a + cos a * cos a = 1"
    using sin_cos_squared_add[of a] by (simp add: power2_eq_square)
  have "(fst u * cos a - snd u * sin a) * (fst u * cos a - snd u * sin a)
      + (fst u * sin a + snd u * cos a) * (fst u * sin a + snd u * cos a)
      = (fst u * fst u + snd u * snd u) * (sin a * sin a + cos a * cos a)"
    by (simp only: algebra_simps)
  then show ?thesis by (simp add: turned_def one)
qed

lemma speed_scaled:
  assumes "components (velocity b) = (fst u * k, snd u * k)" and "fst u * fst u + snd u * snd u = 1"
      and "0 \<le> k"
  shows "speedOf b = k"
proof -
  from assms(1) have v: "Vector2D.x (velocity b) = fst u * k" "Vector2D.y (velocity b) = snd u * k"
    by (simp_all add: components_def)
  have "fst u * k * (fst u * k) + snd u * k * (snd u * k) = (fst u * fst u + snd u * snd u) * (k * k)"
    by (simp only: algebra_simps)
  then have "speedOf b = sqrt (k * k)" by (simp add: speedOf_def v assms(2))
  with assms(3) show ?thesis by simp
qed

text \<open>
  C8. A successful \<^verbatim>\<open>shoot\<close> with the shotgun returns five projectiles and takes five
  draws; the velocity of projectile \<open>i\<close> is 500 times the unit vector of the aim turned
  by the angle \<open>(r\<^sub>i - 0.5) * 0.5\<close> of its own draw \<open>r\<^sub>i\<close>, an angle in
  \<open>[-0.25, 0.25]\<close>. With the pistol or the rifle it returns one projectile along the
  aim, at 500 times the unit vector for the pistol and at 750 times for the rifle.
  Unless the aim is the zero vector, the speed of a pellet and of the pistol's
  projectile is 500 and that of the rifle's projectile is 1.5 times 500.
\<close>

theorem shoot_projectiles:
  assumes "canShoot p" and "uniform01 g"
  shows "case shoot g p of (bullets, p', g') \<Rightarrow>
           (weaponType p = ''shotgun'' \<longrightarrow>
              length bullets = 5 \<and> g' = sdrop 5 g \<and>
              (\<forall>i<5. - 0.25 \<le> (g !! i - 0.5) * 0.5 \<and> (g !! i - 0.5) * 0.5 \<le> 0.25 \<and>
                 components (velocity (bullets ! i)) =
                   (fst (turned ((g !! i - 0.5) * 0.5) (aim p)) * 500,
                    snd (turned ((g !! i - 0.5) * 0.5) (aim p)) * 500) \<and>
                 (Vector2D.x (direction p) \<noteq> 0 \<or> Vector2D.y (direction p) \<noteq> 0 \<longrightarrow>
                    speedOf (bullets ! i) = 500))) \<and>
           (weaponType p = ''pistol'' \<longrightarrow>
              length bullets = 1 \<and>
              components (velocity (bullets ! 0)) = (fst (aim p) * 500, snd (aim p) * 500) \<and>
              (Vector2D.x (direction p) \<noteq> 0 \<or> Vector2D.y (direction p) \<noteq> 0 \<longrightarrow>
                 speedOf (bullets ! 0) = 500)) \<and>
           (weaponType p = ''rifle'' \<longrightarrow>
              length bullets = 1 \<and>
              components (velocity (bullets ! 0)) = (fst (aim p) * 750, snd (aim p) * 750) \<and>
              (Vector2D.x (direction p) \<noteq> 0 \<or> Vector2D.y (direction p) \<noteq> 0 \<longrightarrow>
                 speedOf (bullets ! 0) = 1.5 * 500))"
proof -
  let ?nz = "Vector2D.x (direction p) \<noteq> 0 \<or> Vector2D.y (direction p) \<noteq> 0"
  let ?a = "\<lambda>i. (g !! i - 0.5) * 0.5"
  have bounds: "- 0.25 \<le> ?a i \<and> ?a i \<le> 0.25" for i
    using assms(2) spread_bounds[of "g !! i"] by (simp add: uniform01_def)
  have pv: "components (velocity (fst (shotgun_pellets 5 (spent p) g) ! i)) =
              (fst (turned (?a i) (aim p)) * 500, snd (turned (?a i) (aim p)) * 500)"
    if "i < 5" for i
  proof -
    have "velocity (fst (shotgun_pellets 5 (spent p) g) ! i) =
            multiply (rotate (?a i) (normalize (direction p))) 500"
      using that by (simp only: shotgun_pellets_nth velocity_new_Bullet normalize_rotate spent_fields)
    then show ?thesis
      by (simp only: components_multiply components_rotate components_normalize)
  qed
  have ps: "speedOf (fst (shotgun_pellets 5 (spent p) g) ! i) = 500" if "i < 5" ?nz for i
    by (rule speed_scaled[OF pv[OF that(1)]]) (simp_all add: turned_unit aim_unit[OF that(2)])
  let ?b1 = "new_Bullet (GameEntity.x (spent p) + width (spent p) / 2)
               (GameEntity.y (spent p) + height (spent p) / 2) (direction p) 500
               (pistol (weaponDamage (spent p))) ''player''"
  let ?b2 = "new_Bullet (GameEntity.x (spent p) + width (spent p) / 2)
               (GameEntity.y (spent p) + height (spent p) / 2) (direction p) (500 * 1.5)
               (rifle (weaponDamage (spent p))) ''player''"
  have v1: "components (velocity ?b1) = (fst (aim p) * 500, snd (aim p) * 500)"
    by (simp only: velocity_new_Bullet components_multiply components_normalize)
  have v2: "components (velocity ?b2) = (fst (aim p) * 750, snd (aim p) * 750)"
    by (simp add: velocity_new_Bullet components_multiply components_normalize)
  have s1: "speedOf ?b1 = 500" if ?nz
    by (rule speed_scaled[OF v1]) (simp_all add: aim_unit[OF that])
  have s2: "speedOf ?b2 = 1.5 * 500" if ?nz
    using speed_scaled[OF v2] aim_unit[OF that] by simp
  show ?thesis
    unfolding shoot_eq[OF assms(1)]
    using bounds pv ps v1 v2 s1 s2
    by (simp add: shotgun_pellets_length)
qed

theorem shoot_projectiles_witness:
  "canShoot (switchWeapon ''shotgun'' (new_Player 0 0)) \<and> uniform01 (sconst (1/2)) \<and>
   length (fst (shoot (sconst (1/2)) (switchWeapon ''shotgun'' (new_Player 0 0)))) = 5 \<and>
   components (velocity (fst (shoot (sconst (1/2)) (switchWeapon ''shotgun'' (new_Player 0 0))) ! 4))
     = (500, 0) \<and>
   speedOf (fst (shoot (sconst (1/2)) (switchWeapon ''shotgun'' (new_Player 0 0))) ! 4) = 500 \<and>
   canShoot (switchWeapon ''rifle'' (new_Player 0 0)) \<and>
   length (fst (shoot (sconst (1/2)) (switchWeapon ''rifle'' (new_Player 0 0)))) = 1 \<and>
   components (velocity (fst (shoot (sconst (1/2)) (switchWeapon ''rifle'' (new_Player 0 0))) ! 0))
     = (750, 0) \<and>
   speedOf (fst (shoot (sconst (1/2)) (switchWeapon ''rifle'' (new_Player 0 0))) ! 0) = 750"
proof -
  let ?p = "switchWeapon ''shotgun'' (new_Player 0 0)"
  let ?q = "switchWeapon ''rifle'' (new_Player 0 0)"
  have a: "canShoot ?p" "canShoot ?q"
    by (simp_all add: canShoot_def switchWeapon_def new_Player_def)
  have b: "uniform01 (sconst (1/2))" by (simp add: uniform01_def)
  have w: "weaponType ?p = ''shotgun''" "weaponType ?q = ''rifle''"
    by (simp_all add: switchWeapon_def new_Player_def)
  have d: "aim ?p = (1, 0)" "aim ?q = (1, 0)"
          "Vector2D.x (direction ?p) \<noteq> 0" "Vector2D.x (direction ?q) \<noteq> 0"
    by (simp_all add: aim_def switchWeapon_def new_Player_def new_Vector2D_def Let_def)
  have t: "turned 0 (1, 0) = (1, 0)" by (simp add: turned_def)
  from shoot_projectiles[OF a(1) b] shoot_projectiles[OF a(2) b] w a b d t show ?thesis
    by (simp add: case_prod_beta)
qed

text \<open>
  C7. When the cooldown is still running, or the current weapon has no ammunition left,
  \<^verbatim>\<open>shoot\<close> returns no projectile and leaves the player and the random source as they
  were: the cooldown is not reset and no ammunition is spent.
\<close>

theorem shoot_refused:
  "shootCooldown p > 0 \<or> ammo p (weaponType p) = Some (Finite 0) \<Longrightarrow> shoot g p = ([], p, g)"
  by (auto simp: shoot_def canShoot_def)

theorem shoot_refused_witness:
  "shootCooldown ((new_Player 0 0)\<lparr>shootCooldown := 1\<rparr>) > 0 \<and>
   shoot (sconst 0) ((new_Player 0 0)\<lparr>shootCooldown := 1\<rparr>) =
     ([], (new_Player 0 0)\<lparr>shootCooldown := 1\<rparr>, sconst 0) \<and>
   ammo ((new_Player 0 0)\<lparr>weaponType := ''rifle'', ammo := [''rifle'' \<mapsto> Finite 0]\<rparr>) ''rifle''
     = Some (Finite 0) \<and>
   shoot (sconst 0) ((new_Player 0 0)\<lparr>weaponType := ''rifle'', ammo := [''rifle'' \<mapsto> Finite 0]\<rparr>) =
     ([], (new_Player 0 0)\<lparr>weaponType := ''rifle'', ammo := [''rifle'' \<mapsto> Finite 0]\<rparr>, sconst 0)"
  using shoot_refused [of "(new_Player 0 0)\<lparr>shootCooldown := 1\<rparr>" "sconst 0"]
        shoot_refused [of "(new_Player 0 0)\<lparr>weaponType := ''rifle'', ammo := [''rifle'' \<mapsto> Finite 0]\<rparr>"
                          "sconst 0"]
  by (simp add: new_Player_def)

text \<open>
  After a switch to one of the three weapons, a successful shot resets the cooldown to
  the value of the weapon in hand.
\<close>

lemma shoot_cooldown_after_switch:
  assumes "w = ''pistol'' \<or> w = ''shotgun'' \<or> w = ''rifle''" and "ammo p w \<noteq> None"
      and "canShoot (switchWeapon w p)"
  shows "shootCooldown (fst (snd (shoot g (switchWeapon w p)))) = weaponCooldown w"
proof -
  have "shootCooldownMax (switchWeapon w p) = weaponCooldown w"
    using assms(1,2) by (auto simp: switchWeapon_def weaponCooldown_def Let_def)
  then show ?thesis
    by (simp add: shoot_eq[OF assms(3)] spent_fields)
qed

text \<open>
  C3 fails on a player that has never switched weapons. The constructor leaves the
  pistol in hand with a cooldown maximum of 0.2, not the 0.4 that a switch to the pistol
  sets: the first shot is allowed and resets the cooldown to 0.2.
\<close>

theorem fresh_player_shoot_cooldown:
  "canShoot (new_Player 0 0) \<and> weaponType (new_Player 0 0) = ''pistol'' \<and>
   shootCooldown (fst (snd (shoot (sconst 0) (new_Player 0 0)))) = 0.2 \<and>
   shootCooldown (fst (snd (shoot (sconst 0) (new_Player 0 0)))) \<noteq> weaponCooldown ''pistol''"
  by (simp add: shoot_def canShoot_def new_Player_def Let_def weaponCooldown_def)

section \<open>Collisions\<close>

lemmas handler_defs = onCollision_def Player_onCollision_def Zombie_onCollision_def Zombie_attack_def
  Bullet_onCollision_def Pickup_onCollision_def emit_def put_def

lemma onCollision_trace: "trace (onCollision a b s) = trace s @ [OnCollision a b]"
  by (simp add: handler_defs Let_def split: entity.splits option.splits list.splits)

lemma collidePair_trace:
  "trace (collidePair a b s) =
     trace s @ pairEvents a b (isColliding (as_GameEntity (heap s a)) (as_GameEntity (heap s b)))"
  by (simp add: collidePair_def Let_def onCollision_trace pairEvents_def) (simp add: emit_def)








lemma collideWith_prefix: "\<exists>evs. trace (collideWith a later s) = trace s @ evs"
proof (induction later arbitrary: s)
  case Nil
  then show ?case by simp
next
  case (Cons b later)
  from Cons[of "collidePair a b s"] show ?case by (auto simp: collidePair_trace)
qed

lemma collideFrom_prefix: "\<exists>evs. trace (collideFrom es s) = trace s @ evs"
proof (induction es arbitrary: s)
  case Nil
  then show ?case by simp
next
  case (Cons a later)
  from Cons[of "collideWith a later s"] collideWith_prefix[of a later s] show ?case by auto
qed



text \<open>
  C10. A zombie whose target is unset and whose attack cooldown has expired collides
  with a player: the call changes no object but the zombie, so the player takes no
  damage from it, and the zombie's attack cooldown is set to its maximum.
\<close>

theorem zombie_without_target:
  assumes "heap s this = EZombie z" and "target z = None"
      and "heap s other = EPlayer p" and "attackCooldown z \<le> 0"
  shows "heap (onCollision this other s) other = EPlayer p \<and>
         heap (onCollision this other s) this = EZombie (z\<lparr>attackCooldown := attackCooldownMax z\<rparr>) \<and>
         (\<forall>r. r \<noteq> this \<longrightarrow> heap (onCollision this other s) r = heap s r)"
proof -
  from assms(1,3) have "this \<noteq> other" by auto
  with assms show ?thesis
    by (simp add: handler_defs Let_def)
qed


section \<open>Deferred deletion\<close>

text \<open>No handler of a collision clears a mark.\<close>

lemma marked_set_xy: "marked (set_x v e) = marked e" "marked (set_y v e) = marked e"
  by (cases e; simp add: marked_def isMarkedForDeletion_def GameEntity.truncate_def)+

lemma marked_mark_entity: "marked (mark_entity e)"
  by (cases e; simp add: marked_def isMarkedForDeletion_def markForDeletion_def GameEntity.truncate_def)

lemma marked_kept:
  "marked (EPlayer p) \<Longrightarrow> marked (EPlayer (Player_takeDamage a p))"
  "marked (EPlayer p) \<Longrightarrow> marked (EPlayer (heal a p))"
  "marked (EPlayer p) \<Longrightarrow> marked (EPlayer (addAmmo w a p))"
  "marked (EZombie z) \<Longrightarrow> marked (EZombie (Zombie_takeDamage a z))"
  "marked (EZombie z) \<Longrightarrow> marked (EZombie (z\<lparr>attackCooldown := c\<rparr>))"
  "marked (EBullet (markForDeletion b))" "marked (EPickup (markForDeletion k))"
  by (simp_all add: marked_def isMarkedForDeletion_def Player_takeDamage_def heal_def addAmmo_def
        Zombie_takeDamage_def markForDeletion_def GameEntity.truncate_def Let_def
        split: option.splits ammo_count.splits)

lemma pushBack_marked: "marked (pushBack ob e) = marked e"
  by (simp add: pushBack_def Let_def marked_set_xy)

lemma Obstacle_onCollision_marked: "marked e \<Longrightarrow> marked (Obstacle_onCollision ob e)"
  by (cases e) (simp_all add: Obstacle_onCollision_def pushBack_marked marked_kept)

lemma onCollision_marked: "marked (heap s r) \<Longrightarrow> marked (heap (onCollision a b s) r)"
  by (auto simp: handler_defs Let_def marked_kept Obstacle_onCollision_marked
        split: entity.splits option.splits list.splits)

lemma collidePair_marked: "marked (heap s r) \<Longrightarrow> marked (heap (collidePair a b s) r)"
  by (simp add: collidePair_def Let_def onCollision_marked emit_def)

lemma collideWith_marked: "marked (heap s r) \<Longrightarrow> marked (heap (collideWith a later s) r)"
  by (induction later arbitrary: s) (simp_all add: collidePair_marked)

lemma collideFrom_marked: "marked (heap s r) \<Longrightarrow> marked (heap (collideFrom es s) r)"
  by (induction es arbitrary: s) (simp_all add: collideWith_marked)

lemma quiet_refl: "absent r s \<Longrightarrow> quiet r s s"
  by (simp add: quiet_def)

lemma quiet_trans: "quiet r s s1 \<Longrightarrow> quiet r s1 s2 \<Longrightarrow> quiet r s s2"
  by (auto simp: quiet_def)

lemma quiet_absent: "quiet r s s' \<Longrightarrow> absent r s'"
  by (simp add: quiet_def)

lemma quiet_step: "quiet r s s1 \<Longrightarrow> (absent r s1 \<Longrightarrow> quiet r s1 s2) \<Longrightarrow> quiet r s s2"
  using quiet_trans quiet_absent by blast

text \<open>Store-level functions leave the engine's fields alone.\<close>

lemma onCollision_frame:
  "onCollision a b s = s\<lparr>heap := heap (onCollision a b s), trace := trace (onCollision a b s)\<rparr>"
  by (simp add: handler_defs Let_def split: entity.splits option.splits list.splits)

lemma collidePair_frame:
  "collidePair a b s = s\<lparr>heap := heap (collidePair a b s), trace := trace (collidePair a b s)\<rparr>"
proof -
  let ?s1 = "emit (OverlapTest a b True) s"
  have "onCollision b a (onCollision a b ?s1) =
          ?s1\<lparr>heap := heap (onCollision b a (onCollision a b ?s1)),
               trace := trace (onCollision b a (onCollision a b ?s1))\<rparr>"
    by (subst onCollision_frame[of b a], subst onCollision_frame[of a b]) simp
  then show ?thesis
    by (simp add: collidePair_def Let_def) (simp add: emit_def)
qed

lemma collideWith_frame:
  "collideWith a later s = s\<lparr>heap := heap (collideWith a later s), trace := trace (collideWith a later s)\<rparr>"
proof (induction later arbitrary: s)
  case Nil
  then show ?case by simp
next
  case (Cons b later)
  show ?case
    by (simp, subst Cons, subst collidePair_frame) simp
qed

lemma collideFrom_frame:
  "collideFrom es s = s\<lparr>heap := heap (collideFrom es s), trace := trace (collideFrom es s)\<rparr>"
proof (induction es arbitrary: s)
  case Nil
  then show ?case by simp
next
  case (Cons a later)
  show ?case
    by (simp, subst Cons, subst collideWith_frame) simp
qed

lemma entity_update_frame:
  "entity_update d e s = s\<lparr>heap := heap (entity_update d e s), trace := trace (entity_update d e s)\<rparr>"
  by (simp add: entity_update_def emit_def put_def Let_def split: entity.splits)

lemma entity_update_trace: "trace (entity_update d e s) = trace s @ [Update e d]"
  by (simp add: entity_update_def emit_def put_def Let_def split: entity.splits)

lemma updateAll_frame:
  "updateAll d es s = s\<lparr>heap := heap (updateAll d es s), trace := trace (updateAll d es s)\<rparr>"
proof (induction es arbitrary: s)
  case Nil
  then show ?case by simp
next
  case (Cons a later)
  show ?case
    by (simp, subst Cons, subst entity_update_frame) simp
qed

lemma updateAll_trace: "trace (updateAll d es s) = trace s @ map (\<lambda>e. Update e d) es"
  by (induction es arbitrary: s) (simp_all add: entity_update_trace)

lemma renderAll_frame:
  "renderAll es s = s\<lparr>trace := trace (renderAll es s)\<rparr>"
proof (induction es arbitrary: s)
  case Nil
  then show ?case by simp
next
  case (Cons a later)
  show ?case
    by (simp, subst Cons) (simp add: entity_render_def emit_def)
qed

lemma renderAll_trace: "trace (renderAll es s) = trace s @ map Render es"
  by (induction es arbitrary: s) (simp_all add: entity_render_def emit_def)

lemma checkCollisions_entities: "entities (checkCollisions s) = entities s"
  unfolding checkCollisions_def by (subst collideFrom_frame) simp

lemma checkCollisions_nextRef: "nextRef (checkCollisions s) = nextRef s"
  unfolding checkCollisions_def by (subst collideFrom_frame) simp

lemma marked_simps:
  "marked (EPlayer (Player_update d p)) = marked (EPlayer p)"
  "marked (EBullet b) \<Longrightarrow> marked (EBullet (Bullet_update d b))"
  "marked (EZombie (Zombie_update d t z)) = marked (EZombie z)"
  by (simp_all add: marked_def isMarkedForDeletion_def Player_update_def Bullet_update_def
        Zombie_update_def markForDeletion_def GameEntity.truncate_def Let_def split: option.splits)

lemma entity_update_marked:
  "marked (heap s r) \<Longrightarrow> marked (heap (entity_update d e s) r)"
  by (auto simp: entity_update_def emit_def put_def Let_def marked_simps split: entity.splits)

lemma updateAll_marked:
  "marked (heap s r) \<Longrightarrow> marked (heap (updateAll d es s) r)"
  by (induction es arbitrary: s) (simp_all add: entity_update_marked)

lemma updateAll_entities: "entities (updateAll d es s) = entities s"
  by (subst updateAll_frame) simp

lemma GameEngine_update_trace:
  "trace (GameEngine_update d s) = trace (checkCollisions s) @ map (\<lambda>e. Update e d) (entities s)"
  by (simp add: GameEngine_update_def Let_def prune_def updateAll_trace checkCollisions_entities)

lemma GameEngine_update_entities:
  "entities (GameEngine_update d s) =
     filter (\<lambda>e. \<not> marked (heap (updateAll d (entities s) (checkCollisions s)) e)) (entities s)"
  by (simp add: GameEngine_update_def Let_def prune_def updateAll_entities checkCollisions_entities)

lemma GameEngine_update_nextRef: "nextRef (GameEngine_update d s) = nextRef s"
  unfolding GameEngine_update_def Let_def prune_def
  by (simp, subst updateAll_frame, simp add: checkCollisions_nextRef)

lemma mentions_pairEvents:
  "a \<noteq> r \<Longrightarrow> b \<noteq> r \<Longrightarrow> filter (mentions r) (pairEvents a b hit) = []"
  by (simp add: pairEvents_def)

lemma collideWith_quiet:
  "a \<noteq> r \<Longrightarrow> r \<notin> set later \<Longrightarrow>
   \<exists>evs. trace (collideWith a later s) = trace s @ evs \<and> filter (mentions r) evs = []"
proof (induction later arbitrary: s)
  case Nil
  then show ?case by simp
next
  case (Cons b later)
  then obtain evs where "trace (collideWith a later (collidePair a b s)) = trace (collidePair a b s) @ evs"
      "filter (mentions r) evs = []"
    by (metis list.set_intros(2))
  with Cons.prems show ?case
    by (simp add: collidePair_trace mentions_pairEvents)
qed

lemma collideFrom_quiet:
  "r \<notin> set es \<Longrightarrow>
   \<exists>evs. trace (collideFrom es s) = trace s @ evs \<and> filter (mentions r) evs = []"
proof (induction es arbitrary: s)
  case Nil
  then show ?case by simp
next
  case (Cons a later)
  then have r: "a \<noteq> r" "r \<notin> set later" by auto
  from Cons.IH[OF r(2), of "collideWith a later s"] obtain evs where
    1: "trace (collideFrom later (collideWith a later s)) = trace (collideWith a later s) @ evs"
       "filter (mentions r) evs = []" by blast
  from collideWith_quiet[OF r, of s] obtain evs' where
    2: "trace (collideWith a later s) = trace s @ evs'" "filter (mentions r) evs' = []" by blast
  from 1 2 show ?case by simp
qed

lemma filter_mentions_map:
  "r \<notin> set es \<Longrightarrow> filter (mentions r) (map (\<lambda>e. Update e d) es) = []"
  "r \<notin> set es \<Longrightarrow> filter (mentions r) (map Render es) = []"
  by (induction es) auto

lemma GameEngine_update_quiet: "absent r s \<Longrightarrow> quiet r s (GameEngine_update d s)"
proof -
  assume a: "absent r s"
  then obtain evs where "trace (checkCollisions s) = trace s @ evs" "filter (mentions r) evs = []"
    using collideFrom_quiet[of r "entities s" s] by (auto simp: absent_def checkCollisions_def)
  with a show ?thesis
    by (simp add: quiet_def absent_def GameEngine_update_trace GameEngine_update_entities
          GameEngine_update_nextRef filter_mentions_map)
qed

lemma render_quiet: "absent r s \<Longrightarrow> quiet r s (render s)"
  unfolding render_def Let_def quiet_def absent_def
  by (subst renderAll_frame, subst renderAll_frame)
     (simp add: renderAll_trace emit_def filter_mentions_map)

lemma prune_removes:
  assumes "marked (heap (checkCollisions s) r)"
  shows "r \<notin> set (entities (GameEngine_update d s))"
  using updateAll_marked[OF assms] by (simp add: GameEngine_update_entities)

lemma update_received:
  assumes "r \<in> set (entities s)"
  shows "Update r d \<in> set (eventsSince s (GameEngine_update d s))"
proof -
  obtain evs where "trace (checkCollisions s) = trace s @ evs"
    using collideFrom_prefix[of "entities s" s] by (auto simp: checkCollisions_def)
  then have "eventsSince s (GameEngine_update d s) = evs @ map (\<lambda>e. Update e d) (entities s)"
    by (simp add: eventsSince_def GameEngine_update_trace)
  with assms show ?thesis by auto
qed

lemma random_eq: "random s = (shd (rng s), s\<lparr>rng := stl (rng s)\<rparr>)"
  by (simp add: random_def Math_random_def)

lemma quiet_upd [simp]:
  "quiet r s0 (s\<lparr>rng := g\<rparr>) = quiet r s0 s"
  "quiet r s0 (s\<lparr>clock := c\<rparr>) = quiet r s0 s"
  "quiet r s0 (s\<lparr>heap := h\<rparr>) = quiet r s0 s"
  "quiet r s0 (s\<lparr>lastTimestamp := c\<rparr>) = quiet r s0 s"
  "quiet r s0 (s\<lparr>isPaused := b\<rparr>) = quiet r s0 s"
  "quiet r s0 (s\<lparr>gameLoopId := i\<rparr>) = quiet r s0 s"
  "quiet r s0 (s\<lparr>rafCount := n\<rparr>) = quiet r s0 s"
  by (simp_all add: quiet_def absent_def)

lemma quiet_upd_Game [simp]:
  "quiet r s0 (t\<lparr>keys := k\<rparr>) = quiet r s0 t"
  "quiet r s0 (t\<lparr>mousePosition := mp\<rparr>) = quiet r s0 t"
  "quiet r s0 (t\<lparr>mouseButtons := mb\<rparr>) = quiet r s0 t"
  "quiet r s0 (t\<lparr>player := pl\<rparr>) = quiet r s0 t"
  "quiet r s0 (t\<lparr>score := sc\<rparr>) = quiet r s0 t"
  "quiet r s0 (t\<lparr>wave := w\<rparr>) = quiet r s0 t"
  "quiet r s0 (t\<lparr>zombiesRemaining := z\<rparr>) = quiet r s0 t"
  "quiet r s0 (t\<lparr>spawnCooldown := sp\<rparr>) = quiet r s0 t"
  "quiet r s0 (t\<lparr>gameState := gs\<rparr>) = quiet r s0 t"
  "quiet r s0 (t\<lparr>waveTimer := wt\<rparr>) = quiet r s0 t"
  "quiet r s0 (t\<lparr>pickupSpawnTimer := pt\<rparr>) = quiet r s0 t"
  "quiet r s0 (t\<lparr>obstacles := ob\<rparr>) = quiet r s0 t"
  for t :: Game
  by (simp_all add: quiet_def absent_def)

lemma quiet_if:
  "(c \<Longrightarrow> quiet r s0 a) \<Longrightarrow> (\<not> c \<Longrightarrow> quiet r s0 b) \<Longrightarrow> quiet r s0 (if c then a else b)"
  by simp

lemma quiet_emit:
  "\<not> mentions r e \<Longrightarrow> quiet r s0 s \<Longrightarrow> quiet r s0 (emit e s)"
  by (auto simp: quiet_def absent_def emit_def)

lemma quiet_new_addEntity:
  "quiet r s0 s \<Longrightarrow> quiet r s0 (addEntity (fst (new e s)) (snd (new e s)))"
  by (auto simp: quiet_def absent_def new_def addEntity_def)

lemma withPlayer_frame: "withPlayer r f s = s\<lparr>heap := heap (withPlayer r f s)\<rparr>"
  by (simp add: withPlayer_def put_def split: entity.splits)

lemma quiet_withPlayer: "quiet r s0 s \<Longrightarrow> quiet r s0 (withPlayer pl f s)"
  by (subst withPlayer_frame) simp

lemma quiet_put: "quiet r s0 s \<Longrightarrow> quiet r s0 (put a e s)"
  by (simp add: put_def)

lemma quiet_addObstacle: "quiet r s0 s \<Longrightarrow> quiet r s0 (addObstacle ob s)"
  unfolding addObstacle_def Let_def case_prod_beta
  by (simp add: quiet_new_addEntity)

lemma quiet_randomObstacles: "quiet r s0 s \<Longrightarrow> quiet r s0 (randomObstacles n s)"
proof (induction n arbitrary: s)
  case 0
  then show ?case by simp
next
  case (Suc n)
  show ?case
    unfolding randomObstacles.simps random_eq Let_def case_prod_beta fst_conv snd_conv
    by (intro quiet_if Suc.IH quiet_addObstacle) (simp_all add: Suc.prems)
qed

lemma quiet_createObstacles: "quiet r s0 s \<Longrightarrow> quiet r s0 (createObstacles s)"
  unfolding createObstacles_def Let_def
  by (intro quiet_randomObstacles quiet_addObstacle) simp

lemma quiet_startWave: "quiet r s0 s \<Longrightarrow> quiet r s0 (startWave s)"
  by (simp add: startWave_def Let_def)

lemma absent_clear: "absent r s \<Longrightarrow> absent r (s\<lparr>entities := []\<rparr>)"
  by (simp add: absent_def)

lemma quiet_clear: "quiet r s0 s \<Longrightarrow> quiet r s0 (s\<lparr>entities := []\<rparr>)"
  by (simp add: quiet_def absent_def)

lemma quiet_startGame: "quiet r s0 s \<Longrightarrow> quiet r s0 (startGame s)"
proof -
  assume q: "quiet r s0 s"
  let ?s4 = "addEntity (nextRef s)
      (s\<lparr>score := 0, wave := 1, waveTimer := 0, pickupSpawnTimer := 0, entities := [],
          heap := (heap s)(nextRef s := EPlayer (new_Player (mapWidth s / 2 - 20) (mapHeight s / 2 - 20))),
          nextRef := Suc (nextRef s), player := Some (nextRef s)\<rparr>)"
  have 4: "quiet r s0 ?s4" using q by (auto simp: quiet_def absent_def addEntity_def)
  have "startGame s = (startWave (createObstacles ?s4))\<lparr>gameState := Playing\<rparr>"
    by (simp add: startGame_def Let_def new_def)
  then show ?thesis
    by (simp add: quiet_startWave quiet_createObstacles 4)
qed

lemma quiet_addBullets: "quiet r s0 s \<Longrightarrow> quiet r s0 (addBullets bs s)"
proof (induction bs arbitrary: s)
  case Nil
  then show ?case by simp
next
  case (Cons b bs)
  show ?case
    unfolding addBullets.simps Let_def case_prod_beta
    by (intro Cons.IH quiet_new_addEntity Cons.prems)
qed

lemma quiet_playSound: "quiet r s0 s \<Longrightarrow> quiet r s0 (playSound k s)"
  by (simp add: playSound_def quiet_emit)

lemma quiet_resetMouseButton: "quiet r s0 s \<Longrightarrow> quiet r s0 (resetMouseButton b s)"
  by (simp add: resetMouseButton_def)

lemma quiet_fire: "quiet r s0 s \<Longrightarrow> quiet r s0 (fire pl s)"
proof (cases "heap s pl")
  case (EPlayer p)
  assume q: "quiet r s0 s"
  have "quiet r s0
     (if isMouseButtonDown 0 s \<and> canShoot p then
             (let (bullets, p', g) = shoot (rng s) p;
                  s1 = put pl (EPlayer p') (s\<lparr>rng := g\<rparr>);
                  s2 = addBullets bullets s1;
                  weapon = weaponType p';
                  s3 = (if weapon = ''pistol'' then playSound ''shoot_pistol'' s2
                        else if weapon = ''shotgun'' then playSound ''shoot_shotgun'' s2
                        else if weapon = ''rifle'' then playSound ''shoot_rifle'' s2
                        else s2)
              in resetMouseButton 0 s3)
           else s)"
    unfolding Let_def case_prod_beta
    by (intro quiet_if quiet_resetMouseButton quiet_playSound quiet_addBullets quiet_put)
       (simp_all add: q)
  with EPlayer show ?thesis by (simp add: fire_def)
qed (simp_all add: fire_def)

lemma quiet_handlePlayerInput: "quiet r s0 s \<Longrightarrow> quiet r s0 (handlePlayerInput d s)"
proof (cases "player s")
  case None
  then show "quiet r s0 s \<Longrightarrow> ?thesis" by (simp add: handlePlayerInput_def)
next
  case (Some pl)
  assume q: "quiet r s0 s"
  show ?thesis
    unfolding handlePlayerInput_def Let_def Some option.case
    by (intro quiet_if quiet_withPlayer quiet_fire q)
qed

lemma spawnPosition_eq:
  "snd (spawnPosition side s) =
     (if side = 0 \<or> side = 1 \<or> side = 2 \<or> side = 3 then s\<lparr>rng := stl (rng s)\<rparr> else s)"
  by (simp add: spawnPosition_def random_eq Let_def)

lemma quiet_spawnZombie: "quiet r s0 s \<Longrightarrow> quiet r s0 (spawnZombie s)"
  by (auto simp: spawnZombie_def random_eq Let_def case_prod_beta spawnPosition_eq new_def
        addEntity_def emit_def quiet_def absent_def split: option.splits)

lemma quiet_updateZombieSpawning: "quiet r s0 s \<Longrightarrow> quiet r s0 (updateZombieSpawning d s)"
  unfolding updateZombieSpawning_def Let_def
  by (intro quiet_if) (simp_all add: quiet_spawnZombie)

lemma placePickup_frame: "snd (placePickup n px py s) = s\<lparr>rng := rng (snd (placePickup n px py s))\<rparr>"
  by (induction n px py s rule: placePickup.induct) (simp_all add: random_eq Let_def)

lemma quiet_placePickup: "quiet r s0 s \<Longrightarrow> quiet r s0 (snd (placePickup n px py s))"
  by (subst placePickup_frame) simp

lemma quiet_alloc:
  "quiet r s0 s \<Longrightarrow> quiet r s0 (addEntity (fst (new e s)) (snd (new e s)))"
  by (auto simp: quiet_def absent_def new_def addEntity_def)

lemma quiet_spawnPickup: "quiet r s0 s \<Longrightarrow> quiet r s0 (spawnPickup s)"
  unfolding spawnPickup_def Let_def random_eq case_prod_beta fst_conv snd_conv
  by (intro quiet_if quiet_alloc quiet_placePickup) simp_all

lemma quiet_updatePickupSpawning: "quiet r s0 s \<Longrightarrow> quiet r s0 (updatePickupSpawning d s)"
  unfolding updatePickupSpawning_def Let_def
  by (intro quiet_if) (simp_all add: quiet_spawnPickup)

lemma quiet_advanceWave: "quiet r s0 s \<Longrightarrow> quiet r s0 (advanceWave d s)"
  unfolding advanceWave_def Let_def
  by (intro quiet_if) (simp_all add: quiet_startWave)

lemma quiet_renderUI: "quiet r s0 s \<Longrightarrow> quiet r s0 (renderUI s)"
  by (simp add: renderUI_def quiet_emit)

lemma quiet_pause: "quiet r s0 s \<Longrightarrow> quiet r s0 (pause s)"
  by (simp add: pause_def)

lemma quiet_resume: "quiet r s0 s \<Longrightarrow> quiet r s0 (resume s)"
  by (simp add: resume_def)

lemma quiet_ZombieShooterGame_update:
  "quiet r s0 s \<Longrightarrow> quiet r s0 (ZombieShooterGame_update d s)"
proof (cases "player s")
  case None
  then show "quiet r s0 s \<Longrightarrow> ?thesis" by (simp add: ZombieShooterGame_update_def)
next
  case (Some pl)
  assume q: "quiet r s0 s"
  show ?thesis
    unfolding ZombieShooterGame_update_def Let_def Some option.case
    by (intro quiet_renderUI quiet_if quiet_pause
          quiet_upd_Game(9)[THEN iffD2] quiet_updatePickupSpawning quiet_advanceWave
          quiet_updateZombieSpawning quiet_handlePlayerInput q)
qed

lemma quiet_handleTitleScreenInput: "quiet r s0 s \<Longrightarrow> quiet r s0 (handleTitleScreenInput s)"
  unfolding handleTitleScreenInput_def
  by (intro quiet_if quiet_resetMouseButton quiet_startGame)

lemma quiet_handlePauseScreenInput: "quiet r s0 s \<Longrightarrow> quiet r s0 (handlePauseScreenInput s)"
  unfolding handlePauseScreenInput_def
  by (intro quiet_if quiet_resetMouseButton quiet_resume quiet_startGame) simp_all

lemma quiet_handleGameOverScreenInput: "quiet r s0 s \<Longrightarrow> quiet r s0 (handleGameOverScreenInput s)"
  unfolding handleGameOverScreenInput_def
  by (intro quiet_if quiet_resetMouseButton quiet_startGame)

lemma quiet_ZombieShooterGame_gameLoop:
  "quiet r s0 s \<Longrightarrow> quiet r s0 (ZombieShooterGame_gameLoop d s)"
  unfolding ZombieShooterGame_gameLoop_def renderLoadingScreen_def renderTitleScreen_def
    renderPauseScreen_def renderGameOverScreen_def
  by (cases "gameState s")
     (simp_all add: quiet_emit quiet_handleTitleScreenInput quiet_handlePauseScreenInput
        quiet_handleGameOverScreenInput quiet_ZombieShooterGame_update)

lemma quiet_GameEngine_update: "quiet r s0 s \<Longrightarrow> quiet r s0 (GameEngine_update d s)"
  using GameEngine_update_quiet quiet_step by blast

lemma quiet_render: "quiet r s0 s \<Longrightarrow> quiet r s0 (render s)"
  using render_quiet quiet_step by blast

lemma quiet_overriddenUpdate: "quiet r s0 s \<Longrightarrow> quiet r s0 (overriddenUpdate d s)"
  unfolding overriddenUpdate_def
  by (intro quiet_ZombieShooterGame_gameLoop quiet_GameEngine_update)

lemma quiet_frame: "quiet r s0 s \<Longrightarrow> quiet r s0 (frame ts s)"
  unfolding frame_def gameLoop_def Let_def requestAnimationFrame_def
  by (intro quiet_if quiet_render quiet_overriddenUpdate) simp_all

lemma quiet_handle_event: "quiet r s0 s \<Longrightarrow> quiet r s0 (handle_event e s)"
  by (cases e) simp_all

lemma quiet_deliver: "quiet r s0 s \<Longrightarrow> quiet r s0 (deliver evs s)"
  by (induction evs arbitrary: s) (simp_all add: quiet_handle_event)

lemma quiet_run: "quiet r s0 s \<Longrightarrow> quiet r s0 (run fs s)"
proof (induction fs arbitrary: s)
  case Nil
  then show ?case by simp
next
  case (Cons f fs)
  obtain evs ts where f: "f = (evs, ts)" by (cases f)
  show ?case
    unfolding f run.simps
    by (intro Cons.IH quiet_frame quiet_deliver Cons.prems)
qed

lemma quiet_events:
  "quiet r s s' \<Longrightarrow> r \<notin> set (entities s') \<and> filter (mentions r) (eventsSince s s') = []"
  by (auto simp: quiet_def absent_def eventsSince_def)

lemma frame_eq:
  "\<not> isPaused s \<Longrightarrow>
   frame ts s =
     render (ZombieShooterGame_gameLoop ((ts - lastTimestamp s) / 1000)
       (GameEngine_update ((ts - lastTimestamp s) / 1000)
          ((requestAnimationFrame (s\<lparr>clock := ts\<rparr>))\<lparr>lastTimestamp := ts\<rparr>)))"
  by (simp add: frame_def gameLoop_def Let_def overriddenUpdate_def requestAnimationFrame_def)

section \<open>A game in progress\<close>

lemma init_demo:
  "init (new_ZombieShooterGame 800 600 (sconst (1/2))) =
     (new_ZombieShooterGame 800 600 (sconst (1/2)))
       \<lparr>gameState := Title, gameLoopId := Some 0, rafCount := 1, trace := [ClearCanvas]\<rparr>"
  by (simp add: init_def new_ZombieShooterGame_def start_def gameLoop_def Let_def performance_now_def
        requestAnimationFrame_def render_def emit_def GameEngine_update_def checkCollisions_def prune_def)

lemma randomObstacles_demo:
  "mapWidth s = 800 \<Longrightarrow> mapHeight s = 600 \<Longrightarrow> rng s = sconst (1/2) \<Longrightarrow> randomObstacles n s = s"
proof (induction n)
  case 0
  then show ?case by simp
next
  case (Suc n)
  have "stl (rng s) = rng s" by (simp add: Suc.prems(3))
  then have "s\<lparr>rng := stl (rng s)\<rparr> = s" by (simp only:) simp
  then have r: "random s = (1/2, s)" by (simp add: random_eq Suc.prems(3))
  show ?case
    unfolding randomObstacles.simps r Let_def case_prod_beta fst_conv snd_conv
    using Suc by simp
qed

lemma demoGame_fields:
  "entities demoGame = [0, 1, 2, 3, 4]" "nextRef demoGame = 5" "player demoGame = Some 0"
  "gameState demoGame = Playing" "wave demoGame = 1" "zombiesRemaining demoGame = 7"
  "heap demoGame 0 = EPlayer (new_Player 380 280)"
  "heap demoGame 1 = EObstacle (new_Obstacle 0 0 800 20)"
  "heap demoGame 2 = EObstacle (new_Obstacle 0 580 800 20)"
  "heap demoGame 3 = EObstacle (new_Obstacle 0 0 20 600)"
  "heap demoGame 4 = EObstacle (new_Obstacle 780 0 20 600)"
  "isPaused demoGame = False" "rng demoGame = sconst (1/2)" "mapWidth demoGame = 800" "mapHeight demoGame = 600"
  "trace demoGame = [ClearCanvas]"
  unfolding demoGame_def init_demo
  by (simp_all add: startGame_def new_ZombieShooterGame_def Let_def new_def addEntity_def
        createObstacles_def addObstacle_def startWave_def randomObstacles_demo)

lemma demoGame_heap_Suc: "heap demoGame (Suc 0) = EObstacle (new_Obstacle 0 0 800 20)"
  using demoGame_fields(8) by simp


theorem zombie_without_target_witness:
  "heap (onCollision 1 0 (put 1 (EZombie (new_Zombie 10 10 ''normal'')) (put 0 (EPlayer (new_Player 0 0)) demoGame))) 0
     = EPlayer (new_Player 0 0) \<and>
   heap (onCollision 1 0 (put 1 (EZombie (new_Zombie 10 10 ''normal'')) (put 0 (EPlayer (new_Player 0 0)) demoGame))) 1
     = EZombie ((new_Zombie 10 10 ''normal'')\<lparr>attackCooldown := 1\<rparr>)"
proof -
  let ?s = "put 1 (EZombie (new_Zombie 10 10 ''normal'')) (put 0 (EPlayer (new_Player 0 0)) demoGame)"
  have h: "heap ?s 1 = EZombie (new_Zombie 10 10 ''normal'')" "target (new_Zombie 10 10 ''normal'') = None"
    "heap ?s 0 = EPlayer (new_Player 0 0)" "attackCooldown (new_Zombie 10 10 ''normal'') \<le> 0"
    by (simp_all add: put_def new_Zombie_def)
  from zombie_without_target[OF h] show ?thesis by (simp add: new_Zombie_def)
qed

lemma demoPickup_fields:
  "entities demoPickup = [0, 1, 2, 3, 4, 5]" "nextRef demoPickup = 6"
  "heap demoPickup 0 = EPlayer (new_Player 380 280)"
  "heap demoPickup 1 = EObstacle (new_Obstacle 0 0 800 20)"
  "heap demoPickup (Suc 0) = EObstacle (new_Obstacle 0 0 800 20)"
  "heap demoPickup 2 = EObstacle (new_Obstacle 0 580 800 20)"
  "heap demoPickup 3 = EObstacle (new_Obstacle 0 0 20 600)"
  "heap demoPickup 4 = EObstacle (new_Obstacle 780 0 20 600)"
  "heap demoPickup 5 = EPickup (new_Pickup 390 290 ''health'' 25)"
  using demoGame_heap_Suc
  by (simp_all add: demoPickup_def new_def addEntity_def demoGame_fields)

lemma demoPickup_miss:
  "b \<in> {1, 2, 3, 4} \<Longrightarrow> heap s 0 = heap demoPickup 0 \<Longrightarrow> heap s b = heap demoPickup b \<Longrightarrow>
   heap (collidePair 0 b s) = heap s"
  by (auto simp: collidePair_def Let_def emit_def demoPickup_fields isColliding_def new_Player_def
        new_Obstacle_def GameEntity.truncate_def)

lemma demoPickup_hit:
  "heap s 0 = heap demoPickup 0 \<Longrightarrow> heap s 5 = heap demoPickup 5 \<Longrightarrow>
   marked (heap (collidePair 0 5 s) 5)"
  by (simp add: collidePair_def Let_def emit_def demoPickup_fields isColliding_def new_Player_def
        new_Pickup_def GameEntity.truncate_def handler_defs marked_kept)

lemma demoPickup_marked: "marked (heap (checkCollisions demoPickup) 5)"
proof -
  let ?s4 = "collidePair 0 4 (collidePair 0 3 (collidePair 0 2 (collidePair 0 1 demoPickup)))"
  have "heap ?s4 = heap demoPickup"
    by (simp add: demoPickup_miss)
  then have "marked (heap (collidePair 0 5 ?s4) 5)"
    by (intro demoPickup_hit) simp_all
  then have "marked (heap (collideFrom [1, 2, 3, 4, 5] (collidePair 0 5 ?s4)) 5)"
    by (rule collideFrom_marked)
  then show ?thesis
    by (simp add: checkCollisions_def demoPickup_fields)
qed

section \<open>The type of a spawned zombie\<close>

lemma spawnZombie_trace:
  "player s = Some pl \<Longrightarrow>
   trace (spawnZombie s) = trace s @ [Spawn (nextRef s) (zombieTypeFor (wave s) (shd (rng s)))]"
  by (simp add: spawnZombie_def random_eq Let_def case_prod_beta spawnPosition_eq new_def
        addEntity_def emit_def)

lemma spawnZombie_heap:
  "player s = Some pl \<Longrightarrow>
   \<exists>z. heap (spawnZombie s) (nextRef s) = EZombie z \<and>
       Zombie.type z = zombieTypeFor (wave s) (shd (rng s)) \<and> target z = Some pl"
  by (simp add: spawnZombie_def random_eq Let_def case_prod_beta spawnPosition_eq new_def
        addEntity_def emit_def setTarget_def new_Zombie_def)

lemma zombieTypeFor_never_tank: "zombieTypeFor w r \<noteq> ''tank''"
  by (simp add: zombieTypeFor_def)

text \<open>
  C1 fails in wave 5 and later on a draw below 0.1. \<^verbatim>\<open>spawnZombie\<close> tests the fast
  zombie first, and every draw that would give a tank (wave at least 5, draw below 0.1)
  already gives a fast zombie (wave at least 3, draw below 0.2): in wave 5 the draw 0.05
  spawns a fast zombie, and no wave and no draw spawn a tank.
\<close>

theorem tank_roll_spawns_fast:
  "zombieTypeFor 5 0.05 = ''fast'' \<and>
   trace (spawnZombie (demoGame\<lparr>wave := 5, rng := 0.05 ## sconst (1/2)\<rparr>)) =
     trace demoGame @ [Spawn 5 ''fast''] \<and>
   (\<exists>z. heap (spawnZombie (demoGame\<lparr>wave := 5, rng := 0.05 ## sconst (1/2)\<rparr>)) 5 = EZombie z \<and>
        Zombie.type z = ''fast'') \<and>
   (\<forall>w r. zombieTypeFor w r \<noteq> ''tank'')"
proof -
  let ?s = "demoGame\<lparr>wave := 5, rng := 0.05 ## sconst (1/2)\<rparr>"
  have p: "player ?s = Some 0" by (simp add: demoGame_fields)
  have t: "zombieTypeFor 5 0.05 = ''fast''" by (simp add: zombieTypeFor_def)
  have tr: "trace (spawnZombie ?s) = trace demoGame @ [Spawn 5 ''fast'']"
    using spawnZombie_trace[OF p] t by (simp add: demoGame_fields)
  have hp: "\<exists>z. heap (spawnZombie ?s) 5 = EZombie z \<and> Zombie.type z = ''fast''"
    using spawnZombie_heap[OF p] t by (auto simp: demoGame_fields)
  from t tr hp zombieTypeFor_never_tank show ?thesis by blast
qed

section \<open>Steps of the director\<close>

lemma produces_refl: "produces s s"
  by (simp add: produces_def)

lemma produces_trans: "produces s s1 \<Longrightarrow> produces s1 s2 \<Longrightarrow> produces s s2"
  unfolding produces_def by (erule ssubst[of s2], erule ssubst[of s1]) simp

lemma produces_fields:
  assumes "produces s s'"
  shows "keys s' = keys s" "mousePosition s' = mousePosition s" "player s' = player s"
    "score s' = score s" "wave s' = wave s" "zombiesRemaining s' = zombiesRemaining s"
    "spawnCooldown s' = spawnCooldown s" "gameState s' = gameState s" "waveDelay s' = waveDelay s"
    "waveTimer s' = waveTimer s" "pickupSpawnInterval s' = pickupSpawnInterval s"
    "mapWidth s' = mapWidth s" "mapHeight s' = mapHeight s"
    "isPaused s' = isPaused s" "lastTimestamp s' = lastTimestamp s" "gameLoopId s' = gameLoopId s"
    "clock s' = clock s" "rafCount s' = rafCount s"
  by (subst assms[unfolded produces_def], simp)+

lemma keeps_refl: "keeps s s"
  by (simp add: keeps_def)

lemma keeps_trans:
  assumes "keeps s s1" and "keeps s1 s2"
  shows "keeps s s2"
proof -
  have n: "nextRef s \<le> nextRef s1" "nextRef s1 \<le> nextRef s2"
    using assms by (simp_all add: keeps_def)
  have "isZombie (heap s2 r) = isZombie (heap s r)" if "r < nextRef s" for r
    using that assms n by (simp add: keeps_def)
  moreover have "marked (heap s2 r)" if "r < nextRef s" "marked (heap s r)" for r
    using that assms n by (simp add: keeps_def)
  moreover have "heap s2 r = EObstacle ob" if "r < nextRef s" "heap s r = EObstacle ob" for r ob
    using that assms n by (simp add: keeps_def)
  moreover have "r \<in> set (entities s2) \<or> marked (heap s2 r)"
    if "r < nextRef s" "r \<in> set (entities s)" for r
  proof -
    from that assms(1) have "r \<in> set (entities s1) \<or> marked (heap s1 r)" by (simp add: keeps_def)
    moreover have "r < nextRef s1" using that(1) n(1) by simp
    ultimately show ?thesis using assms(2) by (auto simp: keeps_def)
  qed
  ultimately show ?thesis using n by (simp add: keeps_def)
qed

lemma zombiesSince_refl: "zombiesSince s s = []"
  by (simp add: zombiesSince_def)

lemma zombiesSince_trans:
  assumes "nextRef s \<le> nextRef s1" and "keeps s1 s2"
  shows "zombiesSince s s2 = zombiesSince s s1 @ zombiesSince s1 s2"
proof -
  have n: "nextRef s1 \<le> nextRef s2" using assms(2) by (simp add: keeps_def)
  from n obtain k where k: "nextRef s2 = nextRef s1 + k" by (auto simp: le_iff_add)
  have "[nextRef s..<nextRef s2] = [nextRef s..<nextRef s1] @ [nextRef s1..<nextRef s2]"
    unfolding k by (rule upt_add_eq_append[OF assms(1)])
  moreover have "filter (\<lambda>r. isZombie (heap s2 r)) [nextRef s..<nextRef s1] =
                 filter (\<lambda>r. isZombie (heap s1 r)) [nextRef s..<nextRef s1]"
    using assms(2) by (intro filter_cong) (simp_all add: keeps_def)
  ultimately show ?thesis by (simp add: zombiesSince_def)
qed

lemma keepsPlayer_refl: "keepsPlayer pl s s"
  by (simp add: keepsPlayer_def keeps_refl)

lemma keepsPlayer_trans:
  assumes "keepsPlayer pl s s1" and "keepsPlayer pl s1 s2"
  shows "keepsPlayer pl s s2"
proof -
  have "keeps s s2" using assms keeps_trans by (auto simp: keepsPlayer_def)
  moreover have "nextRef s \<le> nextRef s1" using assms(1) by (simp add: keepsPlayer_def keeps_def)
  ultimately show ?thesis using assms by (auto simp: keepsPlayer_def)
qed

lemma appends_refl: "appends Q s s"
  by (simp add: appends_def)

lemma appends_trans: "appends Q s s1 \<Longrightarrow> appends Q s1 s2 \<Longrightarrow> appends Q s s2"
  by (auto simp: appends_def)

lemma dstep_refl: "dstep pl s s"
  by (simp add: dstep_def produces_refl keepsPlayer_refl appends_refl zombiesSince_refl)

lemma dstep_trans:
  assumes "dstep pl s s1" and "dstep pl s1 s2"
  shows "dstep pl s s2"
proof -
  have k: "nextRef s \<le> nextRef s1" "keeps s1 s2"
    using assms by (simp_all add: dstep_def keepsPlayer_def keeps_def)
  have "zombiesSince s s2 = []"
    using zombiesSince_trans[OF k] assms by (simp add: dstep_def)
  moreover have "produces s s2" using assms produces_trans by (auto simp: dstep_def)
  moreover have "keepsPlayer pl s s2" using assms keepsPlayer_trans by (auto simp: dstep_def)
  moreover have "appends routine s s2" using assms appends_trans by (auto simp: dstep_def)
  ultimately show ?thesis by (simp add: dstep_def)
qed

lemmas dstep_defs = dstep_def produces_def keepsPlayer_def keeps_def appends_def zombiesSince_def

lemma dstep_if:
  "(c \<Longrightarrow> dstep pl s0 a) \<Longrightarrow> (\<not> c \<Longrightarrow> dstep pl s0 b) \<Longrightarrow> dstep pl s0 (if c then a else b)"
  by simp

text \<open>Leaves.\<close>

lemma dstep_rng: "dstep pl s0 s \<Longrightarrow> dstep pl s0 (s\<lparr>rng := g\<rparr>)"
  by (erule dstep_trans) (simp add: dstep_defs)

lemma dstep_pickupSpawnTimer: "dstep pl s0 s \<Longrightarrow> dstep pl s0 (s\<lparr>pickupSpawnTimer := t\<rparr>)"
  by (erule dstep_trans) (simp add: dstep_defs)

lemma dstep_emit: "routine e \<Longrightarrow> dstep pl s0 s \<Longrightarrow> dstep pl s0 (emit e s)"
  by (erule dstep_trans) (simp add: dstep_defs emit_def)

lemma dstep_resetMouseButton: "dstep pl s0 s \<Longrightarrow> dstep pl s0 (resetMouseButton b s)"
  by (erule dstep_trans)
     (simp add: dstep_defs resetMouseButton_def)

lemma dstep_alloc:
  "\<not> isZombie e \<Longrightarrow> dstep pl s0 s \<Longrightarrow> dstep pl s0 (addEntity (fst (new e s)) (snd (new e s)))"
  by (erule dstep_trans)
     (auto simp: dstep_defs new_def addEntity_def)

lemma dstep_put_player:
  "heap s r = EPlayer p \<Longrightarrow> markedForDeletion p' = markedForDeletion p \<Longrightarrow>
   dstep pl s0 s \<Longrightarrow> dstep pl s0 (put r (EPlayer p') s)"
  by (erule dstep_trans)
     (auto simp: dstep_defs put_def marked_def isZombie_def
        isMarkedForDeletion_def GameEntity.truncate_def)

lemma dstep_withPlayer:
  "(\<And>p. markedForDeletion (f p) = markedForDeletion p) \<Longrightarrow>
   dstep pl s0 s \<Longrightarrow> dstep pl s0 (withPlayer r f s)"
  by (cases "heap s r") (simp_all add: withPlayer_def dstep_put_player)

lemma player_methods_mark:
  "markedForDeletion (move dir d p) = markedForDeletion p"
  "markedForDeletion (setDirection dir p) = markedForDeletion p"
  "markedForDeletion (switchWeapon w p) = markedForDeletion p"
  "markedForDeletion (spent p) = markedForDeletion p"
  by (simp_all add: move_def setDirection_def switchWeapon_def spent_def Let_def
        split: option.splits ammo_count.splits)

lemma shoot_player: "fst (snd (shoot g p)) = (if canShoot p then spent p else p)"
  by (simp add: shoot_eq) (simp add: shoot_def)

text \<open>Functions of the director.\<close>

lemma dstep_addObstacle: "dstep pl s0 s \<Longrightarrow> dstep pl s0 (addObstacle ob s)"
  by (erule dstep_trans)
     (auto simp: dstep_defs addObstacle_def new_def addEntity_def Let_def isZombie_def)

lemma dstep_randomObstacles: "dstep pl s0 s \<Longrightarrow> dstep pl s0 (randomObstacles n s)"
proof (induction n arbitrary: s)
  case 0
  then show ?case by simp
next
  case (Suc n)
  show ?case
    unfolding randomObstacles.simps random_eq Let_def case_prod_beta fst_conv snd_conv
    by (intro dstep_if Suc.IH dstep_addObstacle dstep_rng Suc.prems)
qed

lemma dstep_createObstacles: "dstep pl s0 s \<Longrightarrow> dstep pl s0 (createObstacles s)"
proof -
  assume q: "dstep pl s0 s"
  then have "dstep pl s0 (s\<lparr>obstacles := []\<rparr>)"
    by (rule dstep_trans) (simp add: dstep_defs)
  then show ?thesis
    unfolding createObstacles_def Let_def
    by (intro dstep_randomObstacles dstep_addObstacle)
qed

lemma dstep_playSound: "dstep pl s0 s \<Longrightarrow> dstep pl s0 (playSound k s)"
  by (simp add: playSound_def dstep_emit)

lemma dstep_addBullets: "dstep pl s0 s \<Longrightarrow> dstep pl s0 (addBullets bs s)"
proof (induction bs arbitrary: s)
  case Nil
  then show ?case by simp
next
  case (Cons b bs)
  show ?case
    unfolding addBullets.simps Let_def case_prod_beta
    by (intro Cons.IH dstep_alloc Cons.prems) (simp_all add: isZombie_def)
qed

lemma dstep_fire: "dstep pl s0 s \<Longrightarrow> dstep pl s0 (fire r s)"
proof (cases "heap s r")
  case (EPlayer p)
  assume q: "dstep pl s0 s"
  have m: "markedForDeletion (fst (snd (shoot (rng s) p))) = markedForDeletion p"
    by (simp add: shoot_player player_methods_mark)
  have h: "heap (s\<lparr>rng := g\<rparr>) r = EPlayer p" for g using EPlayer by simp
  have "dstep pl s0
     (if isMouseButtonDown 0 s \<and> canShoot p then
             (let (bullets, p', g) = shoot (rng s) p;
                  s1 = put r (EPlayer p') (s\<lparr>rng := g\<rparr>);
                  s2 = addBullets bullets s1;
                  weapon = weaponType p';
                  s3 = (if weapon = ''pistol'' then playSound ''shoot_pistol'' s2
                        else if weapon = ''shotgun'' then playSound ''shoot_shotgun'' s2
                        else if weapon = ''rifle'' then playSound ''shoot_rifle'' s2
                        else s2)
              in resetMouseButton 0 s3)
           else s)"
    unfolding Let_def case_prod_beta
    by (intro dstep_if dstep_resetMouseButton dstep_playSound dstep_addBullets
          dstep_put_player[OF h m] dstep_rng q)
  with EPlayer show ?thesis by (simp add: fire_def)
qed (simp_all add: fire_def)

lemma dstep_handlePlayerInput: "dstep pl s0 s \<Longrightarrow> dstep pl s0 (handlePlayerInput d s)"
proof (cases "player s")
  case None
  then show "dstep pl s0 s \<Longrightarrow> ?thesis" by (simp add: handlePlayerInput_def)
next
  case (Some r)
  assume q: "dstep pl s0 s"
  show ?thesis
    unfolding handlePlayerInput_def Let_def Some option.case
    by (intro dstep_if dstep_withPlayer dstep_fire q player_methods_mark)
qed

lemma dstep_placePickup: "dstep pl s0 s \<Longrightarrow> dstep pl s0 (snd (placePickup n px py s))"
  by (subst placePickup_frame) (rule dstep_rng)

lemma dstep_spawnPickup: "dstep pl s0 s \<Longrightarrow> dstep pl s0 (spawnPickup s)"
  unfolding spawnPickup_def Let_def random_eq case_prod_beta fst_conv snd_conv
  by (intro dstep_if dstep_alloc dstep_placePickup dstep_rng) (simp_all add: isZombie_def)

lemma dstep_updatePickupSpawning: "dstep pl s0 s \<Longrightarrow> dstep pl s0 (updatePickupSpawning d s)"
  unfolding updatePickupSpawning_def Let_def
  by (intro dstep_if dstep_pickupSpawnTimer dstep_spawnPickup)

lemma dstep_renderUI: "dstep pl s0 s \<Longrightarrow> dstep pl s0 (renderUI s)"
  by (simp add: renderUI_def dstep_emit)

lemma ZombieShooterGame_update_eq:
  "player s = Some pl \<Longrightarrow>
   ZombieShooterGame_update d s =
     renderUI (decide pl (updatePickupSpawning d (waveStep d (handlePlayerInput d s))))"
  unfolding ZombieShooterGame_update_def decide_def waveStep_def Let_def by simp

text \<open>The engine.\<close>

lemma GameEngine_update_frame:
  "GameEngine_update d s =
     s\<lparr>heap := heap (GameEngine_update d s), trace := trace (GameEngine_update d s),
       entities := entities (GameEngine_update d s)\<rparr>"
  unfolding GameEngine_update_def Let_def prune_def checkCollisions_def
  by (subst updateAll_frame, subst collideFrom_frame) simp

lemma render_frame: "render s = s\<lparr>trace := trace (render s)\<rparr>"
  unfolding render_def Let_def
  by (subst renderAll_frame) (simp add: emit_def)

lemma GameEngine_update_same:
  "nextRef (GameEngine_update d s) = nextRef s" "rng (GameEngine_update d s) = rng s"
  "mouseButtons (GameEngine_update d s) = mouseButtons s"
  "pickupSpawnTimer (GameEngine_update d s) = pickupSpawnTimer s"
  "obstacles (GameEngine_update d s) = obstacles s"
  by (subst GameEngine_update_frame, simp)+

lemma render_same:
  "heap (render s) = heap s" "nextRef (render s) = nextRef s" "rng (render s) = rng s"
  "entities (render s) = entities s" "mouseButtons (render s) = mouseButtons s"
  "pickupSpawnTimer (render s) = pickupSpawnTimer s" "obstacles (render s) = obstacles s"
  by (subst render_frame, simp)+

lemma produces_GameEngine_update: "produces s (GameEngine_update d s)"
  unfolding produces_def by (subst GameEngine_update_frame) (simp add: GameEngine_update_same)

lemma produces_render: "produces s (render s)"
  unfolding produces_def by (subst render_frame) (simp add: render_same)

lemma routine_pairEvents: "list_all routine (pairEvents a b hit)"
  by (simp add: pairEvents_def)

lemma appends_collideWith: "appends routine s (collideWith a later s)"
proof (induction later arbitrary: s)
  case Nil
  then show ?case by (simp add: appends_refl)
next
  case (Cons b later)
  have "appends routine s (collidePair a b s)"
    by (simp add: appends_def collidePair_trace routine_pairEvents)
  then show ?case using Cons appends_trans by fastforce
qed

lemma appends_collideFrom: "appends routine s (collideFrom es s)"
proof (induction es arbitrary: s)
  case Nil
  then show ?case by (simp add: appends_refl)
next
  case (Cons a later)
  show ?case using appends_collideWith[of s a later] Cons appends_trans by fastforce
qed

lemma appends_GameEngine_update: "appends routine s (GameEngine_update d s)"
proof -
  have "appends routine s (checkCollisions s)"
    by (simp add: checkCollisions_def appends_collideFrom)
  moreover have "appends routine (checkCollisions s) (GameEngine_update d s)"
    by (simp add: appends_def GameEngine_update_trace list_all_iff)
  ultimately show ?thesis by (rule appends_trans)
qed

lemma appends_render: "appends routine s (render s)"
  unfolding render_def Let_def
  by (simp add: appends_def renderAll_trace emit_def list_all_iff)

text \<open>Spawning a zombie.\<close>

lemma produces_spawnZombie: "produces s (spawnZombie s)"
  by (simp add: produces_def spawnZombie_def random_eq Let_def case_prod_beta spawnPosition_eq
        new_def addEntity_def emit_def split: option.splits)

lemma keepsPlayer_spawnZombie: "keepsPlayer pl s (spawnZombie s)"
  by (auto simp: keepsPlayer_def keeps_def spawnZombie_def random_eq Let_def case_prod_beta
        spawnPosition_eq new_def addEntity_def emit_def split: option.splits)

lemma frame_paused:
  "isPaused s \<Longrightarrow>
   frame ts s = s\<lparr>clock := ts, gameLoopId := Some (rafCount s), rafCount := Suc (rafCount s)\<rparr>"
  by (simp add: frame_def gameLoop_def Let_def requestAnimationFrame_def)

lemma createObstacles_same:
  "keys (createObstacles s) = keys s" "player (createObstacles s) = player s"
  "wave (createObstacles s) = wave s" "gameState (createObstacles s) = gameState s"
  "isPaused (createObstacles s) = isPaused s" "waveTimer (createObstacles s) = waveTimer s"
  "zombiesRemaining (createObstacles s) = zombiesRemaining s"
proof -
  have "produces s (createObstacles s)"
    using dstep_createObstacles[OF dstep_refl, of 0 s] by (simp add: dstep_def)
  from produces_fields[OF this]
  show "keys (createObstacles s) = keys s" "player (createObstacles s) = player s"
  "wave (createObstacles s) = wave s" "gameState (createObstacles s) = gameState s"
  "isPaused (createObstacles s) = isPaused s" "waveTimer (createObstacles s) = waveTimer s"
  "zombiesRemaining (createObstacles s) = zombiesRemaining s"
    by simp_all
qed

lemma startGame_fields:
  "gameState (startGame s) = Playing" "isPaused (startGame s) = isPaused s"
  "keys (startGame s) = keys s" "player (startGame s) = Some (nextRef s)"
  "wave (startGame s) = 1" "zombiesRemaining (startGame s) = 7" "waveTimer (startGame s) = 0"
  by (simp_all add: startGame_def Let_def new_def addEntity_def startWave_def createObstacles_same)

lemma waveStep_same:
  "keys (waveStep d s) = keys s" "player (waveStep d s) = player s"
  "gameState (waveStep d s) = gameState s" "isPaused (waveStep d s) = isPaused s"
  using produces_fields[OF produces_spawnZombie[of s]]
  by (simp_all add: waveStep_def advanceWave_def startWave_def updateZombieSpawning_def Let_def)

lemma keepsPlayer_waveStep: "keepsPlayer pl s (waveStep d s)"
  using keepsPlayer_spawnZombie[of pl s]
  by (simp add: waveStep_def advanceWave_def startWave_def updateZombieSpawning_def Let_def
        keepsPlayer_def keeps_def)

lemma beforeDecide_same:
  "keys (beforeDecide d s) = keys s" "player (beforeDecide d s) = player s"
  "gameState (beforeDecide d s) = gameState s" "isPaused (beforeDecide d s) = isPaused s"
proof -
  have 1: "produces s (handlePlayerInput d s)"
    using dstep_handlePlayerInput[OF dstep_refl, of 0 s d] by (simp add: dstep_def)
  have 3: "produces (waveStep d (handlePlayerInput d s)) (beforeDecide d s)"
    unfolding beforeDecide_def
    using dstep_updatePickupSpawning[OF dstep_refl, of 0 "waveStep d (handlePlayerInput d s)" d]
    by (simp add: dstep_def)
  show "keys (beforeDecide d s) = keys s" "player (beforeDecide d s) = player s"
    "gameState (beforeDecide d s) = gameState s" "isPaused (beforeDecide d s) = isPaused s"
    by (simp_all add: produces_fields[OF 3] waveStep_same produces_fields[OF 1])
qed

lemma keepsPlayer_beforeDecide: "keepsPlayer pl s (beforeDecide d s)"
proof -
  have 1: "keepsPlayer pl s (handlePlayerInput d s)"
    using dstep_handlePlayerInput[OF dstep_refl, of pl s d] by (simp add: dstep_def)
  have 3: "keepsPlayer pl (waveStep d (handlePlayerInput d s)) (beforeDecide d s)"
    unfolding beforeDecide_def
    using dstep_updatePickupSpawning[OF dstep_refl, of pl "waveStep d (handlePlayerInput d s)" d]
    by (simp add: dstep_def)
  from 1 keepsPlayer_waveStep 3 show ?thesis using keepsPlayer_trans by blast
qed

lemma update_decides:
  "player s = Some pl \<Longrightarrow>
   ZombieShooterGame_update d s = renderUI (decide pl (beforeDecide d s))"
  by (simp add: ZombieShooterGame_update_eq beforeDecide_def)

lemma update_state:
  assumes "player s = Some pl"
  shows "gameState (ZombieShooterGame_update d s) =
           (if keys s ''Escape'' then Paused
            else if marked (heap (beforeDecide d s) pl) then GameOver else gameState s)"
    and "isPaused (ZombieShooterGame_update d s) = (keys s ''Escape'' \<or> isPaused s)"
  by (simp_all add: update_decides[OF assms] renderUI_def emit_def decide_def Let_def isKeyDown_def
        pause_def beforeDecide_same)

lemma pausedInv_closure:
  assumes "pausedInv s" and "\<not> isPaused s"
  shows "pausedInv (ZombieShooterGame_gameLoop d s)"
proof (cases "gameState s")
  case Loading
  then show ?thesis using assms
    by (simp add: ZombieShooterGame_gameLoop_def renderLoadingScreen_def emit_def pausedInv_def)
next
  case Title
  then show ?thesis using assms
    by (simp add: ZombieShooterGame_gameLoop_def renderTitleScreen_def emit_def pausedInv_def
          handleTitleScreenInput_def resetMouseButton_def startGame_fields)
next
  case Playing
  show ?thesis
  proof (cases "player s")
    case None
    then show ?thesis using assms Playing
      by (simp add: ZombieShooterGame_gameLoop_def ZombieShooterGame_update_def)
  next
    case (Some pl)
    then show ?thesis using assms Playing
      by (simp add: ZombieShooterGame_gameLoop_def pausedInv_def update_state)
  qed
next
  case Paused
  then show ?thesis using assms by (simp add: pausedInv_def)
next
  case GameOver
  then show ?thesis using assms
    by (simp add: ZombieShooterGame_gameLoop_def renderGameOverScreen_def emit_def pausedInv_def
          handleGameOverScreenInput_def resetMouseButton_def startGame_fields)
qed

lemma pausedInv_frame: "pausedInv s \<Longrightarrow> pausedInv (frame ts s)"
proof (cases "isPaused s")
  case True
  then show "pausedInv s \<Longrightarrow> ?thesis" by (simp add: frame_paused pausedInv_def)
next
  case False
  assume inv: "pausedInv s"
  let ?s2 = "(requestAnimationFrame (s\<lparr>clock := ts\<rparr>))\<lparr>lastTimestamp := ts\<rparr>"
  let ?d = "(ts - lastTimestamp s) / 1000"
  have "pausedInv (GameEngine_update ?d ?s2)" "\<not> isPaused (GameEngine_update ?d ?s2)"
    using inv False
    by (simp_all add: pausedInv_def produces_fields[OF produces_GameEngine_update]
          requestAnimationFrame_def)
  then have "pausedInv (ZombieShooterGame_gameLoop ?d (GameEngine_update ?d ?s2))"
    by (rule pausedInv_closure)
  then show ?thesis
    by (simp add: frame_eq[OF False] pausedInv_def produces_fields[OF produces_render])
qed

lemma pausedInv_deliver: "pausedInv s \<Longrightarrow> pausedInv (deliver evs s)"
proof (induction evs arbitrary: s)
  case Nil
  then show ?case by simp
next
  case (Cons e evs)
  have "pausedInv (handle_event e s)" using Cons.prems by (cases e) (simp_all add: pausedInv_def)
  then show ?case by (simp add: Cons.IH)
qed

lemma pausedInv_run: "pausedInv s \<Longrightarrow> pausedInv (run fs s)"
proof (induction fs arbitrary: s)
  case Nil
  then show ?case by simp
next
  case (Cons f fs)
  obtain evs ts where f: "f = (evs, ts)" by (cases f)
  show ?case unfolding f run.simps
    by (intro Cons.IH pausedInv_frame pausedInv_deliver Cons.prems)
qed

lemma pausedInv_init: "pausedInv (init (new_ZombieShooterGame w h g))"
  by (simp add: pausedInv_def init_def new_ZombieShooterGame_def start_def gameLoop_def Let_def
        performance_now_def requestAnimationFrame_def render_def emit_def GameEngine_update_def
        checkCollisions_def prune_def)

section \<open>What the engine keeps\<close>

lemma isZombie_simps:
  "isZombie (EZombie z)" "\<not> isZombie (EPlayer p)" "\<not> isZombie (EBullet b)"
  "\<not> isZombie (EPickup k)" "\<not> isZombie (EObstacle ob)"
  by (simp_all add: isZombie_def)

lemma isZombie_set: "isZombie (set_x v e) = isZombie e" "isZombie (set_y v e) = isZombie e"
  "isZombie (mark_entity e) = isZombie e"
  by (cases e; simp add: isZombie_def)+

lemma pushBack_class: "isZombie (pushBack ob e) = isZombie e"
  by (simp add: pushBack_def Let_def isZombie_set)

lemma Obstacle_onCollision_class: "isZombie (Obstacle_onCollision ob e) = isZombie e"
  by (cases e) (simp_all add: Obstacle_onCollision_def pushBack_class isZombie_simps)

lemma Obstacle_onCollision_obstacle: "Obstacle_onCollision ob (EObstacle ob') = EObstacle ob'"
  by (simp add: Obstacle_onCollision_def)

lemma onCollision_class: "isZombie (heap (onCollision a b s) r) = isZombie (heap s r)"
  by (auto simp: handler_defs Let_def isZombie_simps Obstacle_onCollision_class
        split: entity.splits option.splits list.splits)

lemma onCollision_obstacle:
  "heap s r = EObstacle ob \<Longrightarrow> heap (onCollision a b s) r = EObstacle ob"
  by (auto simp: handler_defs Let_def Obstacle_onCollision_obstacle
        split: entity.splits option.splits list.splits)

lemma collidePair_class: "isZombie (heap (collidePair a b s) r) = isZombie (heap s r)"
  by (simp add: collidePair_def Let_def onCollision_class emit_def)

lemma collidePair_obstacle:
  "heap s r = EObstacle ob \<Longrightarrow> heap (collidePair a b s) r = EObstacle ob"
  by (simp add: collidePair_def Let_def onCollision_obstacle emit_def)

lemma collideWith_class: "isZombie (heap (collideWith a later s) r) = isZombie (heap s r)"
  by (induction later arbitrary: s) (simp_all add: collidePair_class)

lemma collideWith_obstacle:
  "heap s r = EObstacle ob \<Longrightarrow> heap (collideWith a later s) r = EObstacle ob"
  by (induction later arbitrary: s) (simp_all add: collidePair_obstacle)

lemma collideFrom_class: "isZombie (heap (collideFrom es s) r) = isZombie (heap s r)"
  by (induction es arbitrary: s) (simp_all add: collideWith_class)

lemma collideFrom_obstacle:
  "heap s r = EObstacle ob \<Longrightarrow> heap (collideFrom es s) r = EObstacle ob"
  by (induction es arbitrary: s) (simp_all add: collideWith_obstacle)

lemma entity_update_class: "isZombie (heap (entity_update d e s) r) = isZombie (heap s r)"
  by (auto simp: entity_update_def emit_def put_def Let_def isZombie_simps split: entity.splits)

lemma entity_update_obstacle:
  "heap s r = EObstacle ob \<Longrightarrow> heap (entity_update d e s) r = EObstacle ob"
  by (auto simp: entity_update_def emit_def put_def Let_def split: entity.splits)

lemma updateAll_class: "isZombie (heap (updateAll d es s) r) = isZombie (heap s r)"
  by (induction es arbitrary: s) (simp_all add: entity_update_class)

lemma updateAll_obstacle:
  "heap s r = EObstacle ob \<Longrightarrow> heap (updateAll d es s) r = EObstacle ob"
  by (induction es arbitrary: s) (simp_all add: entity_update_obstacle)

lemma GameEngine_update_heap:
  "heap (GameEngine_update d s) = heap (updateAll d (entities s) (checkCollisions s))"
  by (simp add: GameEngine_update_def Let_def prune_def checkCollisions_entities)

lemma keeps_GameEngine_update: "keeps s (GameEngine_update d s)"
  unfolding keeps_def GameEngine_update_nextRef GameEngine_update_entities
  by (simp add: GameEngine_update_heap updateAll_class updateAll_obstacle updateAll_marked
        checkCollisions_def collideFrom_class collideFrom_obstacle collideFrom_marked)

lemma keeps_render: "keeps s (render s)"
proof -
  have "heap (render s) = heap s" "nextRef (render s) = nextRef s" "entities (render s) = entities s"
    by (subst render_frame, simp)+
  then show ?thesis by (simp add: keeps_def)
qed

lemma keeps_obstacle:
  "keeps s s' \<Longrightarrow> r < nextRef s \<Longrightarrow> heap s r = EObstacle ob \<Longrightarrow> heap s' r = EObstacle ob"
  by (simp add: keeps_def)

lemma keeps_nextRef: "keeps s s' \<Longrightarrow> nextRef s \<le> nextRef s'"
  by (simp add: keeps_def)

lemma keeps_listed:
  "keeps s s' \<Longrightarrow> r < nextRef s \<Longrightarrow> r \<in> set (entities s) \<Longrightarrow>
   r \<in> set (entities s') \<or> marked (heap s' r)"
  by (simp add: keeps_def)

section \<open>Pause\<close>

lemma deliver_frame:
  "deliver evs s =
     s\<lparr>keys := keys (deliver evs s), mousePosition := mousePosition (deliver evs s),
       mouseButtons := mouseButtons (deliver evs s)\<rparr>"
proof (induction evs arbitrary: s)
  case Nil
  then show ?case by simp
next
  case (Cons e evs)
  show ?case by (simp, subst Cons, cases e) simp_all
qed

lemma deliver_fields:
  "gameState (deliver evs s) = gameState s" "isPaused (deliver evs s) = isPaused s"
  "trace (deliver evs s) = trace s" "heap (deliver evs s) = heap s"
  "entities (deliver evs s) = entities s" "player (deliver evs s) = player s"
  "wave (deliver evs s) = wave s" "zombiesRemaining (deliver evs s) = zombiesRemaining s"
  "waveTimer (deliver evs s) = waveTimer s" "nextRef (deliver evs s) = nextRef s"
  by (subst deliver_frame, simp)+

lemma paused_run:
  "isPaused s \<Longrightarrow>
   isPaused (run fs s) \<and> gameState (run fs s) = gameState s \<and> trace (run fs s) = trace s \<and>
   heap (run fs s) = heap s \<and> entities (run fs s) = entities s"
proof (induction fs arbitrary: s)
  case Nil
  then show ?case by simp
next
  case (Cons f fs)
  obtain evs ts where f: "f = (evs, ts)" by (cases f)
  have p: "isPaused (deliver evs s)" using Cons.prems by (simp add: deliver_fields)
  have "isPaused (frame ts (deliver evs s))" using p by (simp add: frame_paused)
  from Cons.IH[OF this] show ?case
    unfolding f run.simps by (simp add: frame_paused[OF p] deliver_fields)
qed

lemma playing_escape:
  assumes "gameState s = Playing" and "\<not> isPaused s" and "player s = Some pl" and "keys s ''Escape''"
  shows "gameState (frame ts s) = Paused \<and> isPaused (frame ts s)"
proof -
  let ?s2 = "(requestAnimationFrame (s\<lparr>clock := ts\<rparr>))\<lparr>lastTimestamp := ts\<rparr>"
  let ?d = "(ts - lastTimestamp s) / 1000"
  let ?s3 = "GameEngine_update ?d ?s2"
  have f: "gameState ?s3 = Playing" "player ?s3 = Some pl" "keys ?s3 ''Escape''"
    using assms
    by (simp_all add: produces_fields[OF produces_GameEngine_update] requestAnimationFrame_def)
  then show ?thesis
    by (simp add: frame_eq[OF assms(2)] produces_fields[OF produces_render]
          ZombieShooterGame_gameLoop_def update_state)
qed

text \<open>
  C2 fails. The director pauses the engine when it enters the paused state, and a
  paused engine returns from \<^verbatim>\<open>gameLoop\<close> before it calls \<^verbatim>\<open>update\<close>, through
  which alone the director's closure runs. In the game in progress a frame with Escape
  down pauses; in the frames that follow, with Escape released and pressed again, the
  state stays paused, the engine stays paused and nothing is added to the trace: no
  pause screen is rendered and no input is polled.
\<close>

theorem pause_never_resumes:
  "gameState demoGame = Playing \<and> \<not> isPaused demoGame \<and>
   gameState (run [([KeyDown ''Escape''], 16)] demoGame) = Paused \<and>
   isPaused (run [([KeyDown ''Escape''], 16)] demoGame) \<and>
   gameState (run [([KeyDown ''Escape''], 16), ([KeyUp ''Escape''], 32), ([KeyDown ''Escape''], 48)]
               demoGame) = Paused \<and>
   isPaused (run [([KeyDown ''Escape''], 16), ([KeyUp ''Escape''], 32), ([KeyDown ''Escape''], 48)]
               demoGame) \<and>
   trace (run [([KeyDown ''Escape''], 16), ([KeyUp ''Escape''], 32), ([KeyDown ''Escape''], 48)]
               demoGame) =
     trace (run [([KeyDown ''Escape''], 16)] demoGame)"
proof -
  let ?s0 = "deliver [KeyDown ''Escape''] demoGame"
  let ?s1 = "frame 16 ?s0"
  have 0: "gameState ?s0 = Playing" "\<not> isPaused ?s0" "player ?s0 = Some 0" "keys ?s0 ''Escape''"
    by (simp_all add: demoGame_fields)
  from playing_escape[OF 0] have 1: "gameState ?s1 = Paused" "isPaused ?s1" by simp_all
  from paused_run[OF 1(2), of "[([KeyUp ''Escape''], 32), ([KeyDown ''Escape''], 48)]"] 1
  show ?thesis by (simp add: demoGame_fields)
qed


section \<open>Health and game over\<close>

lemma healthy_call: "0 \<le> amount c \<Longrightarrow> healthy p \<Longrightarrow> healthy (call c p)"
  by (cases c) (auto simp: healthy_def Player_takeDamage_def heal_def markForDeletion_def Let_def)

lemma healthy_calls: "\<forall>c \<in> set cs. 0 \<le> amount c \<Longrightarrow> healthy p \<Longrightarrow> healthy (calls cs p)"
  by (induction cs arbitrary: p) (simp_all add: healthy_call)

lemma healthy_new: "healthy (new_Player px py)"
  by (simp add: healthy_def new_Player_def)

text \<open>Frames in the game-over state.\<close>

lemma deliver_mouse:
  "MouseDown 0 \<notin> set evs \<Longrightarrow> \<not> mouseButtons s 0 \<Longrightarrow> \<not> mouseButtons (deliver evs s) 0"
proof (induction evs arbitrary: s)
  case Nil
  then show ?case by simp
next
  case (Cons e evs)
  then have "\<not> mouseButtons (handle_event e s) 0" by (cases e) auto
  with Cons show ?case by simp
qed

lemma gameOver_frame:
  assumes "gameState s = GameOver" and "\<not> mouseButtons s 0"
  shows "gameState (frame ts s) = GameOver \<and> \<not> mouseButtons (frame ts s) 0"
proof (cases "isPaused s")
  case True
  with assms show ?thesis by (simp add: frame_paused)
next
  case False
  let ?s2 = "(requestAnimationFrame (s\<lparr>clock := ts\<rparr>))\<lparr>lastTimestamp := ts\<rparr>"
  let ?d = "(ts - lastTimestamp s) / 1000"
  let ?s3 = "GameEngine_update ?d ?s2"
  have f: "gameState ?s3 = GameOver" "\<not> mouseButtons ?s3 0"
    using assms
    by (simp_all add: produces_fields[OF produces_GameEngine_update] GameEngine_update_same
          requestAnimationFrame_def)
  then show ?thesis
    by (simp add: frame_eq[OF False] produces_fields[OF produces_render] render_same
          ZombieShooterGame_gameLoop_def renderGameOverScreen_def emit_def
          handleGameOverScreenInput_def isMouseButtonDown_def)
qed

lemma gameOver_run:
  "gameState s = GameOver \<Longrightarrow> \<not> mouseButtons s 0 \<Longrightarrow> noClick fs \<Longrightarrow>
   gameState (run fs s) = GameOver"
proof (induction fs arbitrary: s)
  case Nil
  then show ?case by simp
next
  case (Cons f fs)
  obtain evs ts where f: "f = (evs, ts)" by (cases f)
  with Cons.prems have n: "MouseDown 0 \<notin> set evs" "noClick fs" by (simp_all add: noClick_def)
  have "gameState (deliver evs s) = GameOver" "\<not> mouseButtons (deliver evs s) 0"
    using Cons.prems(1,2) n(1) by (simp_all add: deliver_fields deliver_mouse)
  from gameOver_frame[OF this] Cons.IH n(2) show ?case
    unfolding f run.simps by blast
qed

text \<open>The frame in which the player dies.\<close>

lemma closure_playing:
  assumes "gameState s = Playing" and "player s = Some pl" and "pl < nextRef s"
      and "\<not> keys s ''Escape''"
  shows "gameState (ZombieShooterGame_gameLoop d s) = (if marked (heap s pl) then GameOver else Playing)"
    and "mouseButtons (ZombieShooterGame_gameLoop d s) 0 \<longrightarrow> mouseButtons s 0"
proof -
  from keepsPlayer_beforeDecide[of pl s d] assms(3)
  have k: "marked (heap (beforeDecide d s) pl) = marked (heap s pl)"
          "mouseButtons (beforeDecide d s) 0 \<longrightarrow> mouseButtons s 0"
    by (simp_all add: keepsPlayer_def keeps_def)
  show "gameState (ZombieShooterGame_gameLoop d s) = (if marked (heap s pl) then GameOver else Playing)"
    using assms k(1) by (simp add: ZombieShooterGame_gameLoop_def update_state)
  show "mouseButtons (ZombieShooterGame_gameLoop d s) 0 \<longrightarrow> mouseButtons s 0"
    using assms k(2)
    by (simp add: ZombieShooterGame_gameLoop_def update_decides renderUI_def emit_def decide_def
          Let_def pause_def isKeyDown_def beforeDecide_same)
qed

text \<open>
  What holds of the health and of the end of a game. After any sequence of
  \<^verbatim>\<open>takeDamage\<close> and \<^verbatim>\<open>heal\<close> calls with non-negative amounts (the program passes
  no other) on a new player, the health lies in \<open>[0, 100]\<close>, and a player at health 0
  is marked for deletion. \<open>s\<close> is the state in which the engine's update of a frame
  begins, while playing, with Escape up and the primary button up: the frame ends in
  the game-over state if the engine's update leaves the player marked and in the
  playing state if not; and once it has ended in game over, the state is game over after
  any number of later frames in which the primary button is not pressed.
\<close>

lemma health_and_game_over:
  assumes "\<forall>c \<in> set cs. 0 \<le> amount c"
      and "gameState s = Playing" and "player s = Some pl" and "pl < nextRef s"
      and "\<not> keys s ''Escape''" and "\<not> mouseButtons s 0" and "noClick fs"
  shows "0 \<le> Player.health (calls cs (new_Player px py)) \<and>
         Player.health (calls cs (new_Player px py)) \<le> 100 \<and>
         (Player.health (calls cs (new_Player px py)) = 0 \<longrightarrow>
            markedForDeletion (calls cs (new_Player px py))) \<and>
         gameState (render (ZombieShooterGame_gameLoop d (GameEngine_update d s))) =
           (if marked (heap (GameEngine_update d s) pl) then GameOver else Playing) \<and>
         (marked (heap (GameEngine_update d s) pl) \<longrightarrow>
            gameState (run fs (render (ZombieShooterGame_gameLoop d (GameEngine_update d s)))) = GameOver)"
proof -
  let ?s1 = "GameEngine_update d s"
  let ?s2 = "render (ZombieShooterGame_gameLoop d ?s1)"
  have h: "healthy (calls cs (new_Player px py))"
    by (rule healthy_calls[OF assms(1) healthy_new])
  have f: "gameState ?s1 = Playing" "player ?s1 = Some pl" "pl < nextRef ?s1" "\<not> keys ?s1 ''Escape''"
          "\<not> mouseButtons ?s1 0"
    using assms(2-6)
    by (simp_all add: produces_fields[OF produces_GameEngine_update] GameEngine_update_same)
  from closure_playing[OF f(1-4), of d] f(5)
  have g: "gameState ?s2 = (if marked (heap ?s1 pl) then GameOver else Playing)"
          "\<not> mouseButtons ?s2 0"
    by (simp_all add: produces_fields[OF produces_render] render_same)
  have "gameState (run fs ?s2) = GameOver" if "marked (heap ?s1 pl)"
    using that g gameOver_run[OF _ g(2) assms(7)] by simp
  with h g(1) show ?thesis by (simp add: healthy_def)
qed

section \<open>Waves\<close>


lemma run_append: "run (fs @ gs) s = run gs (run fs s)"
  by (induction fs arbitrary: s) auto

lemma ledger_refl: "ledger s s"
  by (simp add: ledger_def keeps_refl zombiesSince_refl)

lemma ledger_trans:
  assumes "ledger s s1" and "ledger s1 s2"
  shows "ledger s s2"
proof -
  have k: "keeps s s1" "keeps s1 s2" using assms by (simp_all add: ledger_def)
  then have n: "nextRef s \<le> nextRef s1" by (simp add: keeps_def)
  note z = zombiesSince_trans[OF n k(2)]
  have "r \<in> set (entities s2) \<or> marked (heap s2 r)" if "r \<in> set (zombiesSince s s1)" for r
  proof -
    from that have "r < nextRef s1" by (simp add: zombiesSince_def)
    moreover from that assms(1) have "r \<in> set (entities s1) \<or> marked (heap s1 r)"
      by (simp add: ledger_def)
    ultimately show ?thesis using k(2) by (auto simp: keeps_def)
  qed
  then have "\<forall>r \<in> set (zombiesSince s s2). r \<in> set (entities s2) \<or> marked (heap s2 r)"
    using assms(2) by (auto simp: z ledger_def)
  then show ?thesis
    using assms keeps_trans[OF k] by (simp add: ledger_def z)
qed

lemma ledger_same:
  assumes "keeps s s'" and "nextRef s' = nextRef s" and "zombiesRemaining s' = zombiesRemaining s"
      and "wave s' = wave s" and "waveTimer s' = waveTimer s"
  shows "ledger s s'"
  using assms by (simp add: ledger_def zombiesSince_def)

lemma ledger_dstep: "dstep pl s s' \<Longrightarrow> ledger s s'"
  using produces_fields[of s s'] by (simp add: ledger_def dstep_def keepsPlayer_def)

lemma ledger_GameEngine_update: "ledger s (GameEngine_update d s)"
  by (rule ledger_same)
     (simp_all add: keeps_GameEngine_update GameEngine_update_nextRef
        produces_fields[OF produces_GameEngine_update])

lemma ledger_render: "ledger s (render s)"
  by (rule ledger_same)
     (simp_all add: keeps_render render_same produces_fields[OF produces_render])

lemma spawnZombie_fields:
  assumes "player s = Some pl"
  shows "nextRef (spawnZombie s) = Suc (nextRef s)"
    and "entities (spawnZombie s) = entities s @ [nextRef s]"
    and "isZombie (heap (spawnZombie s) (nextRef s))"
    and "\<not> marked (heap (spawnZombie s) (nextRef s))"
    and "zombiesSince s (spawnZombie s) = [nextRef s]"
  using assms
  by (simp_all add: spawnZombie_def random_eq Let_def case_prod_beta spawnPosition_eq new_def
        addEntity_def emit_def isZombie_def zombiesSince_def marked_def isMarkedForDeletion_def
        setTarget_def new_Zombie_def GameEntity.truncate_def)

lemma ledger_updateZombieSpawning:
  assumes "player s = Some pl" and "0 < zombiesRemaining s"
  shows "ledger s (updateZombieSpawning d s)" and "0 \<le> zombiesRemaining (updateZombieSpawning d s)"
proof -
  have k: "keeps s (spawnZombie s)" using keepsPlayer_spawnZombie[of pl s] by (simp add: keepsPlayer_def)
  note f = spawnZombie_fields[OF assms(1)] produces_fields[OF produces_spawnZombie[of s]]
  have "ledger s (spawnZombie s\<lparr>zombiesRemaining := zombiesRemaining s - 1, spawnCooldown := c\<rparr>)" for c
    using k f by (simp add: ledger_def keeps_def zombiesSince_def)
  then show "ledger s (updateZombieSpawning d s)"
    using assms f by (simp add: updateZombieSpawning_def Let_def ledger_def keeps_def zombiesSince_def)
  show "0 \<le> zombiesRemaining (updateZombieSpawning d s)"
    using assms f by (simp add: updateZombieSpawning_def Let_def)
qed

lemma ledger_update:
  assumes "0 < zombiesRemaining s"
  shows "ledger s (ZombieShooterGame_update d s) \<and> 0 \<le> zombiesRemaining (ZombieShooterGame_update d s)"
proof (cases "player s")
  case None
  with assms show ?thesis by (simp add: ZombieShooterGame_update_def ledger_refl)
next
  case (Some pl)
  let ?h = "handlePlayerInput d s"
  let ?w = "updateZombieSpawning d ?h"
  let ?p = "updatePickupSpawning d ?w"
  have h: "dstep pl s ?h" by (rule dstep_handlePlayerInput[OF dstep_refl])
  have hp: "player ?h = Some pl" "0 < zombiesRemaining ?h"
    using produces_fields[of s ?h] h Some assms by (simp_all add: dstep_def)
  note w = ledger_updateZombieSpawning[OF hp, of d]
  have p: "dstep pl ?w ?p" by (rule dstep_updatePickupSpawning[OF dstep_refl])
  have b: "beforeDecide d s = ?p" using hp(2) by (simp add: beforeDecide_def waveStep_def)
  have 1: "ledger s ?p"
    by (rule ledger_trans[OF ledger_trans[OF ledger_dstep[OF h] w(1)] ledger_dstep[OF p]])
  have 2: "ledger ?p (renderUI (decide pl ?p))"
    by (rule ledger_same)
       (simp_all add: renderUI_def emit_def decide_def Let_def pause_def keeps_def)
  have "zombiesRemaining (renderUI (decide pl ?p)) = zombiesRemaining ?w"
    using produces_fields[of ?w ?p] p
    by (simp add: renderUI_def emit_def decide_def Let_def pause_def dstep_def)
  with ledger_trans[OF 1 2] w(2) show ?thesis
    by (simp add: update_decides[OF Some] b)
qed

lemma ledger_playing_frame:
  assumes "gameState s = Playing" and "0 < zombiesRemaining s"
  shows "ledger s (frame ts s) \<and> 0 \<le> zombiesRemaining (frame ts s)"
proof (cases "isPaused s")
  case True
  have "ledger s (frame ts s)"
    by (rule ledger_same) (simp_all add: frame_paused[OF True] keeps_def)
  with assms True show ?thesis by (simp add: frame_paused)
next
  case False
  let ?s2 = "(requestAnimationFrame (s\<lparr>clock := ts\<rparr>))\<lparr>lastTimestamp := ts\<rparr>"
  let ?d = "(ts - lastTimestamp s) / 1000"
  let ?s3 = "GameEngine_update ?d ?s2"
  have 2: "ledger s ?s2"
    by (rule ledger_same) (simp_all add: requestAnimationFrame_def keeps_def)
  have 3: "gameState ?s3 = Playing" "0 < zombiesRemaining ?s3"
    using assms
    by (simp_all add: produces_fields[OF produces_GameEngine_update] requestAnimationFrame_def)
  from ledger_update[OF 3(2), of ?d]
  have 4: "ledger ?s3 (ZombieShooterGame_update ?d ?s3)"
          "0 \<le> zombiesRemaining (ZombieShooterGame_update ?d ?s3)" by simp_all
  have "ledger s (render (ZombieShooterGame_update ?d ?s3))"
    by (rule ledger_trans[OF ledger_trans[OF ledger_trans[OF 2 ledger_GameEngine_update] 4(1)]
          ledger_render])
  with 3(1) 4(2) show ?thesis
    by (simp add: frame_eq[OF False] ZombieShooterGame_gameLoop_def
          produces_fields[OF produces_render])
qed






section \<open>The pause screen\<close>

lemma appends_mono: "appends Q s s' \<Longrightarrow> (\<And>e. Q e \<Longrightarrow> Q' e) \<Longrightarrow> appends Q' s s'"
  by (auto simp: appends_def list_all_iff)

lemma routine_not_pause_screen: "routine e \<Longrightarrow> e \<noteq> Screen ''paused''"
  by (cases e) auto

lemma appends_emit: "Q e \<Longrightarrow> appends Q s (emit e s)"
  by (simp add: appends_def emit_def)

lemma appends_same: "trace s' = trace s \<Longrightarrow> appends Q s s'"
  by (simp add: appends_def)

lemma dstep_no_pause_screen: "dstep pl s s' \<Longrightarrow> appends (\<lambda>e. e \<noteq> Screen ''paused'') s s'"
  unfolding dstep_def by (elim conjE, erule appends_mono) (rule routine_not_pause_screen)

lemma waveStep_no_pause_screen: "appends (\<lambda>e. e \<noteq> Screen ''paused'') s (waveStep d s)"
proof (cases "player s")
  case None
  then show ?thesis
    by (simp add: waveStep_def advanceWave_def startWave_def updateZombieSpawning_def Let_def
          spawnZombie_def appends_def)
next
  case (Some pl)
  then show ?thesis
    by (simp add: waveStep_def advanceWave_def startWave_def updateZombieSpawning_def Let_def
          appends_def spawnZombie_trace)
qed

lemma startGame_no_pause_screen: "appends (\<lambda>e. e \<noteq> Screen ''paused'') s (startGame s)"
proof -
  have c: "appends (\<lambda>e. e \<noteq> Screen ''paused'') t (createObstacles t)" for t
    by (rule dstep_no_pause_screen[OF dstep_createObstacles[OF dstep_refl, of 0]])
  let ?s4 = "addEntity (nextRef s)
      (s\<lparr>score := 0, wave := 1, waveTimer := 0, pickupSpawnTimer := 0, entities := [],
          heap := (heap s)(nextRef s := EPlayer (new_Player (mapWidth s / 2 - 20) (mapHeight s / 2 - 20))),
          nextRef := Suc (nextRef s), player := Some (nextRef s)\<rparr>)"
  have e: "startGame s = (startWave (createObstacles ?s4))\<lparr>gameState := Playing\<rparr>"
    by (simp add: startGame_def Let_def new_def)
  have "trace ?s4 = trace s" by (simp add: addEntity_def)
  with c[of ?s4] show ?thesis
    unfolding e by (simp add: appends_def startWave_def Let_def)
qed

lemma closure_no_pause_screen:
  assumes "gameState s \<noteq> Paused"
  shows "appends (\<lambda>e. e \<noteq> Screen ''paused'') s (ZombieShooterGame_gameLoop d s)"
proof (cases "gameState s")
  case Loading
  then show ?thesis
    by (simp add: ZombieShooterGame_gameLoop_def renderLoadingScreen_def appends_emit)
next
  case Title
  have "appends (\<lambda>e. e \<noteq> Screen ''paused'') s (renderTitleScreen s)"
    by (simp add: renderTitleScreen_def appends_emit)
  moreover have "appends (\<lambda>e. e \<noteq> Screen ''paused'') (renderTitleScreen s)
                   (handleTitleScreenInput (renderTitleScreen s))"
    using startGame_no_pause_screen[of "renderTitleScreen s"]
    by (simp add: handleTitleScreenInput_def resetMouseButton_def appends_def)
  ultimately show ?thesis
    using Title by (simp add: ZombieShooterGame_gameLoop_def) (rule appends_trans)
next
  case Playing
  show ?thesis
  proof (cases "player s")
    case None
    then show ?thesis using Playing
      by (simp add: ZombieShooterGame_gameLoop_def ZombieShooterGame_update_def appends_refl)
  next
    case (Some pl)
    let ?h = "handlePlayerInput d s"
    let ?w = "waveStep d ?h"
    let ?b = "beforeDecide d s"
    have 1: "appends (\<lambda>e. e \<noteq> Screen ''paused'') s ?h"
      by (rule dstep_no_pause_screen[OF dstep_handlePlayerInput[OF dstep_refl, of 0]])
    have 2: "appends (\<lambda>e. e \<noteq> Screen ''paused'') ?h ?w"
      by (rule waveStep_no_pause_screen)
    have 3: "appends (\<lambda>e. e \<noteq> Screen ''paused'') ?w ?b"
      unfolding beforeDecide_def
      by (rule dstep_no_pause_screen[OF dstep_updatePickupSpawning[OF dstep_refl, of 0]])
    have 4: "appends (\<lambda>e. e \<noteq> Screen ''paused'') ?b (renderUI (decide pl ?b))"
      by (simp add: appends_def renderUI_def emit_def decide_def Let_def pause_def)
    have "appends (\<lambda>e. e \<noteq> Screen ''paused'') s (renderUI (decide pl ?b))"
      by (rule appends_trans[OF appends_trans[OF appends_trans[OF 1 2] 3] 4])
    then show ?thesis
      using Playing by (simp add: ZombieShooterGame_gameLoop_def update_decides[OF Some])
  qed
next
  case Paused
  with assms show ?thesis by simp
next
  case GameOver
  have "appends (\<lambda>e. e \<noteq> Screen ''paused'') s (renderGameOverScreen s)"
    by (simp add: renderGameOverScreen_def appends_emit)
  moreover have "appends (\<lambda>e. e \<noteq> Screen ''paused'') (renderGameOverScreen s)
                   (handleGameOverScreenInput (renderGameOverScreen s))"
    using startGame_no_pause_screen[of "renderGameOverScreen s"]
    by (simp add: handleGameOverScreenInput_def resetMouseButton_def appends_def)
  ultimately show ?thesis
    using GameOver by (simp add: ZombieShooterGame_gameLoop_def) (rule appends_trans)
qed

lemma frame_no_pause_screen:
  assumes "pausedInv s"
  shows "appends (\<lambda>e. e \<noteq> Screen ''paused'') s (frame ts s)"
proof (cases "isPaused s")
  case True
  then show ?thesis by (simp add: frame_paused appends_def)
next
  case False
  let ?s2 = "(requestAnimationFrame (s\<lparr>clock := ts\<rparr>))\<lparr>lastTimestamp := ts\<rparr>"
  let ?d = "(ts - lastTimestamp s) / 1000"
  let ?s3 = "GameEngine_update ?d ?s2"
  have 2: "appends (\<lambda>e. e \<noteq> Screen ''paused'') s ?s2"
    by (simp add: appends_def requestAnimationFrame_def)
  have 3: "appends (\<lambda>e. e \<noteq> Screen ''paused'') ?s2 ?s3"
    by (rule appends_mono[OF appends_GameEngine_update routine_not_pause_screen])
  have "gameState ?s3 \<noteq> Paused"
    using assms False
    by (simp add: pausedInv_def produces_fields[OF produces_GameEngine_update]
          requestAnimationFrame_def)
  then have 4: "appends (\<lambda>e. e \<noteq> Screen ''paused'') ?s3 (ZombieShooterGame_gameLoop ?d ?s3)"
    by (rule closure_no_pause_screen)
  have 5: "appends (\<lambda>e. e \<noteq> Screen ''paused'') (ZombieShooterGame_gameLoop ?d ?s3)
             (render (ZombieShooterGame_gameLoop ?d ?s3))"
    by (rule appends_mono[OF appends_render routine_not_pause_screen])
  show ?thesis
    unfolding frame_eq[OF False]
    by (rule appends_trans[OF appends_trans[OF appends_trans[OF 2 3] 4] 5])
qed

lemma run_no_pause_screen:
  "pausedInv s \<Longrightarrow> appends (\<lambda>e. e \<noteq> Screen ''paused'') s (run fs s)"
proof (induction fs arbitrary: s)
  case Nil
  then show ?case by (simp add: appends_refl)
next
  case (Cons f fs)
  obtain evs ts where f: "f = (evs, ts)" by (cases f)
  let ?t = "deliver evs s"
  have t: "pausedInv ?t" by (rule pausedInv_deliver[OF Cons.prems])
  have 1: "appends (\<lambda>e. e \<noteq> Screen ''paused'') s ?t"
    by (simp add: appends_def deliver_fields)
  have 2: "appends (\<lambda>e. e \<noteq> Screen ''paused'') ?t (frame ts ?t)"
    by (rule frame_no_pause_screen[OF t])
  have 3: "appends (\<lambda>e. e \<noteq> Screen ''paused'') (frame ts ?t) (run fs (frame ts ?t))"
    by (rule Cons.IH[OF pausedInv_frame[OF t]])
  show ?case unfolding f run.simps
    by (rule appends_trans[OF appends_trans[OF 1 2] 3])
qed

text \<open>
  From the start of the program on, whatever the input: the director is in the paused
  state exactly when the engine is paused, no frame ever draws the pause screen, and a
  game that is paused stays paused, with nothing added to the trace.
\<close>

lemma pause_screen_never_rendered:
  "Screen ''paused'' \<notin> set (trace (run fs (init (new_ZombieShooterGame w h g))))"
proof -
  let ?i = "init (new_ZombieShooterGame w h g)"
  have "trace ?i = [ClearCanvas]"
    by (simp add: init_def new_ZombieShooterGame_def start_def gameLoop_def Let_def
          performance_now_def requestAnimationFrame_def render_def emit_def GameEngine_update_def
          checkCollisions_def prune_def)
  with run_no_pause_screen[OF pausedInv_init, of w h g fs] show ?thesis
    by (auto simp: appends_def list_all_iff)
qed

lemma paused_is_final:
  assumes "gameState (run fs (init (new_ZombieShooterGame w h g))) = Paused"
  shows "gameState (run (fs @ gs) (init (new_ZombieShooterGame w h g))) = Paused \<and>
         trace (run (fs @ gs) (init (new_ZombieShooterGame w h g))) =
           trace (run fs (init (new_ZombieShooterGame w h g)))"
proof -
  let ?s = "run fs (init (new_ZombieShooterGame w h g))"
  have "pausedInv ?s" by (rule pausedInv_run[OF pausedInv_init])
  with assms have "isPaused ?s" by (simp add: pausedInv_def)
  from paused_run[OF this, of gs] assms show ?thesis by (simp add: run_append)
qed

section \<open>Restarting a game\<close>

lemma allFrom_addObstacle: "allFrom n s \<Longrightarrow> allFrom n (addObstacle ob s)"
  by (auto simp: allFrom_def addObstacle_def new_def addEntity_def Let_def)

lemma allFrom_rng: "allFrom n s \<Longrightarrow> allFrom n (s\<lparr>rng := g\<rparr>)"
  by (simp add: allFrom_def)

lemma allFrom_if:
  "(c \<Longrightarrow> allFrom n a) \<Longrightarrow> (\<not> c \<Longrightarrow> allFrom n b) \<Longrightarrow> allFrom n (if c then a else b)"
  by simp

lemma allFrom_randomObstacles: "allFrom n s \<Longrightarrow> allFrom n (randomObstacles k s)"
proof (induction k arbitrary: s)
  case 0
  then show ?case by simp
next
  case (Suc k)
  show ?case
    unfolding randomObstacles.simps random_eq Let_def case_prod_beta fst_conv snd_conv
    by (intro allFrom_if Suc.IH allFrom_addObstacle allFrom_rng Suc.prems)
qed

lemma allFrom_createObstacles: "allFrom n s \<Longrightarrow> allFrom n (createObstacles s)"
proof -
  assume "allFrom n s"
  then have "allFrom n (s\<lparr>obstacles := []\<rparr>)" by (simp add: allFrom_def)
  then show ?thesis
    unfolding createObstacles_def Let_def
    by (intro allFrom_randomObstacles allFrom_addObstacle)
qed

lemma startGame_eq:
  "startGame s =
     (startWave (createObstacles (addEntity (nextRef s)
        (s\<lparr>score := 0, wave := 1, waveTimer := 0, pickupSpawnTimer := 0, entities := [],
            heap := (heap s)(nextRef s := EPlayer (new_Player (mapWidth s / 2 - 20) (mapHeight s / 2 - 20))),
            nextRef := Suc (nextRef s), player := Some (nextRef s)\<rparr>))))\<lparr>gameState := Playing\<rparr>"
  by (simp add: startGame_def Let_def new_def)

lemma startGame_fresh: "\<forall>e \<in> set (entities (startGame s)). nextRef s \<le> e"
proof -
  let ?s4 = "addEntity (nextRef s)
        (s\<lparr>score := 0, wave := 1, waveTimer := 0, pickupSpawnTimer := 0, entities := [],
            heap := (heap s)(nextRef s := EPlayer (new_Player (mapWidth s / 2 - 20) (mapHeight s / 2 - 20))),
            nextRef := Suc (nextRef s), player := Some (nextRef s)\<rparr>)"
  have "allFrom (nextRef s) ?s4" by (simp add: allFrom_def addEntity_def)
  then have "allFrom (nextRef s) (createObstacles ?s4)" by (rule allFrom_createObstacles)
  then show ?thesis
    unfolding startGame_eq by (simp add: allFrom_def startWave_def Let_def)
qed

lemma startGame_obstacle:
  assumes "r < nextRef s" and "heap s r = EObstacle ob"
  shows "heap (startGame s) r = EObstacle ob" and "nextRef s \<le> nextRef (startGame s)"
proof -
  let ?s4 = "addEntity (nextRef s)
        (s\<lparr>score := 0, wave := 1, waveTimer := 0, pickupSpawnTimer := 0, entities := [],
            heap := (heap s)(nextRef s := EPlayer (new_Player (mapWidth s / 2 - 20) (mapHeight s / 2 - 20))),
            nextRef := Suc (nextRef s), player := Some (nextRef s)\<rparr>)"
  have k: "keeps ?s4 (createObstacles ?s4)"
    using dstep_createObstacles[OF dstep_refl, of 0 ?s4] by (simp add: dstep_def keepsPlayer_def)
  have 4: "r < nextRef ?s4" "heap ?s4 r = EObstacle ob"
    using assms by (simp_all add: addEntity_def)
  from k 4 have "heap (createObstacles ?s4) r = EObstacle ob" by (simp add: keeps_def)
  then show "heap (startGame s) r = EObstacle ob"
    unfolding startGame_eq by (simp add: startWave_def Let_def)
  from k show "nextRef s \<le> nextRef (startGame s)"
    unfolding startGame_eq by (simp add: startWave_def Let_def keeps_def addEntity_def)
qed

lemma closure_keeps_list:
  assumes "\<not> restarts s"
  shows "set (entities s) \<subseteq> set (entities (ZombieShooterGame_gameLoop d s))"
proof (cases "gameState s")
  case Loading
  then show ?thesis by (simp add: ZombieShooterGame_gameLoop_def renderLoadingScreen_def emit_def)
next
  case Title
  with assms show ?thesis
    by (simp add: ZombieShooterGame_gameLoop_def renderTitleScreen_def emit_def restarts_def
          handleTitleScreenInput_def isMouseButtonDown_def)
next
  case Playing
  show ?thesis
  proof (cases "player s")
    case None
    with Playing show ?thesis by (simp add: ZombieShooterGame_gameLoop_def ZombieShooterGame_update_def)
  next
    case (Some pl)
    have "set (entities s) \<subseteq> set (entities (beforeDecide d s))"
      using keepsPlayer_beforeDecide[of pl s d] by (simp add: keepsPlayer_def)
    with Playing show ?thesis
      by (simp add: ZombieShooterGame_gameLoop_def update_decides[OF Some] renderUI_def emit_def
            decide_def Let_def pause_def)
  qed
next
  case Paused
  with assms show ?thesis
    by (auto simp: ZombieShooterGame_gameLoop_def renderPauseScreen_def emit_def restarts_def
          handlePauseScreenInput_def isMouseButtonDown_def isKeyDown_def resume_def)
next
  case GameOver
  with assms show ?thesis
    by (simp add: ZombieShooterGame_gameLoop_def renderGameOverScreen_def emit_def restarts_def
          handleGameOverScreenInput_def isMouseButtonDown_def)
qed

lemma closure_restart:
  assumes "restarts s"
  shows "\<forall>e \<in> set (entities (ZombieShooterGame_gameLoop d s)). nextRef s \<le> e"
proof -
  have f: "\<forall>e \<in> set (entities (startGame (emit ev s))). nextRef s \<le> e" for ev
    using startGame_fresh[of "emit ev s"] by (simp add: emit_def)
  show ?thesis
    using assms f
    by (cases "gameState s")
       (simp_all add: restarts_def ZombieShooterGame_gameLoop_def renderTitleScreen_def
          renderPauseScreen_def renderGameOverScreen_def handleTitleScreenInput_def
          handlePauseScreenInput_def handleGameOverScreenInput_def isMouseButtonDown_def
          isKeyDown_def resetMouseButton_def resume_def emit_def)
qed

section \<open>Two more games in progress\<close>

lemma demoGame_input: "keys demoGame k = False" "mouseButtons demoGame b = False"
  unfolding demoGame_def init_demo
  by (simp_all add: startGame_def new_ZombieShooterGame_def Let_def new_def addEntity_def
        createObstacles_def addObstacle_def startWave_def randomObstacles_demo)

lemma demoDeath_fields:
  "entities demoDeath = [0, 1, 2, 3, 4, 5]" "nextRef demoDeath = 6"
  "heap demoDeath 0 = EPlayer ((new_Player 380 280)\<lparr>Player.health := 5\<rparr>)"
  "heap demoDeath 1 = EObstacle (new_Obstacle 0 0 800 20)"
  "heap demoDeath (Suc 0) = EObstacle (new_Obstacle 0 0 800 20)"
  "heap demoDeath 2 = EObstacle (new_Obstacle 0 580 800 20)"
  "heap demoDeath 3 = EObstacle (new_Obstacle 0 0 20 600)"
  "heap demoDeath 4 = EObstacle (new_Obstacle 780 0 20 600)"
  "heap demoDeath 5 = EZombie (setTarget 0 (new_Zombie 390 290 ''normal''))"
  "gameState demoDeath = Playing" "player demoDeath = Some 0"
  "keys demoDeath k = False" "mouseButtons demoDeath b = False"
  using demoGame_heap_Suc
  by (simp_all add: demoDeath_def new_def addEntity_def put_def demoGame_fields demoGame_input)

lemma demoDeath_miss:
  "b \<in> {1, 2, 3, 4} \<Longrightarrow> heap s 0 = heap demoDeath 0 \<Longrightarrow> heap s b = heap demoDeath b \<Longrightarrow>
   heap (collidePair 0 b s) = heap s"
  by (auto simp: collidePair_def Let_def emit_def demoDeath_fields isColliding_def new_Player_def
        new_Obstacle_def GameEntity.truncate_def)

lemma demoDeath_hit:
  "heap s 0 = heap demoDeath 0 \<Longrightarrow> heap s 5 = heap demoDeath 5 \<Longrightarrow>
   marked (heap (collidePair 0 5 s) 0)"
  by (simp add: collidePair_def Let_def emit_def demoDeath_fields isColliding_def new_Player_def
        new_Zombie_def setTarget_def GameEntity.truncate_def handler_defs marked_def
        isMarkedForDeletion_def Player_takeDamage_def markForDeletion_def)

lemma demoDeath_engine: "isPaused demoDeath = False" "zombiesRemaining demoDeath = 7"
  by (simp_all add: demoDeath_def new_def addEntity_def put_def demoGame_fields)

lemma demoDeath_dies:
  fixes s :: Game
  assumes "heap s = heap demoDeath" and "entities s = entities demoDeath"
  shows "marked (heap (GameEngine_update d s) 0)"
proof -
  let ?s4 = "collidePair 0 4 (collidePair 0 3 (collidePair 0 2 (collidePair 0 1 s)))"
  have "heap ?s4 = heap demoDeath"
    by (simp add: demoDeath_miss assms(1))
  then have "marked (heap (collidePair 0 5 ?s4) 0)"
    by (intro demoDeath_hit) simp_all
  then have "marked (heap (collideFrom [1, 2, 3, 4, 5] (collidePair 0 5 ?s4)) 0)"
    by (rule collideFrom_marked)
  then have "marked (heap (checkCollisions s) 0)"
    by (simp add: checkCollisions_def demoDeath_fields assms(2))
  then show ?thesis
    by (simp add: GameEngine_update_def Let_def prune_def updateAll_marked)
qed

text \<open>The frame of a game in progress: what it does to the mark of the player.\<close>

lemma playing_frame_mark:
  assumes "gameState s = Playing" and "\<not> isPaused s" and "player s = Some pl" and "pl < nextRef s"
  shows "marked (heap (frame ts s) pl) =
         marked (heap (GameEngine_update ((ts - lastTimestamp s) / 1000)
                   ((requestAnimationFrame (s\<lparr>clock := ts\<rparr>))\<lparr>lastTimestamp := ts\<rparr>)) pl)"
proof -
  let ?s2 = "(requestAnimationFrame (s\<lparr>clock := ts\<rparr>))\<lparr>lastTimestamp := ts\<rparr>"
  let ?d = "(ts - lastTimestamp s) / 1000"
  let ?s3 = "GameEngine_update ?d ?s2"
  have f: "gameState ?s3 = Playing" "player ?s3 = Some pl" "pl < nextRef ?s3"
    using assms
    by (simp_all add: produces_fields[OF produces_GameEngine_update] GameEngine_update_same
          requestAnimationFrame_def)
  from keepsPlayer_beforeDecide[of pl ?s3 ?d] f(3)
  have "marked (heap (beforeDecide ?d ?s3) pl) = marked (heap ?s3 pl)"
    by (simp add: keepsPlayer_def)
  then show ?thesis
    using f
    by (simp add: frame_eq[OF assms(2)] render_same ZombieShooterGame_gameLoop_def
          update_decides[OF f(2)] renderUI_def emit_def decide_def Let_def pause_def)
qed

lemma playing_frame_state:
  assumes "gameState s = Playing" and "\<not> isPaused s" and "player s = Some pl" and "pl < nextRef s"
      and "\<not> keys s ''Escape''"
  shows "gameState (frame ts s) = (if marked (heap (frame ts s) pl) then GameOver else Playing)"
    and "\<not> isPaused (frame ts s)"
proof -
  let ?s2 = "(requestAnimationFrame (s\<lparr>clock := ts\<rparr>))\<lparr>lastTimestamp := ts\<rparr>"
  let ?d = "(ts - lastTimestamp s) / 1000"
  let ?s3 = "GameEngine_update ?d ?s2"
  have f: "gameState ?s3 = Playing" "player ?s3 = Some pl" "pl < nextRef ?s3" "\<not> keys ?s3 ''Escape''"
          "\<not> isPaused ?s3"
    using assms
    by (simp_all add: produces_fields[OF produces_GameEngine_update] GameEngine_update_same
          requestAnimationFrame_def)
  from closure_playing(1)[OF f(1-4), of ?d] playing_frame_mark[OF assms(1-4), of ts]
  show "gameState (frame ts s) = (if marked (heap (frame ts s) pl) then GameOver else Playing)"
    by (simp add: frame_eq[OF assms(2)] produces_fields[OF produces_render])
  show "\<not> isPaused (frame ts s)"
    using f
    by (simp add: frame_eq[OF assms(2)] produces_fields[OF produces_render]
          ZombieShooterGame_gameLoop_def update_state[OF f(2)])
qed

text \<open>
  C6 fails when the player dies in a frame in which Escape is down. In the game whose
  player has 5 health left and a zombie upon it, the next frame marks the player and ends
  in the game-over state; with Escape down it marks the player too, but \<^verbatim>\<open>update\<close>
  then overwrites \<^verbatim>\<open>'gameOver'\<close> with \<^verbatim>\<open>'paused'\<close> and pauses the engine: the frame ends
  in the paused state, and the state is game over after no sequence of later frames.
\<close>

theorem game_over_lost_to_pause:
  "gameState demoDeath = Playing \<and>
   gameState (run [([], 17)] demoDeath) = GameOver \<and>
   marked (heap (run [([KeyDown ''Escape''], 17)] demoDeath) 0) \<and>
   gameState (run [([KeyDown ''Escape''], 17)] demoDeath) = Paused \<and>
   gameState (run [([KeyDown ''Escape''], 17), ([KeyUp ''Escape''], 34), ([], 51)] demoDeath) = Paused \<and>
   (\<forall>fs. gameState (run (([KeyDown ''Escape''], 17) # fs) demoDeath) \<noteq> GameOver)"
proof -
  let ?t = "deliver [KeyDown ''Escape''] demoDeath"
  have t: "gameState ?t = Playing" "\<not> isPaused ?t" "player ?t = Some 0" "0 < nextRef ?t"
          "keys ?t ''Escape''"
    by (simp_all add: demoDeath_fields demoDeath_engine)
  have m: "marked (heap (frame 17 ?t) 0)"
    unfolding playing_frame_mark[OF t(1-4)]
    by (rule demoDeath_dies) (simp_all add: requestAnimationFrame_def)
  from playing_escape[OF t(1-3,5), of 17]
  have p: "gameState (frame 17 ?t) = Paused" "isPaused (frame 17 ?t)" by simp_all
  have later: "gameState (run fs (frame 17 ?t)) = Paused" for fs
    using paused_run[OF p(2), of fs] p(1) by simp
  have d: "gameState demoDeath = Playing" "\<not> isPaused demoDeath" "player demoDeath = Some 0"
          "0 < nextRef demoDeath" "\<not> keys demoDeath ''Escape''"
    by (simp_all add: demoDeath_fields demoDeath_engine)
  have "marked (heap (frame 17 demoDeath) 0)"
    unfolding playing_frame_mark[OF d(1-4)]
    by (rule demoDeath_dies) (simp_all add: requestAnimationFrame_def)
  with playing_frame_state(1)[OF d, of 17] have g: "gameState (frame 17 demoDeath) = GameOver"
    by simp
  from m p later[of "[([KeyUp ''Escape''], 34), ([], 51)]"] later g d(1) show ?thesis by simp
qed

text \<open>
  C5 fails in its clause that the prune pass is the only point of removal. In the same
  game the frame in which the player dies leaves the top wall, entity 1, in the list and
  unmarked, and the game over; a click then restarts the game, and after that frame the
  wall is no longer in the list, although it still is not marked: \<^verbatim>\<open>startGame\<close> has
  replaced the whole list.
\<close>

theorem restart_removes_unmarked:
  "1 \<in> set (entities (run [([], 17)] demoDeath)) \<and>
   \<not> marked (heap (run [([], 17)] demoDeath) 1) \<and>
   gameState (run [([], 17)] demoDeath) = GameOver \<and>
   1 \<notin> set (entities (run [([], 17), ([MouseDown 0], 34)] demoDeath)) \<and>
   \<not> marked (heap (run [([], 17), ([MouseDown 0], 34)] demoDeath) 1)"
proof -
  let ?s1 = "frame 17 demoDeath"
  let ?wall = "new_Obstacle 0 0 800 20"
  have d: "gameState demoDeath = Playing" "\<not> isPaused demoDeath" "player demoDeath = Some 0"
          "0 < nextRef demoDeath" "\<not> keys demoDeath ''Escape''" "0 < zombiesRemaining demoDeath"
    by (simp_all add: demoDeath_fields demoDeath_engine)
  have nm: "\<not> marked (EObstacle ?wall)"
    by (simp add: marked_def isMarkedForDeletion_def new_Obstacle_def)
  \<comment> \<open>the frame in which the player dies\<close>
  have "ledger demoDeath ?s1" using ledger_playing_frame[OF d(1,6), of 17] by simp
  then have k1: "keeps demoDeath ?s1" by (simp add: ledger_def)
  have w1: "heap ?s1 1 = EObstacle ?wall" "6 \<le> nextRef ?s1"
    using keeps_obstacle[OF k1, of 1 ?wall] keeps_nextRef[OF k1] by (simp_all add: demoDeath_fields)
  have "1 \<in> set (entities ?s1) \<or> marked (heap ?s1 1)"
    using keeps_listed[OF k1, of 1] by (simp add: demoDeath_fields)
  with w1(1) nm have in1: "1 \<in> set (entities ?s1)" by simp
  have "marked (heap ?s1 0)"
    unfolding playing_frame_mark[OF d(1-4)]
    by (rule demoDeath_dies) (simp_all add: requestAnimationFrame_def)
  with playing_frame_state[OF d(1-5), of 17]
  have g1: "gameState ?s1 = GameOver" "\<not> isPaused ?s1" by simp_all
  \<comment> \<open>the frame of the click\<close>
  let ?t = "deliver [MouseDown 0] ?s1"
  let ?t2 = "(requestAnimationFrame (?t\<lparr>clock := 34\<rparr>))\<lparr>lastTimestamp := 34\<rparr>"
  let ?d = "(34 - lastTimestamp ?t) / 1000"
  let ?e = "GameEngine_update ?d ?t2"
  have t: "\<not> isPaused ?t" using g1(2) by simp
  have t2: "heap ?t2 1 = EObstacle ?wall" "6 \<le> nextRef ?t2" "gameState ?t2 = GameOver"
           "mouseButtons ?t2 0"
    using w1 g1 by (simp_all add: requestAnimationFrame_def)
  have ke: "keeps ?t2 ?e" by (rule keeps_GameEngine_update)
  have e: "heap ?e 1 = EObstacle ?wall" "6 \<le> nextRef ?e" "gameState ?e = GameOver" "mouseButtons ?e 0"
    using keeps_obstacle[OF ke, of 1 ?wall] keeps_nextRef[OF ke] t2
    by (simp_all add: GameEngine_update_same produces_fields[OF produces_GameEngine_update])
  have "restarts ?e" using e(3,4) by (simp add: restarts_def isMouseButtonDown_def)
  from closure_restart[OF this, of ?d] e(2)
  have out: "1 \<notin> set (entities (ZombieShooterGame_gameLoop ?d ?e))" by auto
  let ?g = "renderGameOverScreen ?e"
  have "heap ?g 1 = EObstacle ?wall" "1 < nextRef ?g"
    using e(1,2) by (simp_all add: renderGameOverScreen_def emit_def)
  from startGame_obstacle(1)[OF this(2,1)]
  have hw: "heap (ZombieShooterGame_gameLoop ?d ?e) 1 = EObstacle ?wall"
    using e(3,4)
    by (simp add: ZombieShooterGame_gameLoop_def handleGameOverScreenInput_def
          isMouseButtonDown_def resetMouseButton_def renderGameOverScreen_def emit_def)
  have fe: "frame 34 ?t = render (ZombieShooterGame_gameLoop ?d ?e)"
    by (rule frame_eq[OF t])
  have 2: "1 \<notin> set (entities (frame 34 ?t))" "\<not> marked (heap (frame 34 ?t) 1)"
    using out nm hw by (simp_all only: fe render_same not_False_eq_True)
  from in1 w1(1) nm g1(1) 2 show ?thesis by simp
qed

text \<open>
  C5, amended. \<open>s\<close> is the state in which the engine's update of a frame begins, \<open>r\<close>
  an entity of the list that is marked for deletion when the collision pass ends. The
  collision and update passes leave the list as it is, \<open>r\<close> receives its
  \<^verbatim>\<open>update\<close> in this frame, the prune pass is the filter on the mark and removes
  \<open>r\<close>; and in what follows, the rest of this frame (the director's closure and the
  render pass) and any number of later frames with any input, \<open>r\<close> is never in the
  list again and no overlap test, \<^verbatim>\<open>onCollision\<close>, \<^verbatim>\<open>update\<close> or \<^verbatim>\<open>render\<close> involves it.
  Besides the prune pass, entities leave the list only when the game restarts: run in
  any state \<open>t\<close>, the director's closure takes nothing off the list unless it restarts
  the game, and then every entity of the list is a new object; the render pass leaves
  the list as it is.
\<close>

theorem deferred_deletion:
  fixes s :: Game
  assumes "r \<in> set (entities s)" and "r < nextRef s" and "marked (heap (checkCollisions s) r)"
  shows "entities (checkCollisions s) = entities s \<and>
         Update r d \<in> set (eventsSince s (GameEngine_update d s)) \<and>
         entities (GameEngine_update d s) =
           filter (\<lambda>e. \<not> marked (heap (updateAll d (entities s) (checkCollisions s)) e)) (entities s) \<and>
         r \<notin> set (entities (GameEngine_update d s)) \<and>
         (\<forall>fs. r \<notin> set (entities (run fs (render (ZombieShooterGame_gameLoop d (GameEngine_update d s))))) \<and>
               filter (mentions r)
                 (eventsSince (GameEngine_update d s)
                    (run fs (render (ZombieShooterGame_gameLoop d (GameEngine_update d s))))) = []) \<and>
         (if restarts t
          then \<forall>e \<in> set (entities (ZombieShooterGame_gameLoop d t)). nextRef t \<le> e
          else set (entities t) \<subseteq> set (entities (ZombieShooterGame_gameLoop d t))) \<and>
         entities (render t) = entities t"
proof -
  let ?s1 = "GameEngine_update d s"
  have out: "r \<notin> set (entities ?s1)" by (rule prune_removes[OF assms(3)])
  then have "absent r ?s1" using assms(2) by (simp add: absent_def GameEngine_update_nextRef)
  then have "quiet r ?s1 ?s1" by (rule quiet_refl)
  then have "quiet r ?s1 (run fs (render (ZombieShooterGame_gameLoop d ?s1)))" for fs
    by (intro quiet_run quiet_render quiet_ZombieShooterGame_gameLoop)
  then have later: "\<forall>fs. r \<notin> set (entities (run fs (render (ZombieShooterGame_gameLoop d ?s1)))) \<and>
               filter (mentions r)
                 (eventsSince ?s1 (run fs (render (ZombieShooterGame_gameLoop d ?s1)))) = []"
    using quiet_events by blast
  have "entities ?s1 =
          filter (\<lambda>e. \<not> marked (heap (updateAll d (entities s) (checkCollisions s)) e)) (entities s)"
    by (rule GameEngine_update_entities)
  moreover have "if restarts t
          then \<forall>e \<in> set (entities (ZombieShooterGame_gameLoop d t)). nextRef t \<le> e
          else set (entities t) \<subseteq> set (entities (ZombieShooterGame_gameLoop d t))"
    using closure_restart[of t d] closure_keeps_list[of t d] by simp
  ultimately show ?thesis
    using out later update_received[OF assms(1), of d]
    by (simp only: checkCollisions_entities render_same simp_thms)
qed

theorem deferred_deletion_witness:
  "5 \<in> set (entities demoPickup) \<and> 5 < nextRef demoPickup \<and> marked (heap (checkCollisions demoPickup) 5) \<and>
   Update 5 (1/60) \<in> set (eventsSince demoPickup (GameEngine_update (1/60) demoPickup)) \<and>
   5 \<notin> set (entities (GameEngine_update (1/60) demoPickup)) \<and>
   5 \<notin> set (entities (run [([], 17), ([], 34)]
                 (render (ZombieShooterGame_gameLoop (1/60) (GameEngine_update (1/60) demoPickup))))) \<and>
   \<not> restarts demoGame \<and>
   set (entities demoGame) \<subseteq> set (entities (ZombieShooterGame_gameLoop (1/60) demoGame))"
proof -
  have h: "5 \<in> set (entities demoPickup)" "5 < nextRef demoPickup"
    by (simp_all add: demoPickup_fields)
  have n: "\<not> restarts demoGame" by (simp add: restarts_def demoGame_fields)
  note th = deferred_deletion[OF h demoPickup_marked, of "1/60" demoGame]
  from th n have "set (entities demoGame) \<subseteq> set (entities (ZombieShooterGame_gameLoop (1/60) demoGame))"
    by (simp only: if_False)
  with th h demoPickup_marked n show ?thesis
    by blast
qed


end
